(* ===== verification/Prelude.thy ===== *)
theory Prelude
  imports Main "HOL-Library.Sublist" "HOL-Library.Multiset"
begin

text \<open>
  Shared vocabulary of the development: the JavaScript string and array operations the sources
  use, with the generic lemmas about them.

  A JavaScript string is a \<open>string\<close>, one \<open>char\<close> per UTF-16 code unit. Every character the
  modelled code looks for is ASCII. The other characters it writes, U+2026 (ellipsis), U+2014 (em
  dash), U+2019 (apostrophe), U+00B7 (middle dot) and U+00D7 (times), are one code unit each and
  stand here as the one \<open>char\<close> that has their windows-1252 code, so lengths agree.

  An absent value (\<open>undefined\<close>) is \<open>None\<close>. A \<open>Set\<close> of constants is a list used through
  \<open>set\<close>. Spreading a \<open>Set\<close> back into an array keeps the first occurrence of each element in
  order: \<open>uniq\<close>.
\<close>

named_theorems js_defs \<open>definitions of the JavaScript helpers\<close>

section \<open>Characters\<close>

definition newline :: char where "newline = CHR 0x0A"
definition tab :: char where "tab = CHR 0x09"
definition carriage :: char where "carriage = CHR 0x0D"
definition dquote :: char where "dquote = CHR 0x22"
definition squote :: char where "squote = CHR 0x27"
definition backslash :: char where "backslash = CHR 0x5C"
definition backtick :: char where "backtick = CHR 0x60"
definition ellipsis :: char where "ellipsis = CHR 0x85"
definition em_dash :: char where "em_dash = CHR 0x97"
definition middle_dot :: char where "middle_dot = CHR 0xB7"
definition left_quote :: char where "left_quote = CHR 0x93"
definition right_quote :: char where "right_quote = CHR 0x94"
definition apostrophe :: char where "apostrophe = CHR 0x92"
definition times_sign :: char where "times_sign = CHR 0xD7"

lemmas char_defs = newline_def tab_def carriage_def dquote_def squote_def backslash_def
  backtick_def ellipsis_def em_dash_def

definition is_digit :: "char \<Rightarrow> bool" where
  "is_digit c \<longleftrightarrow> c \<in> set ''0123456789''"

definition is_lower :: "char \<Rightarrow> bool" where
  "is_lower c \<longleftrightarrow> c \<in> set ''abcdefghijklmnopqrstuvwxyz''"

definition is_upper :: "char \<Rightarrow> bool" where
  "is_upper c \<longleftrightarrow> c \<in> set ''ABCDEFGHIJKLMNOPQRSTUVWXYZ''"

definition is_alpha :: "char \<Rightarrow> bool" where
  "is_alpha c \<longleftrightarrow> is_lower c \<or> is_upper c"

text \<open>The character classes \<open>[A-Za-z_]\<close> and \<open>[A-Za-z0-9_]\<close>.\<close>

definition is_name_start :: "char \<Rightarrow> bool" where
  "is_name_start c \<longleftrightarrow> is_alpha c \<or> c = CHR ''_''"

definition is_name_char :: "char \<Rightarrow> bool" where
  "is_name_char c \<longleftrightarrow> is_name_start c \<or> is_digit c"

text \<open>The class \<open>\s\<close>, which is also what \<open>trim\<close> removes.\<close>

definition is_space :: "char \<Rightarrow> bool" where
  "is_space c \<longleftrightarrow> c \<in> set [CHR 0x09, CHR 0x0A, CHR 0x0B, CHR 0x0C, CHR 0x0D, CHR 0x20, CHR 0xA0]"

lemmas char_class_defs = is_digit_def is_lower_def is_upper_def is_alpha_def is_name_start_def
  is_name_char_def

lemma name_start_is_name_char [simp]: "is_name_start c \<Longrightarrow> is_name_char c"
  by (simp add: is_name_char_def)

section \<open>Strings\<close>

text \<open>\<open>s.startsWith(p)\<close>, \<open>s.endsWith(p)\<close>, \<open>s.includes(p)\<close> and \<open>s.indexOf(c)\<close> (\<open>None\<close> for -1).\<close>

abbreviation startsWith :: "'a list \<Rightarrow> 'a list \<Rightarrow> bool" where
  "startsWith s p \<equiv> prefix p s"

definition endsWith :: "'a list \<Rightarrow> 'a list \<Rightarrow> bool" where
  "endsWith s p \<longleftrightarrow> prefix (rev p) (rev s)"

fun includesStr :: "'a list \<Rightarrow> 'a list \<Rightarrow> bool" where
  "includesStr [] p \<longleftrightarrow> p = []"
| "includesStr (x # xs) p \<longleftrightarrow> prefix p (x # xs) \<or> includesStr xs p"

fun indexOf :: "'a \<Rightarrow> 'a list \<Rightarrow> nat option" where
  "indexOf c [] = None"
| "indexOf c (x # xs) = (if x = c then Some 0 else map_option Suc (indexOf c xs))"

text \<open>\<open>s.split(c)\<close> for a one-character separator, and \<open>parts.join(sep)\<close>.\<close>

fun split_on :: "'a \<Rightarrow> 'a list \<Rightarrow> 'a list list" where
  "split_on c [] = [[]]"
| "split_on c (x # xs) =
     (if x = c then [] # split_on c xs
      else (case split_on c xs of [] \<Rightarrow> [[x]] | y # ys \<Rightarrow> (x # y) # ys))"

fun join :: "'a list \<Rightarrow> 'a list list \<Rightarrow> 'a list" where
  "join sep [] = []"
| "join sep [x] = x"
| "join sep (x # y # zs) = x @ sep @ join sep (y # zs)"

text \<open>Decimal notation, for numbers in template literals.\<close>

definition digit_char :: "nat \<Rightarrow> char" where
  "digit_char n = ''0123456789'' ! (n mod 10)"

fun show_nat :: "nat \<Rightarrow> string" where
  "show_nat n = (if n < 10 then [digit_char n] else show_nat (n div 10) @ [digit_char n])"

declare show_nat.simps [simp del]

definition show_int :: "int \<Rightarrow> string" where
  "show_int i = (if i < 0 then CHR ''-'' # show_nat (nat (- i)) else show_nat (nat i))"

text \<open>\<open>text.replace(/\s+/g, ' ')\<close> and \<open>trim\<close>.\<close>

fun collapseSpaces :: "string \<Rightarrow> string" where
  "collapseSpaces [] = []"
| "collapseSpaces [c] = (if is_space c then '' '' else [c])"
| "collapseSpaces (c # d # s) =
     (if is_space c \<and> is_space d then collapseSpaces (d # s)
      else (if is_space c then CHR '' '' else c) # collapseSpaces (d # s))"

definition trim :: "string \<Rightarrow> string" where
  "trim s = rev (dropWhile is_space (rev (dropWhile is_space s)))"

definition trimEnd :: "string \<Rightarrow> string" where
  "trimEnd s = rev (dropWhile is_space (rev s))"

lemma endsWith_append [simp]: "endsWith (xs @ ys) ys"
  by (simp add: endsWith_def)

lemma endsWith_iff: "endsWith s p \<longleftrightarrow> (\<exists>q. s = q @ p)"
  by (metis endsWith_def prefix_def rev_append rev_rev_ident)

lemma indexOf_None [simp]: "indexOf c xs = None \<longleftrightarrow> c \<notin> set xs"
  by (induction xs) auto

lemma indexOf_Some:
  "indexOf c xs = Some n \<Longrightarrow> n < length xs \<and> xs ! n = c \<and> c \<notin> set (take n xs)"
  by (induction xs arbitrary: n) (auto split: if_splits)

lemma indexOf_split:
  assumes "indexOf c xs = Some n"
  shows "xs = take n xs @ c # drop (Suc n) xs"
  using indexOf_Some [OF assms] by (metis id_take_nth_drop)

lemma indexOf_append [simp]: "c \<notin> set xs \<Longrightarrow> indexOf c (xs @ c # ys) = Some (length xs)"
  by (induction xs) auto

lemma split_on_not_Nil [simp]: "split_on c xs \<noteq> []"
  by (induction xs) (auto split: list.splits)

lemma split_on_no_sep: "c \<notin> set xs \<Longrightarrow> split_on c xs = [xs]"
  by (induction xs) auto

lemma split_on_parts: "p \<in> set (split_on c xs) \<Longrightarrow> c \<notin> set p"
  by (induction xs arbitrary: p) (auto split: if_splits list.splits)

lemma split_on_append_sep: "c \<notin> set xs \<Longrightarrow> split_on c (xs @ c # ys) = xs # split_on c ys"
  by (induction xs) auto

lemma case_option_same: "(case x of None \<Rightarrow> a | Some j \<Rightarrow> a) = a"
  by (cases x) simp_all

lemma split_on_append: "split_on c (xs @ c # ys) = split_on c xs @ split_on c ys"
proof (induction xs)
  case (Cons x xs)
  then show ?case by (cases "split_on c xs") (auto simp: split_on_not_Nil)
qed simp

lemma join_split_on: "join [c] (split_on c xs) = xs"
proof (induction xs)
  case (Cons x xs)
  then show ?case
    by (cases "split_on c xs" rule: list.exhaust; cases "tl (split_on c xs)")
      (auto simp: neq_Nil_conv)
qed simp

lemma split_on_join:
  "ps \<noteq> [] \<Longrightarrow> \<forall>p \<in> set ps. c \<notin> set p \<Longrightarrow> split_on c (join [c] ps) = ps"
  by (induction "[c]" ps rule: join.induct) (auto simp: split_on_no_sep split_on_append_sep)

lemma join_Cons: "ps \<noteq> [] \<Longrightarrow> join sep (p # ps) = p @ sep @ join sep ps"
  by (cases ps) auto

lemma join_append:
  "xs \<noteq> [] \<Longrightarrow> ys \<noteq> [] \<Longrightarrow> join sep (xs @ ys) = join sep xs @ sep @ join sep ys"
proof (induction xs)
  case (Cons x xs)
  then show ?case by (cases "xs = []") (simp_all add: join_Cons)
qed simp

lemma join_empty_iff: "\<forall>p \<in> set ps. p \<noteq> [] \<Longrightarrow> join sep ps = [] \<longleftrightarrow> ps = []"
proof (cases ps)
  case (Cons p qs)
  then show "\<forall>p \<in> set ps. p \<noteq> [] \<Longrightarrow> ?thesis" by (cases "qs = []") (auto simp: join_Cons)
qed simp

section \<open>Arrays\<close>

text \<open>\<open>[...new Set(xs)]\<close>: the first occurrence of each element, in order.\<close>

fun uniq :: "'a list \<Rightarrow> 'a list" where
  "uniq [] = []"
| "uniq (x # xs) = x # filter (\<lambda>y. y \<noteq> x) (uniq xs)"

text \<open>Keeping the first element for each key, as a loop with a \<open>seen\<close> set of keys does.\<close>

fun uniq_by :: "('a \<Rightarrow> 'k) \<Rightarrow> 'k set \<Rightarrow> 'a list \<Rightarrow> 'a list" where
  "uniq_by key seen [] = []"
| "uniq_by key seen (x # xs) =
     (if key x \<in> seen then uniq_by key seen xs
      else x # uniq_by key (insert (key x) seen) xs)"

text \<open>\<open>xs.find(p)\<close> is \<open>List.find\<close>; \<open>xs.findLast(p)\<close> finds from the end.\<close>

definition findLast :: "('a \<Rightarrow> bool) \<Rightarrow> 'a list \<Rightarrow> 'a option" where
  "findLast p xs = List.find p (rev xs)"

text \<open>\<open>xs.slice(-n)\<close> for \<open>n > 0\<close>: the last \<open>n\<close> elements.\<close>

definition last_n :: "nat \<Rightarrow> 'a list \<Rightarrow> 'a list" where
  "last_n n xs = drop (length xs - n) xs"

text \<open>\<open>xs[0]\<close> and \<open>xs[i]\<close>, with \<open>undefined\<close> out of range.\<close>

definition at :: "'a list \<Rightarrow> nat \<Rightarrow> 'a option" where
  "at xs i = (if i < length xs then Some (xs ! i) else None)"

text \<open>An optional element, pushed if there is one.\<close>

definition option_list :: "'a option \<Rightarrow> 'a list" where
  "option_list x = (case x of None \<Rightarrow> [] | Some y \<Rightarrow> [y])"

lemma option_list_simps [simp]: "option_list None = []" "option_list (Some y) = [y]"
  by (simp_all add: option_list_def)

lemma at_Nil [simp]: "at [] i = None"
  and at_Cons_0 [simp]: "at (x # xs) 0 = Some x"
  and at_Cons_Suc [simp]: "at (x # xs) (Suc i) = at xs i"
  by (simp_all add: at_def)

lemma at_Cons_numeral [simp]: "at (x # xs) (numeral n) = at xs (pred_numeral n)"
  by (simp add: numeral_eq_Suc)

lemma at_Cons_1 [simp]: "at (x # xs) 1 = at xs 0"
  by (simp add: One_nat_def)

lemma set_uniq [simp]: "set (uniq xs) = set xs"
  by (induction xs) auto

lemma distinct_uniq [simp]: "distinct (uniq xs)"
  by (induction xs) auto

lemma uniq_eq_Nil [simp]: "uniq xs = [] \<longleftrightarrow> xs = []"
  by (cases xs) auto

lemma uniq_distinct: "distinct xs \<Longrightarrow> uniq xs = xs"
  by (induction xs) (auto intro: filter_True)

lemma uniq_idem [simp]: "uniq (uniq xs) = uniq xs"
  by (simp add: uniq_distinct)

lemma uniq_by_subset: "x \<in> set (uniq_by key seen xs) \<Longrightarrow> x \<in> set xs \<and> key x \<notin> seen"
  by (induction xs arbitrary: seen) (fastforce split: if_splits)+

lemma uniq_by_keys: "key ` set (uniq_by key seen xs) = key ` set xs - seen"
  by (induction xs arbitrary: seen) auto

lemma uniq_by_append:
  "uniq_by key seen (xs @ ys) =
     uniq_by key seen xs @ uniq_by key (seen \<union> key ` set xs) ys"
  by (induction xs arbitrary: seen) (auto simp: insert_absorb)

lemma uniq_by_distinct: "distinct (map key (uniq_by key seen xs))"
proof (induction xs arbitrary: seen)
  case (Cons x xs)
  have "key x \<notin> key ` set (uniq_by key (insert (key x) seen) xs)"
    by (simp add: uniq_by_keys)
  with Cons show ?case by (simp add: image_iff)
qed simp

lemma uniq_by_first:
  "x \<in> set (uniq_by key seen xs) \<longleftrightarrow>
     key x \<notin> seen \<and> List.find (\<lambda>y. key y = key x) xs = Some x"
  by (induction xs arbitrary: seen) auto

lemma findLast_Some:
  "findLast p xs = Some x \<Longrightarrow> x \<in> set xs \<and> p x"
  unfolding findLast_def by (metis find_Some_iff nth_mem set_rev)

lemma find_map: "List.find P (map f xs) = map_option f (List.find (P \<circ> f) xs)"
  by (induction xs) auto

lemma findLast_map: "findLast P (map f xs) = map_option f (findLast (P \<circ> f) xs)"
  by (simp add: findLast_def rev_map find_map)

lemma findLast_Nil [simp]: "findLast P [] = None"
  and findLast_snoc [simp]: "findLast P (xs @ [x]) = (if P x then Some x else findLast P xs)"
  by (simp_all add: findLast_def)

lemma findLast_None: "findLast p xs = None \<longleftrightarrow> (\<forall>x \<in> set xs. \<not> p x)"
  by (auto simp: findLast_def find_None_iff)

lemma takeWhile_twice [simp]: "takeWhile P (takeWhile P xs) = takeWhile P xs"
  by (induction xs) (auto dest: set_takeWhileD)

lemma find_Some_in: "List.find p xs = Some x \<Longrightarrow> x \<in> set xs \<and> p x"
  by (metis find_Some_iff nth_mem)

lemma set_last_n: "set (last_n n xs) \<subseteq> set xs"
  by (simp add: last_n_def set_drop_subset)

end
