(* ===== verification/Deed.thy ===== *)
theory Deed
  imports Prelude "HOL-Library.Char_ord" "HOL-Library.List_Lexorder"
begin

text \<open>
  \<open>policy/classifier/deed.ts\<close>: what a tool call does, and to what. \<open>realmText\<close> and \<open>deedText\<close> are the
  string values of the two enums, as template literals print them.
\<close>

section \<open>Data\<close>

datatype e_deed_realm = RPath | RGitRef | RGitWorktree | RRemote | RProcess | RPackage

datatype e_deed = Routine | ReadOnly | WriteFile | FastForward | RemovePath | DiscardWorkingTree
  | RewriteHistory | DropRecovery | DeleteBranch | ForcePush | MutateStash | RemoveWorktree
  | AddWorktree | CleanUntracked | MutateDependencies | KillProcess | SendOutbound
  | PublishArtifact | DeployEnvironment | Unreadable

fun realmText :: "e_deed_realm \<Rightarrow> string" where
  "realmText RPath = ''path''"
| "realmText RGitRef = ''git-ref''"
| "realmText RGitWorktree = ''git-worktree''"
| "realmText RRemote = ''remote''"
| "realmText RProcess = ''process''"
| "realmText RPackage = ''package''"

fun deedText :: "e_deed \<Rightarrow> string" where
  "deedText Routine = ''routine''"
| "deedText ReadOnly = ''read-only''"
| "deedText WriteFile = ''write-file''"
| "deedText FastForward = ''fast-forward''"
| "deedText RemovePath = ''remove-path''"
| "deedText DiscardWorkingTree = ''discard-working-tree''"
| "deedText RewriteHistory = ''rewrite-history''"
| "deedText DropRecovery = ''drop-recovery''"
| "deedText DeleteBranch = ''delete-branch''"
| "deedText ForcePush = ''force-push''"
| "deedText MutateStash = ''mutate-stash''"
| "deedText RemoveWorktree = ''remove-worktree''"
| "deedText AddWorktree = ''add-worktree''"
| "deedText CleanUntracked = ''clean-untracked''"
| "deedText MutateDependencies = ''mutate-dependencies''"
| "deedText KillProcess = ''kill-process''"
| "deedText SendOutbound = ''send-outbound''"
| "deedText PublishArtifact = ''publish-artifact''"
| "deedText DeployEnvironment = ''deploy-environment''"
| "deedText Unreadable = ''unreadable''"

record deed_target =
  dt_realm :: e_deed_realm
  dt_value :: string

record deed =
  d_action :: e_deed
  d_toolName :: string
  d_targets :: "deed_target list"
  d_cwd :: "string option"
  d_summary :: string

section \<open>Operations\<close>

definition quietDeeds :: "e_deed list" where
  "quietDeeds = [Routine, ReadOnly]"

definition filesystemRealms :: "e_deed_realm list" where
  "filesystemRealms = [RPath, RGitWorktree]"

definition mutates :: "deed \<Rightarrow> bool" where
  "mutates deed \<longleftrightarrow>
     (if d_action deed = Unreadable then False else d_action deed \<notin> set quietDeeds)"

definition contendsForItsPlace :: "deed \<Rightarrow> bool" where
  "contendsForItsPlace deed \<longleftrightarrow>
     (if d_action deed = Unreadable then False else d_action deed \<noteq> ReadOnly)"

definition filesystemTargets :: "deed \<Rightarrow> deed_target list" where
  "filesystemTargets deed = filter (\<lambda>t. dt_realm t \<in> set filesystemRealms) (d_targets deed)"

definition targetText :: "deed_target \<Rightarrow> string" where
  "targetText t = realmText (dt_realm t) @ '':'' @ dt_value t"

definition deedFingerprint :: "deed \<Rightarrow> string" where
  "deedFingerprint deed =
     (let targets = sort (uniq (map targetText (d_targets deed))) in
      join ''|'' [deedText (d_action deed), d_toolName deed,
        (case d_cwd deed of None \<Rightarrow> '''' | Some c \<Rightarrow> c), join '' '' targets])"

section \<open>Lemmas\<close>

lemma mutates_iff: "mutates d \<longleftrightarrow> d_action d \<notin> {Routine, ReadOnly, Unreadable}"
  by (auto simp: mutates_def quietDeeds_def)

lemma contends_iff: "contendsForItsPlace d \<longleftrightarrow> d_action d \<notin> {ReadOnly, Unreadable}"
  by (auto simp: contendsForItsPlace_def)

lemma mutates_contends: "mutates d \<Longrightarrow> contendsForItsPlace d"
  by (auto simp: mutates_iff contends_iff)

lemma sort_uniq_set: "set xs = set ys \<Longrightarrow> sort (uniq xs) = sort (uniq ys)"
  by (rule sorted_distinct_set_unique) simp_all

lemma deedFingerprint_cong:
  assumes "d_action d = d_action e" and "d_toolName d = d_toolName e" and "d_cwd d = d_cwd e"
    and "set (d_targets d) = set (d_targets e)"
  shows "deedFingerprint d = deedFingerprint e"
proof -
  have "set (map targetText (d_targets d)) = set (map targetText (d_targets e))"
    using assms by simp
  from sort_uniq_set [OF this] assms show ?thesis by (simp add: deedFingerprint_def)
qed

end
