(* ===== verification/Facts.thy ===== *)
theory Facts
  imports Deed
begin

text \<open>
  \<open>policy/classifier/facts.ts\<close> and \<open>dimension.ts\<close>: what was learned about the workspace before a call is
  judged, and the scales a risk is measured on. Severities are ordered as \<open>triage.ts\<close> ranks them.
\<close>

section \<open>Facts\<close>

datatype e_occupancy = Ours | LiveOther | UnknownOccupancy

record worktree_fact =
  wt_path :: string
  wt_branch :: "string option"
  wt_isMain :: bool
  wt_occupancy :: e_occupancy
  wt_heldBy :: "nat option"
  wt_changedCount :: "nat option"
  wt_unpushedCommits :: "nat option"

record ref_fact =
  rf_ref :: string
  rf_onRemote :: bool
  rf_checkedOutAt :: "string list"

record workspace_facts =
  f_projectDirectory :: string
  f_launchDirectory :: string
  f_repo :: "string option"
  f_worktrees :: "worktree_fact list"
  f_refs :: "ref_fact list"
  f_ownChangedPaths :: "string list"
  f_regenerablePaths :: "string list"
  f_gatheredFor :: "e_deed_realm list"

definition weLookedAt :: "workspace_facts \<Rightarrow> e_deed_realm \<Rightarrow> bool" where
  "weLookedAt facts realm \<longleftrightarrow> realm \<in> set (f_gatheredFor facts)"

definition weLookedAtNothing :: "workspace_facts \<Rightarrow> bool" where
  "weLookedAtNothing facts \<longleftrightarrow> f_gatheredFor facts = []"

definition weKnowWhereTheProjectIs :: "workspace_facts \<Rightarrow> bool" where
  "weKnowWhereTheProjectIs facts \<longleftrightarrow> f_projectDirectory facts \<noteq> ''''"

definition NO_FACTS :: workspace_facts where
  "NO_FACTS = \<lparr>f_projectDirectory = '''', f_launchDirectory = '''', f_repo = None,
     f_worktrees = [], f_refs = [], f_ownChangedPaths = [], f_regenerablePaths = [],
     f_gatheredFor = []\<rparr>"

section \<open>Dimensions and severities\<close>

datatype e_risk_dimension = Irreversibility | Reach | Contention | SharedHistory | Exposure
  | Provenance | Blast

datatype e_severity = Note | Serious | Grave

definition RISING :: "e_severity list" where
  "RISING = [Note, Serious, Grave]"

fun severityText :: "e_severity \<Rightarrow> string" where
  "severityText Note = ''note''"
| "severityText Serious = ''serious''"
| "severityText Grave = ''grave''"

fun dimensionText :: "e_risk_dimension \<Rightarrow> string" where
  "dimensionText Irreversibility = ''irreversibility''"
| "dimensionText Reach = ''reach''"
| "dimensionText Contention = ''contention''"
| "dimensionText SharedHistory = ''shared-history''"
| "dimensionText Exposure = ''exposure''"
| "dimensionText Provenance = ''provenance''"
| "dimensionText Blast = ''blast''"

text \<open>The order of severities is the order of \<open>RISING\<close>, that \<open>severityRank\<close> reads off.\<close>

definition severityRank :: "e_severity \<Rightarrow> nat" where
  "severityRank severity = the (indexOf severity RISING)"

lemma severityRank_simps [simp]:
  "severityRank Note = 0" "severityRank Serious = 1" "severityRank Grave = 2"
  by (simp_all add: severityRank_def RISING_def)

lemma severityRank_eq: "severityRank a = severityRank b \<Longrightarrow> a = b"
  by (cases a; cases b) simp_all

instantiation e_severity :: linorder
begin

definition less_eq_e_severity :: "e_severity \<Rightarrow> e_severity \<Rightarrow> bool" where
  "less_eq_e_severity a b \<longleftrightarrow> severityRank a \<le> severityRank b"

definition less_e_severity :: "e_severity \<Rightarrow> e_severity \<Rightarrow> bool" where
  "less_e_severity a b \<longleftrightarrow> severityRank a < severityRank b"

instance
  by standard
    (auto simp: less_eq_e_severity_def less_e_severity_def intro: severityRank_eq)

end

lemma severity_bounds [simp]: "Note \<le> severity" "severity \<le> Grave"
  by (cases severity; simp add: less_eq_e_severity_def)+

lemma severity_order [simp]: "Note < Serious" "Serious < Grave" "Note < Grave" "\<not> Grave \<le> Serious"
    "\<not> Grave \<le> Note" "\<not> Serious \<le> Note"
  by (simp_all add: less_eq_e_severity_def less_e_severity_def)

end
