(* ===== verification/Json.thy ===== *)
theory Json
  imports Prelude
begin

text \<open>
  A JavaScript value as \<open>JSON.parse\<close> gives it: what the sources call \<open>unknown\<close> (tool inputs, event
  payloads). An object is the list of its properties; a key is looked up as \<open>map_of\<close> does.
\<close>

datatype json =
    JNull
  | JBool bool
  | JNumber int
  | JString string
  | JArray "json list"
  | JObject "(string \<times> json) list"

text \<open>\<open>z.record(z.string(), z.unknown()).safeParse(value)\<close>: succeeds on the plain objects.\<close>

fun recordOf :: "json \<Rightarrow> (string \<rightharpoonup> json) option" where
  "recordOf (JObject fields) = Some (map_of fields)"
| "recordOf _ = None"

section \<open>JSON.stringify\<close>

text \<open>The numbers are integers below \<open>10 ^ 21\<close>, which \<open>JSON.stringify\<close> writes in full. Control characters
  are escaped, the frequent ones by name.\<close>

definition hexDigit :: "nat \<Rightarrow> char" where
  "hexDigit n = ''0123456789abcdef'' ! (n mod 16)"

definition jsonChar :: "char \<Rightarrow> string" where
  "jsonChar c =
     (if c = dquote \<or> c = backslash then [backslash, c]
      else if c = CHR 0x08 then backslash # ''b''
      else if c = CHR 0x0C then backslash # ''f''
      else if c = newline then backslash # ''n''
      else if c = carriage then backslash # ''r''
      else if c = tab then backslash # ''t''
      else if of_char c < (32 :: nat)
      then backslash # ''u00'' @ [hexDigit (of_char c div 16), hexDigit (of_char c)]
      else [c])"

definition jsonString :: "string \<Rightarrow> string" where
  "jsonString s = [dquote] @ concat (map jsonChar s) @ [dquote]"

fun stringify :: "json \<Rightarrow> string" where
  "stringify JNull = ''null''"
| "stringify (JBool b) = (if b then ''true'' else ''false'')"
| "stringify (JNumber n) = show_int n"
| "stringify (JString s) = jsonString s"
| "stringify (JArray values) = ''['' @ join '','' (map stringify values) @ '']''"
| "stringify (JObject fields) =
     ''{'' @ join '','' (map (\<lambda>(key, value). jsonString key @ '':'' @ stringify value) fields) @ ''}''"

end
