(* ===== verification/Expansion.thy ===== *)
theory Expansion
  imports Prelude
begin

text \<open>
  \<open>policy/classifier/command/expansion.ts\<close>: reading \<open>$name\<close>, \<open>${name...}\<close>, \<open>$(...)\<close> and backquoted
  substitutions. A cursor \<open>(source, at)\<close> of the code is the unread rest \<open>source.slice(at)\<close>: every
  read looks forward from the cursor only. A reader returns what it read and the new rest.
\<close>

section \<open>The reader interface\<close>

text \<open>What the lexer relies on: a reader that succeeds leaves a strictly shorter rest, which is a
  suffix of what it was given.\<close>

locale reader =
  fixes read :: "string \<Rightarrow> ('a \<times> string) option"
  assumes consumes: "read s = Some (x, r) \<Longrightarrow> \<exists>u. u \<noteq> [] \<and> s = u @ r"
begin

lemma progress: "read s = Some (x, r) \<Longrightarrow> length r < length s"
  using consumes [of s x r] by auto

lemma rest_subset: "read s = Some (x, r) \<Longrightarrow> set r \<subseteq> set s"
  using consumes [of s x r] by auto

lemma fails_at_end: "read [] = None"
  using consumes [of "[]"] by (cases "read []") auto

end

section \<open>Data\<close>

datatype e_expansion_kind = Variable | Substitution

record expansion =
  exp_kind :: e_expansion_kind
  exp_text :: string

record expansion_sink =
  sink_text :: string
  sink_expansions :: "expansion list"

text \<open>\<open>resolve\<close> is the optional \<open>VariableResolver\<close>.\<close>

type_synonym variable_resolver = "string \<Rightarrow> string option"

record variable_read =
  var_name :: string
  var_raw :: string

section \<open>Readers\<close>

text \<open>\<open>/^[A-Za-z_][A-Za-z0-9_]*/\<close>: the longest identifier at the start.\<close>

fun variableName :: "string \<Rightarrow> string option" where
  "variableName [] = None"
| "variableName (c # cs) = (if is_name_start c then Some (c # takeWhile is_name_char cs) else None)"

definition specialParameters :: "char list" where
  "specialParameters = ''@*#?$!-0''"

definition readVariable :: "string \<Rightarrow> (variable_read \<times> string) option" where
  "readVariable s =
     (let rest = drop 1 s in
      if startsWith rest ''{'' then
        (case indexOf CHR ''}'' rest of
           None \<Rightarrow> None
         | Some close \<Rightarrow>
             let inner = drop 1 (take close rest) in
             (case variableName inner of
                None \<Rightarrow> None
              | Some named \<Rightarrow>
                  Some (\<lparr>var_name = named, var_raw = ''${'' @ inner @ ''}''\<rparr>,
                        drop (close + 1) rest)))
      else
        (case variableName rest of
           Some named \<Rightarrow>
             Some (\<lparr>var_name = named, var_raw = CHR ''$'' # named\<rparr>, drop (length named) rest)
         | None \<Rightarrow>
             (case rest of
                [] \<Rightarrow> None
              | first # after \<Rightarrow>
                  if first \<notin> set specialParameters \<and> \<not> is_digit first then None
                  else Some (\<lparr>var_name = [first], var_raw = [CHR ''$'', first]\<rparr>, after))))"

text \<open>The scan for the closing parenthesis: its position, counted from \<open>index\<close>.\<close>

fun closingParen :: "int \<Rightarrow> nat \<Rightarrow> string \<Rightarrow> nat option" where
  "closingParen depth index [] = None"
| "closingParen depth index (char # cs) =
     (let opened = (if char = CHR ''('' then depth + 1 else depth) in
      if char = CHR '')'' then
        (if opened - 1 = 0 then Some index else closingParen (opened - 1) (index + 1) cs)
      else closingParen opened (index + 1) cs)"

definition readSubstitution :: "string \<Rightarrow> (string \<times> string) option" where
  "readSubstitution s =
     (if at s 0 = Some backtick then
        (case indexOf backtick (drop 1 s) of
           None \<Rightarrow> None
         | Some close \<Rightarrow> Some (take (close + 2) s, drop (close + 2) s))
      else
        (case closingParen 0 1 (drop 1 s) of
           None \<Rightarrow> None
         | Some index \<Rightarrow> Some (take (index + 1) s, drop (index + 1) s)))"

definition addText :: "string \<Rightarrow> 'a expansion_sink_scheme \<Rightarrow> 'a expansion_sink_scheme" where
  "addText t sink = sink\<lparr>sink_text := sink_text sink @ t\<rparr>"

definition addExpansion :: "expansion \<Rightarrow> 'a expansion_sink_scheme \<Rightarrow> 'a expansion_sink_scheme" where
  "addExpansion e sink = sink\<lparr>sink_expansions := sink_expansions sink @ [e]\<rparr>"

definition takeExpansion ::
  "variable_resolver option \<Rightarrow> 'a expansion_sink_scheme \<Rightarrow> string \<Rightarrow>
     ('a expansion_sink_scheme \<times> string) option" where
  "takeExpansion resolve sink s =
     (if at s 0 = Some backtick \<or> at s 1 = Some CHR ''('' then
        (case readSubstitution s of
           None \<Rightarrow> None
         | Some (raw, next) \<Rightarrow>
             Some (addExpansion \<lparr>exp_kind = Substitution, exp_text = raw\<rparr> (addText raw sink), next))
      else
        (case readVariable s of
           None \<Rightarrow> None
         | Some (variable, next) \<Rightarrow>
             (case Option.bind resolve (\<lambda>r. r (var_name variable)) of
                Some value \<Rightarrow> Some (addText value sink, next)
              | None \<Rightarrow>
                  Some (addExpansion \<lparr>exp_kind = Variable, exp_text = var_name variable\<rparr>
                          (addText (var_raw variable) sink), next))))"

section \<open>Every reader makes progress\<close>

lemma closingParen_bounds:
  "closingParen depth index s = Some n \<Longrightarrow> index \<le> n \<and> n < index + length s"
  by (induction depth index s rule: closingParen.induct) (fastforce simp: Let_def split: if_splits)+

lemma variableName_split:
  "variableName s = Some n \<Longrightarrow> n \<noteq> [] \<and> s = n @ drop (length n) s"
proof (cases s)
  case (Cons c cs)
  assume "variableName s = Some n"
  with Cons have "n = c # takeWhile is_name_char cs" by (auto split: if_splits)
  with Cons show ?thesis
    by (metis append_Cons append_eq_conv_conj list.discI takeWhile_dropWhile_id)
qed simp

lemma consumed_drop: "0 < k \<Longrightarrow> s \<noteq> [] \<Longrightarrow> \<exists>u. u \<noteq> [] \<and> s = u @ drop k s"
  by (rule exI [of _ "take k s"]) simp

interpretation var: reader readVariable
proof
  fix s x r
  assume read: "readVariable s = Some (x, r)"
  then have s: "s \<noteq> []" by (auto simp: readVariable_def)
  have "\<exists>k. 0 < k \<and> r = drop k s"
  proof -
    have "(\<exists>n. r = drop n (drop 1 s)) \<or> (\<exists>c. drop 1 s = c # r)"
      using read
      by (auto simp: readVariable_def Let_def simp del: drop_drop
          split: if_splits option.splits list.splits)
    then have "\<exists>n. r = drop n (drop 1 s)" by (metis drop0 drop_Suc_Cons)
    then show ?thesis by (metis drop_drop add_gr_0 zero_less_one)
  qed
  with s show "\<exists>u. u \<noteq> [] \<and> s = u @ r" using consumed_drop by blast
qed

interpretation subst: reader readSubstitution
proof
  fix s x r
  assume read: "readSubstitution s = Some (x, r)"
  then have "s \<noteq> []" by (auto simp: readSubstitution_def split: if_splits option.splits)
  moreover have "\<exists>k. 0 < k \<and> r = drop k s"
    using read by (auto simp: readSubstitution_def split: if_splits option.splits)
  ultimately show "\<exists>u. u \<noteq> [] \<and> s = u @ r" using consumed_drop by blast
qed

interpretation expand: reader "takeExpansion resolve sink"
proof
  fix s x r
  assume "takeExpansion resolve sink s = Some (x, r)"
  then have "(\<exists>y. readSubstitution s = Some (y, r)) \<or> (\<exists>y. readVariable s = Some (y, r))"
    by (auto simp: takeExpansion_def split: if_splits option.splits prod.splits)
  then show "\<exists>u. u \<noteq> [] \<and> s = u @ r" using subst.consumes var.consumes by blast
qed

section \<open>Plain text with expansions\<close>

function expandPlainText ::
  "variable_resolver option \<Rightarrow> string \<Rightarrow> 'a expansion_sink_scheme \<Rightarrow> 'a expansion_sink_scheme" where
  "expandPlainText resolve [] sink = sink"
| "expandPlainText resolve (char # cs) sink =
     (if char = CHR ''$'' \<or> char = backtick then
        (case takeExpansion resolve sink (char # cs) of
           Some (sink', next) \<Rightarrow> expandPlainText resolve next sink'
         | None \<Rightarrow> expandPlainText resolve cs (addText [char] sink))
      else expandPlainText resolve cs (addText [char] sink))"
  by pat_completeness auto
termination
  by (relation "measure (\<lambda>(_, s, _). length s)") (auto dest: expand.progress)

end
