(* ===== verification/Operators.thy ===== *)
theory Operators
  imports Expansion
begin

text \<open>
  \<open>policy/classifier/command/operators.ts\<close>: the shell operator at the cursor, longest listed first,
  and the delimiter word of a here-document.
\<close>

definition descriptorRedirects :: "string list" where
  "descriptorRedirects = [''2>>'', ''1>>'', ''2>'', ''1>'']"

definition operators :: "string list" where
  "operators = [''&>>'', ''<<-'', ''&&'', ''||'', '';;'', ''<<'', ''>>'', ''&>'', ''>|'', ''|&'',
     ''>&'', '';'', ''|'', ''&'', ''('', '')'', ''<'', ''>'', [newline]]"

definition delimiterStops :: "char list" where
  "delimiterStops = [CHR '' '', tab, newline] @ '';&|<>()''"

definition isDigitAt :: "char option \<Rightarrow> bool" where
  "isDigitAt c \<longleftrightarrow> (case c of None \<Rightarrow> False | Some d \<Rightarrow> is_digit d)"

definition matchOperator :: "bool \<Rightarrow> string \<Rightarrow> (string \<times> string) option" where
  "matchOperator midWord s =
     (let candidates = (if midWord then operators else descriptorRedirects @ operators) in
      case List.find (\<lambda>candidate. startsWith s candidate) candidates of
        None \<Rightarrow> None
      | Some candidate \<Rightarrow>
          let after = drop (length candidate) s;
              following = at after 0;
              afterFollowing = at after 1
          in
          if endsWith candidate ''>'' \<and> following = Some CHR ''&'' \<and> isDigitAt afterFollowing then
            Some (candidate @ take 2 after, drop 2 after)
          else if endsWith candidate ''&'' \<and> isDigitAt following then
            Some (candidate @ take 1 after, drop 1 after)
          else Some (candidate, after))"

record heredoc_delimiter =
  hd_delimiter :: string
  hd_expands :: bool

text \<open>The loop over an unquoted delimiter: the text read, whether a backslash was seen, the rest.\<close>

fun delimiterWord :: "string \<Rightarrow> bool \<Rightarrow> string \<Rightarrow> string \<times> bool \<times> string" where
  "delimiterWord text escaped [] = (text, escaped, [])"
| "delimiterWord text escaped (char # cs) =
     (if char = backslash then delimiterWord text True cs
      else if char \<in> set delimiterStops then (text, escaped, char # cs)
      else delimiterWord (text @ [char]) escaped cs)"

definition readHeredocDelimiter :: "string \<Rightarrow> (heredoc_delimiter \<times> string) option" where
  "readHeredocDelimiter s =
     (let rest = dropWhile (\<lambda>c. c = CHR '' '' \<or> c = tab) s in
      if at rest 0 = Some squote \<or> at rest 0 = Some dquote then
        (case indexOf (hd rest) (drop 1 rest) of
           None \<Rightarrow> None
         | Some close \<Rightarrow>
             Some (\<lparr>hd_delimiter = take close (drop 1 rest), hd_expands = False\<rparr>,
                   drop (close + 1) (drop 1 rest)))
      else
        (case delimiterWord '''' False rest of
           (text, escaped, next) \<Rightarrow>
             if text = '''' then None
             else Some (\<lparr>hd_delimiter = text, hd_expands = \<not> escaped\<rparr>, next)))"

section \<open>Progress\<close>

lemma candidates_not_Nil: "c \<in> set (descriptorRedirects @ operators) \<Longrightarrow> c \<noteq> []"
  by (auto simp: descriptorRedirects_def operators_def)

interpretation oper: reader "matchOperator midWord"
proof
  fix s x r
  assume m: "matchOperator midWord s = Some (x, r)"
  then obtain c where c: "List.find (\<lambda>candidate. startsWith s candidate)
      (if midWord then operators else descriptorRedirects @ operators) = Some c"
    by (auto simp: matchOperator_def Let_def split: option.splits)
  then have "startsWith s c" "c \<noteq> []"
    using candidates_not_Nil find_Some_in [OF c] by (auto split: if_splits)
  then have "s \<noteq> []" by auto
  moreover have "\<exists>k. 0 < k \<and> r = drop k s"
    using m c \<open>c \<noteq> []\<close> by (auto simp: matchOperator_def Let_def split: if_splits)
  ultimately show "\<exists>u. u \<noteq> [] \<and> s = u @ r" using consumed_drop by blast
qed

lemma delimiterWord_suffix:
  "delimiterWord w escaped s = (w', escaped', r) \<Longrightarrow>
     \<exists>u. s = u @ r \<and> (u = [] \<longrightarrow> w' = w)"
proof (induction w escaped s rule: delimiterWord.induct)
  case (2 w escaped char cs)
  then show ?case by (cases "char = backslash"; cases "char \<in> set delimiterStops") (force simp: Cons_eq_append_conv)+
qed auto

interpretation heredocDelim: reader readHeredocDelimiter
proof
  fix s x r
  assume read: "readHeredocDelimiter s = Some (x, r)"
  let ?b = "\<lambda>c. c = CHR '' '' \<or> c = tab"
  let ?rest = "dropWhile ?b s"
  have "\<exists>u. u \<noteq> [] \<and> ?rest = u @ r"
  proof (cases "at ?rest 0 = Some squote \<or> at ?rest 0 = Some dquote")
    case True
    then obtain c cs where "?rest = c # cs" by (cases ?rest) auto
    moreover obtain close where "r = drop (close + 1) (drop 1 ?rest)"
      using read True by (auto simp: readHeredocDelimiter_def Let_def split: option.splits)
    ultimately show ?thesis by (intro exI [of _ "c # take (close + 1) cs"]) simp
  next
    case False
    with read obtain w escaped where
      "delimiterWord '''' False ?rest = (w, escaped, r)" "w \<noteq> ''''"
      by (auto simp: readHeredocDelimiter_def Let_def split: prod.splits if_splits)
    then show ?thesis using delimiterWord_suffix by blast
  qed
  then obtain u where "u \<noteq> []" "?rest = u @ r" by blast
  then show "\<exists>u. u \<noteq> [] \<and> s = u @ r"
    using takeWhile_dropWhile_id [of ?b s] by (intro exI [of _ "takeWhile ?b s @ u"]) simp
qed

end
