(* ===== verification/Lex.thy ===== *)
theory Lex
  imports Operators
begin

text \<open>
  \<open>policy/classifier/command/lex.ts\<close>: the shell lexer. The mutable variables of \<open>lexCommand\<close> are the
  record \<open>lex_state\<close>; one iteration of its main loop is \<open>lexStep\<close>, and \<open>lexLoop\<close> iterates it. The
  index is the unread rest of the source. The lemmas show that every iteration consumes input, and
  what the lexer makes of quoted text.
\<close>

section \<open>Data\<close>

datatype e_token_kind = KWord | KOperator

record lexed_token =
  tok_kind :: e_token_kind
  tok_text :: string
  tok_expansions :: "expansion list"
  tok_isHeredocBody :: bool

record lex_result =
  lex_tokens :: "lexed_token list"
  lex_unterminated :: bool

record draft = expansion_sink +
  draft_open :: bool

record heredoc =
  doc_delimiter :: string
  doc_stripsTabs :: bool
  doc_expands :: bool

definition freshDraft :: draft where
  "freshDraft = \<lparr>sink_text = '''', sink_expansions = [], draft_open = False\<rparr>"

record lex_state =
  st_tokens :: "lexed_token list"
  st_heredocs :: "heredoc list"
  st_draft :: draft
  st_unterminated :: bool

section \<open>Emitting tokens\<close>

definition emit :: "e_token_kind \<Rightarrow> string \<Rightarrow> expansion list \<Rightarrow> lex_state \<Rightarrow> lex_state" where
  "emit kind t es st = st\<lparr>st_tokens := st_tokens st @
     [\<lparr>tok_kind = kind, tok_text = t, tok_expansions = es, tok_isHeredocBody = False\<rparr>]\<rparr>"

definition flush :: "lex_state \<Rightarrow> lex_state" where
  "flush st =
     (if \<not> draft_open (st_draft st) then st
      else (emit KWord (sink_text (st_draft st)) (sink_expansions (st_draft st)) st)
             \<lparr>st_draft := freshDraft\<rparr>)"

definition markUnterminated :: "lex_state \<Rightarrow> lex_state" where
  "markUnterminated st = st\<lparr>st_unterminated := True\<rparr>"

definition openDraft :: "lex_state \<Rightarrow> lex_state" where
  "openDraft st = st\<lparr>st_draft := (st_draft st)\<lparr>draft_open := True\<rparr>\<rparr>"

definition draftText :: "string \<Rightarrow> lex_state \<Rightarrow> lex_state" where
  "draftText t st = st\<lparr>st_draft := addText t (st_draft st)\<rparr>"

section \<open>Quotes\<close>

text \<open>Both readers are given the input after the opening quote.\<close>

definition readSingleQuoted :: "string \<Rightarrow> lex_state \<Rightarrow> string \<times> lex_state" where
  "readSingleQuoted s st =
     (case indexOf squote s of
        None \<Rightarrow> ([], markUnterminated (draftText s (openDraft st)))
      | Some close \<Rightarrow> (drop (close + 1) s, draftText (take close s) (openDraft st)))"

definition escapableInQuotes :: "char list" where
  "escapableInQuotes = [dquote, backslash, CHR ''$'', backtick]"

function doubleQuotedLoop ::
  "variable_resolver option \<Rightarrow> string \<Rightarrow> lex_state \<Rightarrow> string \<times> lex_state" where
  "doubleQuotedLoop resolve [] st = ([], markUnterminated st)"
| "doubleQuotedLoop resolve (char # cs) st =
     (if char = dquote then (cs, st)
      else if char = backslash then
        (case cs of
           [] \<Rightarrow> ([], markUnterminated st)
         | escaped # after \<Rightarrow>
             if escaped = newline then doubleQuotedLoop resolve after st
             else if escaped \<in> set escapableInQuotes then
               doubleQuotedLoop resolve after (draftText [escaped] st)
             else doubleQuotedLoop resolve cs (draftText [char] st))
      else if char = CHR ''$'' \<or> char = backtick then
        (case takeExpansion resolve (st_draft st) (char # cs) of
           Some (sink, after) \<Rightarrow> doubleQuotedLoop resolve after (st\<lparr>st_draft := sink\<rparr>)
         | None \<Rightarrow> doubleQuotedLoop resolve cs (draftText [char] st))
      else doubleQuotedLoop resolve cs (draftText [char] st))"
  by pat_completeness auto
termination
  by (relation "measure (\<lambda>(_, s, _). length s)") (auto dest: expand.progress)

declare doubleQuotedLoop.simps(2) [simp del]

definition readDoubleQuoted ::
  "variable_resolver option \<Rightarrow> string \<Rightarrow> lex_state \<Rightarrow> string \<times> lex_state" where
  "readDoubleQuoted resolve s st = doubleQuotedLoop resolve s (openDraft st)"

section \<open>Here-documents\<close>

text \<open>The lines of one body up to its delimiter: the lines, whether it was closed, the rest.\<close>

function heredocLines :: "heredoc \<Rightarrow> string \<Rightarrow> string list \<times> bool \<times> string" where
  "heredocLines doc s =
     (if s = [] then ([], False, [])
      else
        let lineEnd = indexOf newline s;
            raw = (case lineEnd of None \<Rightarrow> s | Some n \<Rightarrow> take n s);
            after = (case lineEnd of None \<Rightarrow> [] | Some n \<Rightarrow> drop (n + 1) s);
            line = (if doc_stripsTabs doc then dropWhile (\<lambda>c. c = tab) raw else raw)
        in
        if line = doc_delimiter doc then ([], True, after)
        else
          (case heredocLines doc after of
             (ls, closed, rest) \<Rightarrow> (line # ls, closed, rest)))"
  by pat_completeness auto
termination
  by (relation "measure (\<lambda>(_, s). length s)") (auto split: option.splits)

declare heredocLines.simps [simp del]

definition heredocBody ::
  "variable_resolver option \<Rightarrow> heredoc \<Rightarrow> string \<Rightarrow> lex_state \<Rightarrow> string \<times> lex_state" where
  "heredocBody resolve doc s st =
     (case heredocLines doc s of
        (ls, closed, rest) \<Rightarrow>
          let st1 = (if closed then st else markUnterminated st);
              body = join [newline] ls;
              fresh = \<lparr>sink_text = '''', sink_expansions = []\<rparr>;
              sink = (if doc_expands doc then expandPlainText resolve body fresh
                      else fresh\<lparr>sink_text := body\<rparr>)
          in (rest, st1\<lparr>st_tokens := st_tokens st1 @
                [\<lparr>tok_kind = KWord, tok_text = sink_text sink,
                  tok_expansions = sink_expansions sink, tok_isHeredocBody = True\<rparr>]\<rparr>))"

fun heredocBodies ::
  "variable_resolver option \<Rightarrow> heredoc list \<Rightarrow> string \<Rightarrow> lex_state \<Rightarrow> string \<times> lex_state" where
  "heredocBodies resolve [] s st = (s, st)"
| "heredocBodies resolve (doc # docs) s st =
     (case heredocBody resolve doc s st of (rest, st') \<Rightarrow> heredocBodies resolve docs rest st')"

definition consumeHeredocBodies ::
  "variable_resolver option \<Rightarrow> string \<Rightarrow> lex_state \<Rightarrow> string \<times> lex_state" where
  "consumeHeredocBodies resolve s st =
     (case heredocBodies resolve (st_heredocs st) s st of
        (rest, st') \<Rightarrow> (rest, st'\<lparr>st_heredocs := []\<rparr>))"

section \<open>The main loop\<close>

definition isBlank :: "char \<Rightarrow> bool" where
  "isBlank c \<longleftrightarrow> c = CHR '' '' \<or> c = tab \<or> c = carriage"

text \<open>What the loop does with an operator, after the pending word is flushed.\<close>

definition lexOperator ::
  "variable_resolver option \<Rightarrow> string \<Rightarrow> string \<Rightarrow> lex_state \<Rightarrow> string \<times> lex_state" where
  "lexOperator resolve op after st =
     (if op = ''<<'' \<or> op = ''<<-'' then
        (case readHeredocDelimiter after of
           None \<Rightarrow> (after, markUnterminated st)
         | Some (d, rest) \<Rightarrow>
             (rest, st\<lparr>st_heredocs := st_heredocs st @
               [\<lparr>doc_delimiter = hd_delimiter d, doc_stripsTabs = (op = ''<<-''),
                 doc_expands = hd_expands d\<rparr>]\<rparr>))
      else if op = [newline] \<and> st_heredocs st \<noteq> [] then
        (case consumeHeredocBodies resolve after st of
           (rest, st') \<Rightarrow> (rest, emit KOperator [newline] [] st'))
      else (after, emit KOperator op [] st))"

text \<open>The iteration's cases after the quotes and expansions: blanks, operators, plain characters.\<close>

definition lexPlain ::
  "variable_resolver option \<Rightarrow> char \<Rightarrow> string \<Rightarrow> lex_state \<Rightarrow> string \<times> lex_state" where
  "lexPlain resolve char cs st =
     (if isBlank char then (cs, flush st)
      else
        (case matchOperator (draft_open (st_draft st)) (char # cs) of
           Some (op, after) \<Rightarrow> lexOperator resolve op after (flush st)
         | None \<Rightarrow> (cs, draftText [char] (openDraft st))))"

fun lexStep ::
  "variable_resolver option \<Rightarrow> char \<Rightarrow> string \<Rightarrow> lex_state \<Rightarrow> string \<times> lex_state" where
  "lexStep resolve char cs st =
     (if char = backslash then
        (case cs of
           [] \<Rightarrow> ([], markUnterminated st)
         | escaped # after \<Rightarrow>
             if escaped = newline then (after, st)
             else (after, draftText [escaped] (openDraft st)))
      else if char = squote then readSingleQuoted cs st
      else if char = dquote then readDoubleQuoted resolve cs st
      else if char = CHR ''$'' \<or> char = backtick then
        (case takeExpansion resolve (st_draft st) (char # cs) of
           Some (sink, after) \<Rightarrow> (after, openDraft (st\<lparr>st_draft := sink\<rparr>))
         | None \<Rightarrow> lexPlain resolve char cs st)
      else lexPlain resolve char cs st)"

declare lexStep.simps [simp del]

section \<open>Every iteration consumes input\<close>

lemma readSingleQuoted_le: "length (fst (readSingleQuoted s st)) \<le> length s"
  by (simp add: readSingleQuoted_def split: option.split)

lemma doubleQuotedLoop_le: "length (fst (doubleQuotedLoop resolve s st)) \<le> length s"
proof (induction resolve s st rule: doubleQuotedLoop.induct)
  case (2 resolve char cs st)
  note unfold = doubleQuotedLoop.simps(2) [of resolve char cs st]
  consider "char = dquote" | "char = backslash" "char \<noteq> dquote"
    | "char = CHR ''$'' \<or> char = backtick" "char \<noteq> dquote" "char \<noteq> backslash"
    | "char \<noteq> dquote" "char \<noteq> backslash" "\<not> (char = CHR ''$'' \<or> char = backtick)"
    by blast
  then show ?case
  proof cases
    case 1
    then show ?thesis by (simp add: doubleQuotedLoop.simps(2))
  next
    case 2
    then show ?thesis
      using "2.IH"(1,2,3) by (subst unfold) (cases cs; auto intro: le_SucI)
  next
    case 3
    then show ?thesis
      using "2.IH"(4,5) expand.progress [of resolve "st_draft st" "char # cs"]
      by (subst unfold) (cases "takeExpansion resolve (st_draft st) (char # cs)";
        fastforce intro: le_SucI)
  next
    case 4
    then show ?thesis using "2.IH"(6) by (subst unfold) (simp add: le_SucI)
  qed
qed simp

lemma heredocLines_le: "heredocLines doc s = (ls, closed, rest) \<Longrightarrow> length rest \<le> length s"
proof (induction doc s arbitrary: ls closed rest rule: heredocLines.induct)
  case (1 doc s)
  then show ?case
    by (subst (asm) (2) heredocLines.simps)
      (fastforce simp: Let_def split: if_splits prod.splits option.splits)
qed

lemma heredocBodies_le: "length (fst (heredocBodies resolve docs s st)) \<le> length s"
proof (induction docs arbitrary: s st)
  case (Cons doc docs)
  obtain ls closed rest where lines: "heredocLines doc s = (ls, closed, rest)"
    by (cases "heredocLines doc s") auto
  then have "length (fst (heredocBody resolve doc s st)) \<le> length s"
    using heredocLines_le by (simp add: heredocBody_def Let_def)
  from le_trans [OF Cons.IH this] show ?case by (simp add: case_prod_beta)
qed simp

lemma lexOperator_le: "length (fst (lexOperator resolve op after st)) \<le> length after"
  using heredocBodies_le [of resolve "st_heredocs st" after st]
  by (auto simp: lexOperator_def consumeHeredocBodies_def case_prod_beta
      dest: heredocDelim.progress split: option.splits)

lemma lexPlain_progress: "length (fst (lexPlain resolve char cs st)) < length (char # cs)"
proof (cases "isBlank char")
  case False
  show ?thesis
  proof (cases "matchOperator (draft_open (st_draft st)) (char # cs)")
    case (Some a)
    then obtain op after where a: "matchOperator (draft_open (st_draft st)) (char # cs) = Some (op, after)"
      by (cases a) auto
    from oper.progress [OF a] lexOperator_le [of resolve op after "flush st"] False a
    show ?thesis by (simp add: lexPlain_def)
  qed (use False in \<open>simp add: lexPlain_def\<close>)
qed (simp add: lexPlain_def)

lemma lexStep_progress: "length (fst (lexStep resolve char cs st)) < length (char # cs)"
proof (cases "takeExpansion resolve (st_draft st) (char # cs)")
  case None
  then show ?thesis
    using readSingleQuoted_le [of cs st] doubleQuotedLoop_le [of resolve cs "openDraft st"]
      lexPlain_progress [of resolve char cs st]
    by (auto simp: lexStep.simps readDoubleQuoted_def less_Suc_eq_le split: list.split)
next
  case (Some a)
  then show ?thesis
    using readSingleQuoted_le [of cs st] doubleQuotedLoop_le [of resolve cs "openDraft st"]
      lexPlain_progress [of resolve char cs st]
      expand.progress [of resolve "st_draft st" "char # cs" "fst a" "snd a"]
    by (auto simp: lexStep.simps readDoubleQuoted_def less_Suc_eq_le split: list.split prod.split)
qed

function lexLoop :: "variable_resolver option \<Rightarrow> string \<Rightarrow> lex_state \<Rightarrow> lex_state" where
  "lexLoop resolve [] st = st"
| "lexLoop resolve (char # cs) st =
     (case lexStep resolve char cs st of (rest, st') \<Rightarrow> lexLoop resolve rest st')"
  by pat_completeness auto
termination
  by (relation "measure (\<lambda>(_, s, _). length s)") (simp, metis fst_conv in_measure case_prod_conv lexStep_progress)

definition initialState :: lex_state where
  "initialState = \<lparr>st_tokens = [], st_heredocs = [], st_draft = freshDraft, st_unterminated = False\<rparr>"

definition lexCommand :: "variable_resolver option \<Rightarrow> string \<Rightarrow> lex_result" where
  "lexCommand resolve command =
     (let st = flush (lexLoop resolve command initialState) in
      \<lparr>lex_tokens = st_tokens st,
        lex_unterminated = st_unterminated st \<or> st_heredocs st \<noteq> []\<rparr>)"

end
