(* ===== verification/Flags.thy ===== *)
theory Flags
  imports Lex
begin

text \<open>
  \<open>policy/classifier/command/flags.ts\<close>: the words after the program split into verb, flags, flag
  values and operands. The mutable variables of \<open>splitArguments\<close> are the record \<open>arguments\<close>.
\<close>

section \<open>Data and operations\<close>

record argument_split =
  arg_verb :: "string option"
  arg_flags :: "string list"
  arg_flagValues :: "string \<Rightarrow> string option"
  arg_operands :: "lexed_token list"

definition programsWithVerbs :: "string list" where
  "programsWithVerbs = [''apt'', ''apt-get'', ''aws'', ''brew'', ''bun'', ''bunx'', ''cargo'',
     ''deno'', ''docker'', ''gcloud'', ''gh'', ''git'', ''go'', ''helm'', ''kubectl'', ''nix'',
     ''npm'', ''npx'', ''pip'', ''pnpm'', ''sudo'', ''systemctl'', ''terraform'', ''uv'', ''yarn'']"

definition valueTakingFlags :: "string \<Rightarrow> string list option" where
  "valueTakingFlags = map_of
     [(''git'', [''-C'', ''-c'', ''--git-dir'', ''--work-tree'', ''--exec-path'', ''--namespace'']),
      (''docker'', [''-H'', ''--context'', ''--config'']),
      (''kubectl'', [''-n'', ''--namespace'', ''--context'', ''--kubeconfig'']),
      (''sudo'', [''-u'', ''-g'', ''-p''])]"

definition programsWhoseSingleDashFlagsAreWords :: "string list" where
  "programsWhoseSingleDashFlagsAreWords = [''find'', ''java'', ''ffmpeg'', ''openssl'']"

definition isFlagToken :: "string \<Rightarrow> bool" where
  "isFlagToken token \<longleftrightarrow> \<not> length token < 2 \<and> startsWith token ''-''"

definition decomposeFlag :: "string \<Rightarrow> string option \<Rightarrow> string list" where
  "decomposeFlag token program =
     (if token = ''--'' then [token]
      else if startsWith token ''--'' then
        (case indexOf CHR ''='' token of
           None \<Rightarrow> [token]
         | Some equals \<Rightarrow> [token, take equals token])
      else if (case program of None \<Rightarrow> False
                 | Some p \<Rightarrow> p \<in> set programsWhoseSingleDashFlagsAreWords) then [token]
      else
        (let letters = drop 1 token in
         if CHR ''='' \<in> set letters then [token]
         else map (\<lambda>letter. [CHR ''-'', letter]) letters))"

definition takesValue :: "string \<Rightarrow> string \<Rightarrow> bool" where
  "takesValue program flag \<longleftrightarrow>
     (case valueTakingFlags program of None \<Rightarrow> False | Some flags \<Rightarrow> flag \<in> set flags)"

definition hasVerbs :: "string \<Rightarrow> bool" where
  "hasVerbs program \<longleftrightarrow> program \<in> set programsWithVerbs"

record arguments = argument_split +
  arg_endOfFlags :: bool

text \<open>A word that is no flag: the verb if one is still due, an operand otherwise.\<close>

definition takeOperand :: "string \<Rightarrow> lexed_token \<Rightarrow> arguments \<Rightarrow> arguments" where
  "takeOperand program word st =
     (if arg_verb st = None \<and> hasVerbs program \<and> \<not> arg_endOfFlags st then
        st\<lparr>arg_verb := Some (tok_text word)\<rparr>
      else st\<lparr>arg_operands := arg_operands st @ [word]\<rparr>)"

text \<open>The position of \<open>=\<close> in a long flag; \<open>None\<close> is the code's -1.\<close>

definition equalsOf :: "string \<Rightarrow> nat option" where
  "equalsOf token = (if startsWith token ''--'' then indexOf CHR ''='' token else None)"

definition takeFlag :: "string \<Rightarrow> string \<Rightarrow> arguments \<Rightarrow> arguments" where
  "takeFlag program token st =
     (let valued = (case equalsOf token of None \<Rightarrow> st
                    | Some equals \<Rightarrow> st\<lparr>arg_flagValues :=
                        (arg_flagValues st)(take equals token \<mapsto> drop (equals + 1) token)\<rparr>)
      in valued\<lparr>arg_flags := arg_flags valued @ decomposeFlag token (Some program)\<rparr>)"

definition storeValue :: "string \<Rightarrow> string \<Rightarrow> arguments \<Rightarrow> arguments" where
  "storeValue flag value st = st\<lparr>arg_flagValues := (arg_flagValues st)(flag \<mapsto> value)\<rparr>"

text \<open>Whether a flag's value is the next word: the flag that takes it.\<close>

definition awaitsValue :: "string \<Rightarrow> string \<Rightarrow> string option" where
  "awaitsValue program token =
     (let decomposed = decomposeFlag token (Some program) in
      if equalsOf token \<noteq> None \<or> decomposed = [] then None
      else if takesValue program (last decomposed) then Some (last decomposed) else None)"

fun argumentLoop :: "string \<Rightarrow> lexed_token list \<Rightarrow> arguments \<Rightarrow> arguments" where
  "argumentLoop program [] st = st"
| "argumentLoop program (word # words) st =
     (if arg_endOfFlags st \<or> \<not> isFlagToken (tok_text word) then
        argumentLoop program words (takeOperand program word st)
      else if tok_text word = ''--'' then
        argumentLoop program words
          (st\<lparr>arg_endOfFlags := True, arg_flags := arg_flags st @ [''--'']\<rparr>)
      else
        (let st' = takeFlag program (tok_text word) st in
         case awaitsValue program (tok_text word) of
           None \<Rightarrow> argumentLoop program words st'
         | Some flag \<Rightarrow>
             (case words of
                [] \<Rightarrow> st'
              | value # rest \<Rightarrow>
                  argumentLoop program rest (storeValue flag (tok_text value) st'))))"

definition noArguments :: arguments where
  "noArguments = \<lparr>arg_verb = None, arg_flags = [], arg_flagValues = Map.empty, arg_operands = [],
     arg_endOfFlags = False\<rparr>"

definition splitArguments :: "string \<Rightarrow> lexed_token list \<Rightarrow> argument_split" where
  "splitArguments program words = argument_split.truncate (argumentLoop program words noArguments)"

section \<open>What ends up where\<close>

declare argumentLoop.simps(2) [simp del]

lemma takeFlag_simps [simp]:
  "arg_operands (takeFlag program token st) = arg_operands st"
  "arg_verb (takeFlag program token st) = arg_verb st"
  "arg_endOfFlags (takeFlag program token st) = arg_endOfFlags st"
  "arg_flags (takeFlag program token st) = arg_flags st @ decomposeFlag token (Some program)"
  by (simp_all add: takeFlag_def Let_def split: option.split)

lemma storeValue_simps [simp]:
  "arg_operands (storeValue flag value st) = arg_operands st"
  "arg_verb (storeValue flag value st) = arg_verb st"
  "arg_flags (storeValue flag value st) = arg_flags st"
  "arg_endOfFlags (storeValue flag value st) = arg_endOfFlags st"
  by (simp_all add: storeValue_def)

text \<open>A general rule for invariants of the loop.\<close>

lemma argumentLoop_invariant:
  assumes "P st"
    and operand: "\<And>st word. P st \<Longrightarrow> word \<in> set words \<Longrightarrow> P (takeOperand program word st)"
    and dashes: "\<And>st. P st \<Longrightarrow> P (st\<lparr>arg_endOfFlags := True, arg_flags := arg_flags st @ [''--'']\<rparr>)"
    and flag: "\<And>st token. P st \<Longrightarrow> isFlagToken token \<Longrightarrow> P (takeFlag program token st)"
    and store: "\<And>st flag value. P st \<Longrightarrow> P (storeValue flag value st)"
  shows "P (argumentLoop program words st)"
  using assms
proof (induction program words st rule: argumentLoop.induct)
  case (2 program word words st)
  show ?case
    using "2.IH" "2.prems"
    by (subst argumentLoop.simps(2)) (auto simp: Let_def split: option.split list.split)
qed simp

lemma argumentLoop_after_end:
  "arg_endOfFlags st \<Longrightarrow>
     argumentLoop program words st = st\<lparr>arg_operands := arg_operands st @ words\<rparr>"
  by (induction words arbitrary: st) (simp_all add: argumentLoop.simps takeOperand_def)

lemma argumentLoop_dashes:
  assumes "tok_text dash = ''--''" and "\<not> arg_endOfFlags st"
  shows "argumentLoop program (dash # words) st =
    st\<lparr>arg_endOfFlags := True, arg_flags := arg_flags st @ [''--''],
       arg_operands := arg_operands st @ words\<rparr>"
  using assms by (simp add: argumentLoop.simps(2) isFlagToken_def argumentLoop_after_end)

lemma decomposeFlag_dash:
  "isFlagToken token \<Longrightarrow> f \<in> set (decomposeFlag token program) \<Longrightarrow> startsWith f ''-''"
proof -
  assume flag: "isFlagToken token" and f: "f \<in> set (decomposeFlag token program)"
  then have dash: "startsWith token ''-''" by (simp add: isFlagToken_def)
  have "startsWith (take n token) ''-''" if "startsWith token ''--''" "indexOf CHR ''='' token = Some n" for n
  proof -
    from that obtain u where "token = ''--'' @ u" by (auto simp: prefix_def)
    with that show ?thesis by (cases n) auto
  qed
  with f dash show ?thesis
    by (auto simp: decomposeFlag_def Let_def split: if_splits option.splits)
qed

lemma splitArguments_flags_dash:
  "f \<in> set (arg_flags (splitArguments program words)) \<Longrightarrow> startsWith f ''-''"
proof -
  have "\<forall>f \<in> set (arg_flags (argumentLoop program words noArguments)). startsWith f ''-''"
    by (rule argumentLoop_invariant [where P = "\<lambda>st. \<forall>f \<in> set (arg_flags st). startsWith f ''-''"])
      (auto simp: noArguments_def takeOperand_def decomposeFlag_dash)
  then show "f \<in> set (arg_flags (splitArguments program words)) \<Longrightarrow> ?thesis"
    by (simp add: splitArguments_def argument_split.truncate_def)
qed

lemma splitArguments_operands:
  "set (arg_operands (splitArguments program words)) \<subseteq> set words"
proof -
  have "set (arg_operands (argumentLoop program words noArguments)) \<subseteq> set words"
    by (rule argumentLoop_invariant [where P = "\<lambda>st. set (arg_operands st) \<subseteq> set words"])
      (auto simp: noArguments_def takeOperand_def)
  then show ?thesis by (simp add: splitArguments_def argument_split.truncate_def)
qed

lemma splitArguments_no_verb:
  "\<not> hasVerbs program \<Longrightarrow> arg_verb (splitArguments program words) = None"
proof -
  assume "\<not> hasVerbs program"
  then have "arg_verb (argumentLoop program words noArguments) = None"
    by (intro argumentLoop_invariant [where P = "\<lambda>st. arg_verb st = None"])
      (auto simp: noArguments_def takeOperand_def)
  then show ?thesis by (simp add: splitArguments_def argument_split.truncate_def)
qed

lemma splitArguments_verb: "arg_verb (splitArguments program words) = Some v \<Longrightarrow> hasVerbs program"
  using splitArguments_no_verb [of program words] by auto

text \<open>Words that precede the end-of-flags marker without being flags: the verb, then operands.\<close>

definition plainWord :: "lexed_token \<Rightarrow> bool" where
  "plainWord t \<longleftrightarrow> \<not> isFlagToken (tok_text t)"

lemma argumentLoop_plain:
  assumes "\<forall>t \<in> set plain. plainWord t" and "\<not> arg_endOfFlags st" and "arg_verb st = None \<longrightarrow> \<not> hasVerbs program"
  shows "argumentLoop program (plain @ rest) st =
    argumentLoop program rest (st\<lparr>arg_operands := arg_operands st @ plain\<rparr>)"
  using assms
  by (induction plain arbitrary: st) (auto simp: argumentLoop.simps(2) plainWord_def takeOperand_def)

end
