(* ===== verification/Segments.thy ===== *)
theory Segments
  imports Lex
begin

text \<open>
  \<open>policy/classifier/command/segments.ts\<close>: the token list cut into simple commands. The mutable
  variables of \<open>splitSegments\<close> are the record \<open>split_state\<close>, one token is one \<open>splitStep\<close>. The lemmas
  say where every word of the command line ends up.
\<close>

section \<open>Data and operations\<close>

datatype e_segment_join = JSequence | JAnd | JOr | JPipe | JBackground

record token_segment =
  seg_words :: "lexed_token list"
  seg_redirectTargets :: "lexed_token list"
  seg_joinToNext :: "e_segment_join option"
  seg_depth :: nat

definition joins :: "string \<Rightarrow> e_segment_join option" where
  "joins = map_of [('';'', JSequence), ('';;'', JSequence), ([newline], JSequence), (''&&'', JAnd),
     (''||'', JOr), (''|'', JPipe), (''|&'', JPipe), (''&'', JBackground)]"

definition outputRedirects :: "string list" where
  "outputRedirects = [''>'', ''>>'', ''>|'', ''&>'', ''&>>'', ''1>'', ''1>>'', ''2>'', ''2>>'']"

definition isDescriptorDuplicate :: "string \<Rightarrow> bool" where
  "isDescriptorDuplicate operator \<longleftrightarrow> CHR ''&'' \<in> set operator"

record open_segment =
  open_words :: "lexed_token list"
  open_redirects :: "lexed_token list"
  open_depth :: nat

record split_state =
  sp_segments :: "token_segment list"
  sp_depth :: nat
  sp_open :: open_segment
  sp_pendingRedirect :: "string option"
  sp_pendingInput :: bool

definition freshOpen :: "nat \<Rightarrow> open_segment" where
  "freshOpen depth = \<lparr>open_words = [], open_redirects = [], open_depth = depth\<rparr>"

definition closeSegment :: "e_segment_join option \<Rightarrow> split_state \<Rightarrow> split_state" where
  "closeSegment joinToNext st =
     (if open_words (sp_open st) = [] \<and> open_redirects (sp_open st) = [] then
        st\<lparr>sp_open := freshOpen (sp_depth st)\<rparr>
      else st\<lparr>sp_segments := sp_segments st @
             [\<lparr>seg_words = open_words (sp_open st),
               seg_redirectTargets = open_redirects (sp_open st),
               seg_joinToNext = joinToNext,
               seg_depth = open_depth (sp_open st)\<rparr>],
           sp_open := freshOpen (sp_depth st)\<rparr>)"

definition pushWord :: "lexed_token \<Rightarrow> split_state \<Rightarrow> split_state" where
  "pushWord token st =
     st\<lparr>sp_open := (sp_open st)\<lparr>open_words := open_words (sp_open st) @ [token]\<rparr>\<rparr>"

definition pushRedirect :: "lexed_token \<Rightarrow> split_state \<Rightarrow> split_state" where
  "pushRedirect token st =
     st\<lparr>sp_open := (sp_open st)\<lparr>open_redirects := open_redirects (sp_open st) @ [token]\<rparr>\<rparr>"

definition splitWord :: "split_state \<Rightarrow> lexed_token \<Rightarrow> split_state" where
  "splitWord st token =
     (if sp_pendingRedirect st \<noteq> None then (pushRedirect token st)\<lparr>sp_pendingRedirect := None\<rparr>
      else if sp_pendingInput st then (pushWord token st)\<lparr>sp_pendingInput := False\<rparr>
      else pushWord token st)"

definition openGroup :: "nat \<Rightarrow> split_state \<Rightarrow> split_state" where
  "openGroup depth st = st\<lparr>sp_depth := depth, sp_open := freshOpen depth\<rparr>"

definition splitOperator :: "split_state \<Rightarrow> string \<Rightarrow> split_state" where
  "splitOperator st0 operator =
     (let st = st0\<lparr>sp_pendingRedirect := None, sp_pendingInput := False\<rparr> in
      if operator = ''('' then openGroup (sp_depth st + 1) (closeSegment None st)
      else if operator = '')'' then
        openGroup (if sp_depth st = 0 then 0 else sp_depth st - 1) (closeSegment None st)
      else if operator \<in> set outputRedirects then st\<lparr>sp_pendingRedirect := Some operator\<rparr>
      else if isDescriptorDuplicate operator \<and> CHR ''>'' \<in> set operator then st
      else if operator = ''<'' then st\<lparr>sp_pendingInput := True\<rparr>
      else (case joins operator of None \<Rightarrow> st | Some j \<Rightarrow> closeSegment (Some j) st))"

definition splitStep :: "split_state \<Rightarrow> lexed_token \<Rightarrow> split_state" where
  "splitStep st token =
     (case tok_kind token of
        KWord \<Rightarrow> splitWord st token
      | KOperator \<Rightarrow> splitOperator st (tok_text token))"

definition splitStart :: split_state where
  "splitStart = \<lparr>sp_segments = [], sp_depth = 0, sp_open = freshOpen 0,
     sp_pendingRedirect = None, sp_pendingInput = False\<rparr>"

definition splitSegments :: "lexed_token list \<Rightarrow> token_segment list" where
  "splitSegments tokens = sp_segments (closeSegment None (foldl splitStep splitStart tokens))"

section \<open>Where every word goes\<close>

text \<open>The tokens a list of segments holds, and the specification: a word right after an output
  redirect is a redirect target, every other word belongs to the command.\<close>

definition wordsOf :: "token_segment list \<Rightarrow> lexed_token list" where
  "wordsOf segments = concat (map seg_words segments)"

definition targetsOf :: "token_segment list \<Rightarrow> lexed_token list" where
  "targetsOf segments = concat (map seg_redirectTargets segments)"

definition redirects :: "lexed_token option \<Rightarrow> bool" where
  "redirects prev \<longleftrightarrow> (case prev of None \<Rightarrow> False
     | Some t \<Rightarrow> tok_kind t = KOperator \<and> tok_text t \<in> set outputRedirects)"

definition isWordToken :: "lexed_token \<Rightarrow> bool" where
  "isWordToken t \<longleftrightarrow> tok_kind t = KWord"

text \<open>Each token paired with the token right before it.\<close>

definition withPrevious :: "lexed_token option \<Rightarrow> lexed_token list \<Rightarrow> (lexed_token option \<times> lexed_token) list" where
  "withPrevious prev tokens = zip (prev # map Some tokens) tokens"

definition commandWords :: "lexed_token option \<Rightarrow> lexed_token list \<Rightarrow> lexed_token list" where
  "commandWords prev tokens =
     map snd (filter (\<lambda>(p, t). isWordToken t \<and> \<not> redirects p) (withPrevious prev tokens))"

definition redirectWords :: "lexed_token option \<Rightarrow> lexed_token list \<Rightarrow> lexed_token list" where
  "redirectWords prev tokens =
     map snd (filter (\<lambda>(p, t). isWordToken t \<and> redirects p) (withPrevious prev tokens))"

lemma withPrevious_simps [simp]:
  "withPrevious prev [] = []"
  "withPrevious prev (t # ts) = (prev, t) # withPrevious (Some t) ts"
  by (simp_all add: withPrevious_def)

definition heldWords :: "split_state \<Rightarrow> lexed_token list" where
  "heldWords st = wordsOf (sp_segments st) @ open_words (sp_open st)"

definition heldTargets :: "split_state \<Rightarrow> lexed_token list" where
  "heldTargets st = targetsOf (sp_segments st) @ open_redirects (sp_open st)"

lemmas held_defs = heldWords_def heldTargets_def wordsOf_def targetsOf_def

lemma closeSegment_held [simp]:
  "heldWords (closeSegment j st) = heldWords st"
  "heldTargets (closeSegment j st) = heldTargets st"
  by (simp_all add: closeSegment_def held_defs freshOpen_def)

lemma closeSegment_closed [simp]:
  "open_words (sp_open (closeSegment j st)) = []"
  "open_redirects (sp_open (closeSegment j st)) = []"
  "sp_pendingRedirect (closeSegment j st) = sp_pendingRedirect st"
  by (simp_all add: closeSegment_def freshOpen_def)

lemma openGroup_held:
  assumes "open_words (sp_open st) = []" and "open_redirects (sp_open st) = []"
  shows "heldWords (openGroup d st) = heldWords st" "heldTargets (openGroup d st) = heldTargets st"
  using assms by (simp_all add: openGroup_def held_defs freshOpen_def)

lemma splitOperator_held:
  "heldWords (splitOperator st op) = heldWords st"
  "heldTargets (splitOperator st op) = heldTargets st"
proof -
  let ?st = "st\<lparr>sp_pendingRedirect := None, sp_pendingInput := False\<rparr>"
  have cleared: "heldWords ?st = heldWords st" "heldTargets ?st = heldTargets st"
    "heldWords (?st\<lparr>sp_pendingRedirect := r\<rparr>) = heldWords st"
    "heldTargets (?st\<lparr>sp_pendingRedirect := r\<rparr>) = heldTargets st"
    "heldWords (?st\<lparr>sp_pendingInput := True\<rparr>) = heldWords st"
    "heldTargets (?st\<lparr>sp_pendingInput := True\<rparr>) = heldTargets st" for r
    by (simp_all add: held_defs)
  show "heldWords (splitOperator st op) = heldWords st"
    "heldTargets (splitOperator st op) = heldTargets st"
    unfolding splitOperator_def Let_def
    by (simp_all only: if_distrib [of heldWords] if_distrib [of heldTargets]
        option.case_distrib [of heldWords] option.case_distrib [of heldTargets]
        openGroup_held closeSegment_closed closeSegment_held cleared if_cancel case_option_same)
qed

lemma parens_not_redirects [simp]: "''('' \<notin> set outputRedirects" "'')'' \<notin> set outputRedirects"
  by (simp_all add: outputRedirects_def)

lemma splitOperator_pending:
  "sp_pendingRedirect (splitOperator st op) \<noteq> None \<longleftrightarrow> op \<in> set outputRedirects"
  by (simp add: splitOperator_def Let_def openGroup_def split: option.split)

lemma splitStep_held:
  assumes "sp_pendingRedirect st \<noteq> None \<longleftrightarrow> redirects prev"
  shows "heldWords (splitStep st t) = heldWords st @ commandWords prev [t]"
    and "heldTargets (splitStep st t) = heldTargets st @ redirectWords prev [t]"
    and "sp_pendingRedirect (splitStep st t) \<noteq> None \<longleftrightarrow> redirects (Some t)"
proof -
  have "heldWords (splitStep st t) = heldWords st @ commandWords prev [t] \<and>
    heldTargets (splitStep st t) = heldTargets st @ redirectWords prev [t] \<and>
    (sp_pendingRedirect (splitStep st t) \<noteq> None \<longleftrightarrow> redirects (Some t))"
  proof (cases "tok_kind t")
    case KWord
    with assms show ?thesis
      by (auto simp: splitStep_def splitWord_def pushWord_def pushRedirect_def held_defs
          commandWords_def redirectWords_def isWordToken_def redirects_def)
  next
    case KOperator
    with assms show ?thesis
      by (simp add: splitStep_def splitOperator_held commandWords_def redirectWords_def
          isWordToken_def redirects_def splitOperator_pending del: not_None_eq)
  qed
  then show "heldWords (splitStep st t) = heldWords st @ commandWords prev [t]"
    and "heldTargets (splitStep st t) = heldTargets st @ redirectWords prev [t]"
    and "sp_pendingRedirect (splitStep st t) \<noteq> None \<longleftrightarrow> redirects (Some t)"
    by blast+
qed

lemma commandWords_Cons: "commandWords prev (t # ts) = commandWords prev [t] @ commandWords (Some t) ts"
  and redirectWords_Cons: "redirectWords prev (t # ts) = redirectWords prev [t] @ redirectWords (Some t) ts"
  by (simp_all add: commandWords_def redirectWords_def)

lemma foldl_split_held:
  "(sp_pendingRedirect st \<noteq> None \<longleftrightarrow> redirects prev) \<Longrightarrow>
     heldWords (foldl splitStep st ts) = heldWords st @ commandWords prev ts \<and>
     heldTargets (foldl splitStep st ts) = heldTargets st @ redirectWords prev ts"
proof (induction ts arbitrary: st prev)
  case Nil
  then show ?case by (simp add: commandWords_def redirectWords_def)
next
  case (Cons t ts)
  show ?case
    using Cons.IH [OF splitStep_held(3) [OF Cons.prems]] splitStep_held(1,2) [OF Cons.prems]
    by (simp add: commandWords_Cons [of prev t ts] redirectWords_Cons [of prev t ts])
qed

lemma splitStart_held: "heldWords splitStart = []" "heldTargets splitStart = []"
  by (simp_all add: splitStart_def held_defs freshOpen_def)

lemma splitSegments_words: "wordsOf (splitSegments tokens) = commandWords None tokens"
  and splitSegments_targets: "targetsOf (splitSegments tokens) = redirectWords None tokens"
proof -
  let ?st = "foldl splitStep splitStart tokens"
  have start: "sp_pendingRedirect splitStart \<noteq> None \<longleftrightarrow> redirects None"
    by (simp add: splitStart_def redirects_def)
  note held = foldl_split_held [OF start, of tokens]
  have "wordsOf (splitSegments tokens) = heldWords (closeSegment None ?st)"
    unfolding splitSegments_def heldWords_def by simp
  also have "\<dots> = commandWords None tokens"
    using held splitStart_held by simp
  finally show "wordsOf (splitSegments tokens) = commandWords None tokens" .
  have "targetsOf (splitSegments tokens) = heldTargets (closeSegment None ?st)"
    unfolding splitSegments_def heldTargets_def by simp
  also have "\<dots> = redirectWords None tokens"
    using held splitStart_held by simp
  finally show "targetsOf (splitSegments tokens) = redirectWords None tokens" .
qed

text \<open>C26: no word of a command line is lost or invented. The words of the segments, in order, are
  exactly the word tokens not preceded by an output redirect, and the redirect targets, in order, are
  exactly the word tokens right after an output redirect.\<close>

theorem splitSegments_keeps_words:
  "wordsOf (splitSegments tokens) = commandWords None tokens \<and>
   targetsOf (splitSegments tokens) = redirectWords None tokens"
  by (simp add: splitSegments_words splitSegments_targets)

lemma commandWords_word: "t \<in> set (commandWords prev ts) \<Longrightarrow> t \<in> set ts \<and> tok_kind t = KWord"
  and redirectWords_word: "t \<in> set (redirectWords prev ts) \<Longrightarrow> t \<in> set ts \<and> tok_kind t = KWord"
  by (auto simp: commandWords_def redirectWords_def isWordToken_def withPrevious_def
      dest: set_zip_rightD)

lemma segment_tokens:
  assumes "s \<in> set (splitSegments tokens)" and "t \<in> set (seg_words s) \<union> set (seg_redirectTargets s)"
  shows "t \<in> set tokens"
proof -
  have "t \<in> set (wordsOf (splitSegments tokens)) \<union> set (targetsOf (splitSegments tokens))"
    using assms by (auto simp: wordsOf_def targetsOf_def)
  then have "t \<in> set (commandWords None tokens) \<or> t \<in> set (redirectWords None tokens)"
    by (simp add: splitSegments_words splitSegments_targets)
  then show ?thesis using commandWords_word redirectWords_word by blast
qed

lemma splitSegments_Nil [simp]: "splitSegments [] = []"
  by (simp add: splitSegments_def splitStart_def closeSegment_def freshOpen_def)

end
