(* ===== verification/Reading.thy ===== *)
theory Reading
  imports Flags Segments
begin

text \<open>
  \<open>policy/classifier/command/vocabulary.ts\<close> and \<open>reading.ts\<close>: the word lists of the command reader and
  what it says of one simple command.
\<close>

section \<open>Vocabulary\<close>

definition shellKeywords :: "string list" where
  "shellKeywords = [''for'', ''while'', ''until'', ''if'', ''elif'', ''case'', ''select'',
     ''function'', ''coproc'']"

definition segmentIntroducers :: "string list" where
  "segmentIntroducers = [''do'', ''then'', ''else'', ''!'', ''time'', ''exec'', ''nohup'',
     ''command'', ''builtin'', ''{'', ''}'']"

definition blockTerminators :: "string list" where
  "blockTerminators = [''done'', ''fi'', ''esac'', ''in'']"

definition interpreters :: "string list" where
  "interpreters = [''sh'', ''bash'', ''zsh'', ''dash'', ''ksh'', ''fish'', ''node'', ''deno'',
     ''bun'', ''python'', ''python2'', ''python3'', ''ruby'', ''perl'', ''php'', ''osascript'']"

definition wrappers :: "string list" where
  "wrappers = [''sudo'', ''env'', ''xargs'', ''nice'', ''timeout'', ''doas'']"

definition programsThatDestroyTheirOperands :: "string list" where
  "programsThatDestroyTheirOperands = [''rm'', ''rmdir'', ''mv'', ''dd'', ''shred'', ''truncate'',
     ''unlink'', ''chmod'', ''chown'', ''chgrp'', ''mkfs'', ''ln'', ''git'', ''docker'', ''kubectl'',
     ''terraform'', ''systemctl'', ''kill'', ''killall'', ''pkill'', ''rsync'', ''tee'', ''sudo'',
     ''doas'']"

definition scriptFlag :: string where
  "scriptFlag = ''-c''"

definition maximumScriptNesting :: nat where
  "maximumScriptNesting = 3"

definition fetchers :: "string list" where
  "fetchers = [''curl'', ''wget'', ''http'', ''httpie'', ''aria2c'', ''fetch'']"

section \<open>What the reader says\<close>

datatype e_read_confidence = Conf_Read | Conf_Partial | Conf_Opaque

record command_segment =
  cs_program :: string
  cs_verb :: "string option"
  cs_flags :: "string list"
  cs_operands :: "string list"
  cs_rawOperands :: "string list"
  cs_cwd :: "string option"
  cs_redirectsInto :: "string list"
  cs_pipesIntoInterpreter :: bool
  cs_unresolvedExpansions :: "string list"

record command_reading =
  cr_confidence :: e_read_confidence
  cr_segments :: "command_segment list"
  cr_command :: string

record built_segment =
  bs_segment :: command_segment
  bs_join :: "e_segment_join option"
  bs_readable :: bool
  bs_unresolvedOperand :: bool

definition effectiveProgram :: "command_segment \<Rightarrow> string" where
  "effectiveProgram segment =
     (if cs_program segment \<notin> set wrappers then cs_program segment
      else (case cs_verb segment of None \<Rightarrow> cs_program segment | Some v \<Rightarrow> v))"

definition destroysItsOperands :: "command_segment \<Rightarrow> bool" where
  "destroysItsOperands segment \<longleftrightarrow>
     cs_program segment \<in> set programsThatDestroyTheirOperands \<or>
     effectiveProgram segment \<in> set programsThatDestroyTheirOperands"

definition runsAnInlineScript :: "command_segment \<Rightarrow> bool" where
  "runsAnInlineScript segment \<longleftrightarrow>
     effectiveProgram segment \<in> set interpreters \<and> scriptFlag \<in> set (cs_flags segment)"

end
