(* ===== verification/Assignments.thy ===== *)
theory Assignments
  imports Segments
begin

text \<open>
  \<open>policy/classifier/command/assignments.ts\<close>: the variable assignments of a command line that are
  visible to its later clauses. A \<open>Map\<close> that is only read with \<open>get\<close> is a partial function.
\<close>

section \<open>Operations\<close>

text \<open>\<open>/^[A-Za-z_][A-Za-z0-9_]*=/\<close>.\<close>

definition isAssignment :: "string \<Rightarrow> bool" where
  "isAssignment t \<longleftrightarrow>
     (case variableName t of None \<Rightarrow> False | Some n \<Rightarrow> startsWith (drop (length n) t) ''='')"

text \<open>\<open>/[ \t\n*?[]/\<close>.\<close>

definition splitsOrGlobs :: "string \<Rightarrow> bool" where
  "splitsOrGlobs value \<longleftrightarrow>
     (\<exists>c \<in> set value. c \<in> {CHR '' '', tab, newline, CHR ''*'', CHR ''?'', CHR ''[''})"

definition mayNeverRun :: "e_segment_join list" where
  "mayNeverRun = [JOr, JPipe]"

definition runsInASubshell :: "e_segment_join list" where
  "runsInASubshell = [JPipe, JBackground]"

definition outlivesItsClause :: "e_segment_join option \<Rightarrow> e_segment_join option \<Rightarrow> bool" where
  "outlivesItsClause joinBefore joinAfter \<longleftrightarrow>
     (case joinBefore of None \<Rightarrow> True | Some j \<Rightarrow> j \<notin> set mayNeverRun) \<and>
     (case joinAfter of None \<Rightarrow> True | Some j \<Rightarrow> j \<notin> set runsInASubshell)"

definition worthTracking :: "string \<Rightarrow> bool" where
  "worthTracking value \<longleftrightarrow> length value > 0 \<and> \<not> splitsOrGlobs value"

type_synonym assignments = "string \<Rightarrow> string option"

fun harvestInto :: "assignments \<Rightarrow> lexed_token list \<Rightarrow> assignments" where
  "harvestInto assignments [] = assignments"
| "harvestInto assignments (word # words) =
     (if tok_isHeredocBody word then assignments
      else if \<not> isAssignment (tok_text word) then assignments
      else if tok_expansions word \<noteq> [] then harvestInto assignments words
      else
        (case indexOf CHR ''='' (tok_text word) of
           None \<Rightarrow> harvestInto assignments words
         | Some equals \<Rightarrow>
             (let value = drop (equals + 1) (tok_text word) in
              if \<not> worthTracking value then harvestInto assignments words
              else harvestInto (assignments(take equals (tok_text word) \<mapsto> value)) words)))"

fun assignmentsLoop ::
  "e_segment_join option \<Rightarrow> assignments \<Rightarrow> token_segment list \<Rightarrow> assignments" where
  "assignmentsLoop joinBefore assignments [] = assignments"
| "assignmentsLoop joinBefore assignments (segment # segments) =
     assignmentsLoop (seg_joinToNext segment)
       (if outlivesItsClause joinBefore (seg_joinToNext segment)
        then harvestInto assignments (seg_words segment) else assignments)
       segments"

definition assignmentsVisibleAcross :: "token_segment list \<Rightarrow> assignments" where
  "assignmentsVisibleAcross segments = assignmentsLoop None Map.empty segments"

section \<open>Every tracked assignment is a name and a single plain word\<close>

definition trackable :: "assignments \<Rightarrow> bool" where
  "trackable a \<longleftrightarrow> (\<forall>name value. a name = Some value \<longrightarrow>
     variableName name = Some name \<and> worthTracking value)"

lemma isAssignment_split:
  assumes "isAssignment t" and "indexOf CHR ''='' t = Some n"
  shows "variableName (take n t) = Some (take n t)"
proof -
  from assms obtain name where name: "variableName t = Some name"
    and eq: "startsWith (drop (length name) t) ''=''"
    by (auto simp: isAssignment_def split: option.splits)
  obtain c cs where t: "t = c # cs" using name by (cases t) auto
  have n: "name = c # takeWhile is_name_char cs" "is_name_start c"
    using name t by (auto split: if_splits)
  have noeq: "CHR ''='' \<notin> set name"
    using n by (auto dest!: set_takeWhileD simp: char_class_defs)
  obtain rest where "t = name @ CHR ''='' # rest"
    using variableName_split [OF name] eq by (auto simp: prefix_def)
  then have "n = length name" using assms(2) noeq by simp
  then have "take n t = name" using variableName_split [OF name] by (metis append_eq_conv_conj)
  moreover have "variableName name = Some name"
    using n by simp
  ultimately show ?thesis by simp
qed

lemma trackable_update:
  "trackable a \<Longrightarrow> variableName name = Some name \<Longrightarrow> worthTracking value \<Longrightarrow>
     trackable (a(name \<mapsto> value))"
  by (simp add: trackable_def)

lemma harvestInto_trackable: "trackable a \<Longrightarrow> trackable (harvestInto a words)"
proof (induction words arbitrary: a)
  case (Cons word words)
  show ?case
  proof (cases "indexOf CHR ''='' (tok_text word)")
    case None
    with Cons show ?thesis by (simp del: indexOf_None)
  next
    case (Some n)
    with Cons.prems isAssignment_split [of "tok_text word" n] show ?thesis
      by (auto simp: Let_def intro!: Cons.IH trackable_update)
  qed
qed simp

lemma assignmentsLoop_trackable: "trackable a \<Longrightarrow> trackable (assignmentsLoop j a segments)"
  by (induction j a segments rule: assignmentsLoop.induct) (simp_all add: harvestInto_trackable)

lemma assignmentsVisible_trackable: "trackable (assignmentsVisibleAcross segments)"
  unfolding assignmentsVisibleAcross_def
  by (rule assignmentsLoop_trackable) (simp add: trackable_def)

end
