(* ===== verification/Path_Set.thy ===== *)
theory Path_Set
  imports Prelude
begin

text \<open>
  \<open>policy/classifier/path-set.ts\<close>: paths as strings, normalised by component. The lemmas show that
  \<open>normalisePath\<close> yields a normal form and is idempotent, and that \<open>isUnderPath\<close> is exactly
  "prefix of components", hence a preorder.
\<close>

section \<open>The operations\<close>

definition separator :: char where "separator = CHR ''/''"

definition isAbsolute :: "string \<Rightarrow> bool" where
  "isAbsolute path \<longleftrightarrow> startsWith path [separator]"

definition isHomeRooted :: "string \<Rightarrow> bool" where
  "isHomeRooted path \<longleftrightarrow> path = ''~'' \<or> startsWith path ''~/''"

text \<open>The body of the loop over \<open>path.split('/')\<close>, with \<open>parts\<close> as its state.\<close>

definition push_part :: "bool \<Rightarrow> string list \<Rightarrow> string \<Rightarrow> string list" where
  "push_part absolute parts part =
     (if part = '''' \<or> part = ''.'' then parts
      else if part \<noteq> ''..'' then parts @ [part]
      else if parts \<noteq> [] \<and> last parts \<noteq> ''..'' then butlast parts
      else if absolute then parts
      else parts @ [''..''])"

definition pathParts :: "string \<Rightarrow> string list" where
  "pathParts path = foldl (push_part (isAbsolute path)) [] (split_on separator path)"

definition normalisePath :: "string \<Rightarrow> string" where
  "normalisePath path =
     (let joined = join [separator] (pathParts path) in
      if isAbsolute path then separator # joined
      else if joined = '''' then ''.'' else joined)"

definition resolveAgainst :: "string \<Rightarrow> string \<Rightarrow> string" where
  "resolveAgainst base path =
     (if isHomeRooted path then path
      else if isAbsolute path then normalisePath path
      else normalisePath (base @ separator # path))"

definition isUnderPath :: "string \<Rightarrow> string \<Rightarrow> bool" where
  "isUnderPath directory path =
     (let root = normalisePath directory; target = normalisePath path in
      if root = target then True
      else if root = ''.'' then
        \<not> isAbsolute target \<and> target \<noteq> ''..'' \<and> \<not> startsWith target ''../''
      else
        let pre = (if endsWith root [separator] then root else root @ [separator])
        in startsWith target pre)"

text \<open>\<open>lastIndexOf('/')\<close>.\<close>

definition lastIndexOf :: "'a \<Rightarrow> 'a list \<Rightarrow> nat option" where
  "lastIndexOf c s = map_option (\<lambda>n. length s - Suc n) (indexOf c (rev s))"

definition parentOf :: "string \<Rightarrow> string option" where
  "parentOf path =
     (let normalised = normalisePath path in
      if normalised = [separator] \<or> normalised = ''.'' \<or> normalised = ''..'' then None
      else (case lastIndexOf separator normalised of
          None \<Rightarrow> Some ''.''
        | Some i \<Rightarrow> if i = 0 then Some [separator] else Some (take i normalised)))"

definition basenameOf :: "string \<Rightarrow> string" where
  "basenameOf path =
     (let normalised = normalisePath path in
      case lastIndexOf separator normalised of
        None \<Rightarrow> normalised
      | Some i \<Rightarrow> drop (Suc i) normalised)"

section \<open>The normal form\<close>

text \<open>Components of a normalised path: no empty or dot component, and \<open>..\<close> only as a leading run
  of a relative path.\<close>

definition plain_part :: "string \<Rightarrow> bool" where
  "plain_part p \<longleftrightarrow> p \<noteq> [] \<and> p \<noteq> ''.'' \<and> separator \<notin> set p"

fun normal_parts :: "bool \<Rightarrow> string list \<Rightarrow> bool" where
  "normal_parts absolute [] \<longleftrightarrow> True"
| "normal_parts absolute (p # ps) \<longleftrightarrow>
     plain_part p \<and> (if p = ''..'' then \<not> absolute \<and> normal_parts absolute ps
       else ''..'' \<notin> set ps \<and> (\<forall>q \<in> set ps. plain_part q))"

lemma plain_dotdot [simp]: "plain_part ''..''"
  by (simp add: plain_part_def separator_def)

lemma normal_parts_plain: "normal_parts a ps \<Longrightarrow> p \<in> set ps \<Longrightarrow> plain_part p"
  by (induction ps) (auto split: if_splits)

lemma normal_parts_snoc:
  "normal_parts a (ps @ [q]) \<longleftrightarrow>
     normal_parts a ps \<and> plain_part q \<and> (q = ''..'' \<longrightarrow> \<not> a \<and> set ps \<subseteq> {''..''})"
  by (induction ps) auto

lemma normal_parts_snoc2:
  "normal_parts a (ps @ [q, r]) \<longleftrightarrow>
     normal_parts a (ps @ [q]) \<and> plain_part r \<and> (r = ''..'' \<longrightarrow> \<not> a \<and> set (ps @ [q]) \<subseteq> {''..''})"
  using normal_parts_snoc [of a "ps @ [q]" r] by simp

lemma normal_parts_no_dotdot: "normal_parts True ps \<Longrightarrow> ''..'' \<notin> set ps"
  by (cases ps) (auto split: if_splits)

lemma normal_push_part:
  assumes "normal_parts a parts" and "separator \<notin> set part"
  shows "normal_parts a (push_part a parts part)"
proof (cases parts rule: rev_cases)
  case Nil
  then show ?thesis using assms by (auto simp: push_part_def plain_part_def)
next
  case (snoc ps q)
  then show ?thesis using assms
    by (auto simp: push_part_def plain_part_def normal_parts_snoc normal_parts_snoc2)
qed

lemma normal_foldl_push:
  "normal_parts a acc \<Longrightarrow> \<forall>p \<in> set ps. separator \<notin> set p \<Longrightarrow>
     normal_parts a (foldl (push_part a) acc ps)"
  by (induction ps arbitrary: acc) (auto intro: normal_push_part)

lemma pathParts_normal: "normal_parts (isAbsolute path) (pathParts path)"
  unfolding pathParts_def by (rule normal_foldl_push) (auto dest: split_on_parts)

lemma foldl_push_normal: "normal_parts a ps \<Longrightarrow> foldl (push_part a) [] ps = ps"
proof (induction ps rule: rev_induct)
  case (snoc q ps)
  then have IH: "foldl (push_part a) [] ps = ps" and q: "plain_part q"
    by (auto simp: normal_parts_snoc)
  have "push_part a ps q = ps @ [q]"
    using snoc.prems q
    by (cases ps rule: rev_cases) (auto simp: push_part_def plain_part_def normal_parts_snoc normal_parts_snoc2)
  with IH show ?case by simp
qed simp

lemma pathParts_plain [dest]: "p \<in> set (pathParts path) \<Longrightarrow> plain_part p"
  using pathParts_normal normal_parts_plain by blast

lemma split_on_join_prefix:
  "ps \<noteq> [] \<Longrightarrow> \<forall>p \<in> set ps. c \<notin> set p \<Longrightarrow> split_on c (join [c] ps @ c # u) = ps @ split_on c u"
  by (induction "[c]" ps rule: join.induct) (auto simp: split_on_append_sep)

lemma join_plain_hd:
  assumes "\<forall>p \<in> set ps. plain_part p"
  shows "\<not> isAbsolute (join [separator] ps)"
proof (cases ps)
  case (Cons p qs)
  with assms obtain x xs where "p = x # xs" "x \<noteq> separator"
    by (cases p) (auto simp: plain_part_def)
  with Cons show ?thesis by (cases "qs = []") (auto simp: isAbsolute_def join_Cons)
qed (simp add: isAbsolute_def)

lemma join_plain_last:
  assumes "\<forall>p \<in> set ps. plain_part p"
  shows "\<not> endsWith (join [separator] ps) [separator]"
proof (cases ps rule: rev_cases)
  case (snoc qs p)
  with assms have p: "p \<noteq> []" "plain_part p"
    by (auto simp: plain_part_def)
  then have "last p \<noteq> separator" by (metis last_in_set plain_part_def)
  have "last (join [separator] (qs @ [p])) = last p"
    using p by (cases "qs = []") (simp_all add: join_append)
  moreover have "join [separator] (qs @ [p]) \<noteq> []"
    using p by (cases "qs = []") (simp_all add: join_append)
  ultimately show ?thesis using snoc p \<open>last p \<noteq> separator\<close> by (auto simp: endsWith_iff)
qed (simp add: endsWith_iff)

lemma isAbsolute_normalise [simp]: "isAbsolute (normalisePath path) = isAbsolute path"
proof (cases "isAbsolute path")
  case True
  then show ?thesis by (simp add: normalisePath_def Let_def isAbsolute_def)
next
  case False
  then show ?thesis
    using join_plain_hd [of "pathParts path"]
    by (auto simp: normalisePath_def Let_def isAbsolute_def separator_def)
qed

lemma pathParts_join:
  assumes "normal_parts False ps" and "ps \<noteq> []"
  shows "pathParts (join [separator] ps) = ps"
proof -
  have plain: "\<forall>p \<in> set ps. plain_part p" using assms normal_parts_plain by blast
  then have "split_on separator (join [separator] ps) = ps"
    using assms by (auto intro: split_on_join simp: plain_part_def)
  with assms join_plain_hd [OF plain] show ?thesis
    by (simp add: pathParts_def foldl_push_normal)
qed

lemma pathParts_abs_join:
  assumes "normal_parts True ps"
  shows "pathParts (separator # join [separator] ps) = ps"
proof -
  have plain: "\<forall>p \<in> set ps. plain_part p" using assms normal_parts_plain by blast
  have "foldl (push_part True) [] (split_on separator (join [separator] ps)) = ps"
  proof (cases "ps = []")
    case False
    then have "split_on separator (join [separator] ps) = ps"
      using plain by (auto intro: split_on_join simp: plain_part_def)
    with assms show ?thesis by (simp add: foldl_push_normal)
  qed (simp add: push_part_def)
  then show ?thesis by (simp add: pathParts_def isAbsolute_def push_part_def)
qed

lemma pathParts_dot [simp]: "pathParts ''.'' = []"
  by (simp add: pathParts_def isAbsolute_def separator_def push_part_def)

lemma normalise_rel:
  "\<not> isAbsolute path \<Longrightarrow> normalisePath path =
     (if pathParts path = [] then ''.'' else join [separator] (pathParts path))"
  using join_empty_iff [of "pathParts path" "[separator]"] pathParts_plain [of _ path]
  by (auto simp: normalisePath_def Let_def plain_part_def)

lemma normalise_abs:
  "isAbsolute path \<Longrightarrow> normalisePath path = separator # join [separator] (pathParts path)"
  by (simp add: normalisePath_def Let_def)

lemma pathParts_normalise [simp]: "pathParts (normalisePath path) = pathParts path"
proof (cases "isAbsolute path")
  case True
  then show ?thesis
    using pathParts_normal [of path] by (simp add: normalise_abs pathParts_abs_join)
next
  case False
  then show ?thesis
    using pathParts_normal [of path] by (simp add: normalise_rel pathParts_join)
qed

lemma normalise_eqI:
  "isAbsolute p = isAbsolute q \<Longrightarrow> pathParts p = pathParts q \<Longrightarrow> normalisePath p = normalisePath q"
  by (simp add: normalisePath_def)

lemma normalise_eq_iff:
  "normalisePath p = normalisePath q \<longleftrightarrow> isAbsolute p = isAbsolute q \<and> pathParts p = pathParts q"
  by (metis isAbsolute_normalise pathParts_normalise normalise_eqI)

lemma normalise_idem [simp]: "normalisePath (normalisePath path) = normalisePath path"
  by (rule normalise_eqI) simp_all

section \<open>Containment is a prefix of components\<close>

lemma join_prefix_iff:
  assumes "ps \<noteq> []" and "\<forall>p \<in> set ps. plain_part p" and "\<forall>p \<in> set qs. plain_part p"
  shows "startsWith (join [separator] qs) (join [separator] ps @ [separator])
    \<longleftrightarrow> strict_prefix ps qs"
proof
  assume "startsWith (join [separator] qs) (join [separator] ps @ [separator])"
  then obtain u where u: "join [separator] qs = join [separator] ps @ separator # u"
    by (auto simp: prefix_def)
  then have "qs \<noteq> []" by (cases qs) auto
  then have "qs = split_on separator (join [separator] qs)"
    using assms by (simp add: split_on_join plain_part_def)
  also have "\<dots> = ps @ split_on separator u"
    unfolding u using assms by (intro split_on_join_prefix) (auto simp: plain_part_def)
  finally show "strict_prefix ps qs" by (metis split_on_not_Nil strict_prefixI' strict_prefix_def prefixI append_self_conv)
next
  assume "strict_prefix ps qs"
  then obtain rs where "qs = ps @ rs" "rs \<noteq> []"
    by (auto simp: strict_prefix_def prefix_def)
  with assms show "startsWith (join [separator] qs) (join [separator] ps @ [separator])"
    by (simp add: join_append)
qed

lemma under_dot:
  assumes "\<not> isAbsolute path" and "pathParts path \<noteq> []"
  shows "normalisePath path = ''..'' \<or> startsWith (normalisePath path) ''../''
    \<longleftrightarrow> hd (pathParts path) = ''..''"
proof -
  let ?ps = "pathParts path"
  have plain: "\<forall>p \<in> set ?ps. plain_part p" by auto
  have n: "normalisePath path = join [separator] ?ps" using assms by (simp add: normalise_rel)
  have "startsWith (normalisePath path) ''../'' \<longleftrightarrow> strict_prefix [''..''] ?ps"
    using join_prefix_iff [of "[''..'']" ?ps] plain n by (simp add: separator_def)
  moreover have "normalisePath path = ''..'' \<longleftrightarrow> ?ps = [''..'']"
    using split_on_join [of ?ps separator] plain assms n
    by (metis join.simps(2) plain_part_def split_on_no_sep plain_dotdot)
  ultimately show ?thesis
    using assms by (cases ?ps) (auto simp: strict_prefix_def)
qed

lemma normalise_not_Nil [simp]: "normalisePath path \<noteq> []"
  using join_empty_iff [of "pathParts path" "[separator]"] pathParts_plain [of _ path]
  by (cases "isAbsolute path") (auto simp: normalise_abs normalise_rel plain_part_def)

lemma startsWith_isAbsolute: "startsWith t (r @ x) \<Longrightarrow> r \<noteq> [] \<Longrightarrow> isAbsolute t = isAbsolute r"
  by (cases r) (auto simp: isAbsolute_def prefix_def)

lemma isUnderPath_mixed:
  assumes "isAbsolute directory \<noteq> isAbsolute path"
  shows "\<not> isUnderPath directory path"
proof
  assume under: "isUnderPath directory path"
  let ?r = "normalisePath directory" and ?t = "normalisePath path"
  have "?r \<noteq> ?t" using assms by (auto simp: normalise_eq_iff)
  with under consider "?r = ''.''" "\<not> isAbsolute ?t"
    | "startsWith ?t ?r" | "startsWith ?t (?r @ [separator])"
    by (auto simp: isUnderPath_def Let_def split: if_splits)
  then show False
  proof cases
    case 1
    have "\<not> isAbsolute ''.''" by (simp add: isAbsolute_def separator_def)
    with 1 have "\<not> isAbsolute directory" by (metis isAbsolute_normalise)
    with 1 assms show False by simp
  next
    case 2
    then have "startsWith ?t (?r @ [])" by simp
    from startsWith_isAbsolute [OF this] assms show False by simp
  next
    case 3
    from startsWith_isAbsolute [OF this] assms show False by simp
  qed
qed

lemma endsWith_Cons: "xs \<noteq> [] \<Longrightarrow> endsWith (x # xs) [y] = endsWith xs [y]"
  by (auto simp: endsWith_iff Cons_eq_append_conv)

lemma isUnderPath_abs:
  assumes "isAbsolute directory" and "isAbsolute path"
  shows "isUnderPath directory path \<longleftrightarrow> prefix (pathParts directory) (pathParts path)"
proof -
  let ?d = "pathParts directory" and ?p = "pathParts path"
  have plain: "\<forall>p \<in> set ?d. plain_part p" "\<forall>p \<in> set ?p. plain_part p" by auto
  have notdot: "separator # xs \<noteq> ''.''" for xs by (simp add: separator_def)
  have sep: "separator \<noteq> CHR ''.''" by (simp add: separator_def)
  have eq: "normalisePath directory = normalisePath path \<longleftrightarrow> ?d = ?p"
    using assms by (simp add: normalise_eq_iff)
  show ?thesis
  proof (cases "?d = []")
    case True
    then have root: "normalisePath directory = [separator]" using assms by (simp add: normalise_abs)
    have "startsWith (normalisePath path) [separator]"
      using assms by (simp add: normalise_abs)
    then have "isUnderPath directory path"
      by (simp add: isUnderPath_def root notdot endsWith_def separator_def)
    with True show ?thesis by simp
  next
    case False
    have ne: "join [separator] ?d \<noteq> []"
      using False join_empty_iff [of ?d "[separator]"] plain by (auto simp: plain_part_def)
    have "\<not> endsWith (normalisePath directory) [separator]"
      using ne join_plain_last [OF plain(1)] assms by (simp add: normalise_abs endsWith_Cons)
    then have "isUnderPath directory path \<longleftrightarrow> ?d = ?p \<or>
        startsWith (normalisePath path) (normalisePath directory @ [separator])"
      using eq assms by (simp add: isUnderPath_def Let_def sep normalise_abs)
    also have "\<dots> \<longleftrightarrow> ?d = ?p \<or> strict_prefix ?d ?p"
      using join_prefix_iff [OF False plain] assms by (simp add: normalise_abs)
    finally show ?thesis by (auto simp: strict_prefix_def)
  qed
qed

lemma isUnderPath_rel:
  assumes "\<not> isAbsolute directory" and "\<not> isAbsolute path"
  shows "isUnderPath directory path \<longleftrightarrow> prefix (pathParts directory) (pathParts path) \<and>
    (pathParts directory = [] \<longrightarrow> pathParts path = [] \<or> hd (pathParts path) \<noteq> ''..'')"
proof -
  let ?d = "pathParts directory" and ?p = "pathParts path"
  have plain: "\<forall>p \<in> set ?d. plain_part p" "\<forall>p \<in> set ?p. plain_part p" by auto
  have eq: "normalisePath directory = normalisePath path \<longleftrightarrow> ?d = ?p"
    using assms by (simp add: normalise_eq_iff)
  show ?thesis
  proof (cases "?d = []")
    case True
    then have root: "normalisePath directory = ''.''" using assms by (simp add: normalise_rel)
    show ?thesis
      using eq under_dot [OF assms(2)] assms True root
      by (cases "?p = []") (auto simp: isUnderPath_def Let_def)
  next
    case False
    then have root: "normalisePath directory = join [separator] ?d"
      using assms by (simp add: normalise_rel)
    have notdot: "join [separator] ?d \<noteq> ''.''"
      using pathParts_normalise [of directory] False root by auto
    have "isUnderPath directory path \<longleftrightarrow> ?d = ?p \<or>
        startsWith (normalisePath path) (join [separator] ?d @ [separator])"
      using eq root notdot join_plain_last [OF plain(1)]
      by (simp add: isUnderPath_def Let_def)
    also have "\<dots> \<longleftrightarrow> ?d = ?p \<or> strict_prefix ?d ?p"
    proof (cases "?p = []")
      case True
      then have "normalisePath path = ''.''" using assms by (simp add: normalise_rel)
      moreover have "join [separator] ?d \<noteq> []"
        using False join_empty_iff [of ?d "[separator]"] plain by (auto simp: plain_part_def)
      ultimately have "\<not> startsWith (normalisePath path) (join [separator] ?d @ [separator])"
        by (cases "join [separator] ?d") (auto simp: prefix_Cons)
      with True False show ?thesis by auto
    next
      case nonempty: False
      then show ?thesis
        using join_prefix_iff [OF False plain] assms by (simp add: normalise_rel)
    qed
    finally show ?thesis using False by (auto simp: strict_prefix_def)
  qed
qed

lemma isUnderPath_iff:
  "isUnderPath directory path \<longleftrightarrow>
     isAbsolute directory = isAbsolute path \<and> prefix (pathParts directory) (pathParts path) \<and>
     (\<not> isAbsolute directory \<and> pathParts directory = [] \<longrightarrow>
        pathParts path = [] \<or> hd (pathParts path) \<noteq> ''..'')"
  using isUnderPath_mixed isUnderPath_abs isUnderPath_rel by blast

section \<open>Parents and base names\<close>

lemma lastIndexOf_append: "c \<notin> set v \<Longrightarrow> lastIndexOf c (u @ c # v) = Some (length u)"
  by (simp add: lastIndexOf_def)

lemma lastIndexOf_None [simp]: "lastIndexOf c s = None \<longleftrightarrow> c \<notin> set s"
  by (simp add: lastIndexOf_def)

lemma normal_parts_butlast: "normal_parts a ps \<Longrightarrow> normal_parts a (butlast ps)"
  by (cases ps rule: rev_cases) (auto simp: normal_parts_snoc)

text \<open>A normalised path with components: its last component is the base name, and cutting it off
  leaves the path of the other components.\<close>

lemma basenameOf_last:
  assumes "pathParts path \<noteq> []"
  shows "basenameOf path = last (pathParts path)"
proof -
  obtain ps q where parts: "pathParts path = ps @ [q]" using assms by (metis rev_exhaust)
  then have q: "separator \<notin> set q" "q \<noteq> []" using pathParts_plain [of q path] by (auto simp: plain_part_def)
  obtain pre where pre: "normalisePath path = q \<or> normalisePath path = pre @ separator # q"
    using parts assms
    by (cases "isAbsolute path"; cases "ps = []")
      (auto simp: normalise_abs normalise_rel join_append intro: that [of "[]"] that [of "join _ _"]
        that [of "_ # join _ _"])
  then show ?thesis
    using q parts
    by (elim disjE) (simp_all add: basenameOf_def Let_def lastIndexOf_append
        lastIndexOf_None [THEN iffD2])
qed

lemma parentOf_abs:
  assumes "isAbsolute path"
  shows "parentOf path = (if pathParts path = [] then None
    else Some (separator # join [separator] (butlast (pathParts path))))"
proof (cases "pathParts path" rule: rev_cases)
  case Nil
  with assms show ?thesis by (simp add: parentOf_def normalise_abs)
next
  case (snoc ps q)
  then have q: "separator \<notin> set q" "q \<noteq> []" using pathParts_plain [of q path] by (auto simp: plain_part_def)
  have n: "normalisePath path = (separator # join [separator] ps) @ (if ps = [] then q else separator # q)"
    using assms snoc by (cases "ps = []") (simp_all add: normalise_abs join_append)
  have nd: "normalisePath path \<noteq> [separator]" "normalisePath path \<noteq> ''.''" "normalisePath path \<noteq> ''..''"
    using n q by (auto simp: separator_def)
  show ?thesis
  proof (cases "ps = []")
    case True
    then have "lastIndexOf separator (normalisePath path) = Some 0"
      using n q lastIndexOf_append [of separator q "[]"] by simp
    with nd snoc True show ?thesis by (simp add: parentOf_def)
  next
    case False
    then have "lastIndexOf separator (normalisePath path) = Some (Suc (length (join [separator] ps)))"
      using n q lastIndexOf_append [of separator q "separator # join [separator] ps"] by simp
    with nd snoc False n show ?thesis by (simp add: parentOf_def Let_def separator_def)
  qed
qed

lemma parentOf_abs_parts:
  assumes "isAbsolute path" and "parentOf path = Some parent"
  shows "isAbsolute parent" and "pathParts parent = butlast (pathParts path)"
    and "normalisePath parent = parent"
proof -
  from assms have p: "parent = separator # join [separator] (butlast (pathParts path))"
    by (auto simp: parentOf_abs split: if_splits)
  then show abs: "isAbsolute parent" by (simp add: isAbsolute_def)
  show parts: "pathParts parent = butlast (pathParts path)"
    using pathParts_abs_join [of "butlast (pathParts path)"] pathParts_normal [of path]
      normal_parts_butlast [of True "pathParts path"] assms p by simp
  show "normalisePath parent = parent"
    using abs parts p by (simp add: normalise_abs)
qed

section \<open>Properties\<close>

text \<open>The normal form. The components of any path are in normal form (no empty or dot component, and
  \<open>..\<close> only as a leading run of a relative path), normalising keeps them and whether the path is
  absolute, and normalising twice is normalising once.\<close>

theorem normalisePath_canonical:
  "normal_parts (isAbsolute path) (pathParts path) \<and>
   isAbsolute (normalisePath path) = isAbsolute path \<and>
   pathParts (normalisePath path) = pathParts path \<and>
   normalisePath (normalisePath path) = normalisePath path"
  using pathParts_normal by simp

text \<open>C35: containment is a prefix of components. The string comparison of \<open>isUnderPath\<close> decides exactly
  whether both paths are absolute or both relative and the components of the directory are a prefix of
  the components of the path; the directory \<open>.\<close> contains the relative paths that do not climb out.\<close>

theorem isUnderPath_components:
  "isUnderPath directory path \<longleftrightarrow>
     isAbsolute directory = isAbsolute path \<and>
     prefix (pathParts directory) (pathParts path) \<and>
     (\<not> isAbsolute directory \<and> pathParts directory = [] \<longrightarrow>
        pathParts path = [] \<or> hd (pathParts path) \<noteq> ''..'')"
  by (rule isUnderPath_iff)

lemma isUnderPath_components_witness: "isUnderPath ''/w/p/../p'' ''/w//p/./src''"
  unfolding isUnderPath_components by code_simp

lemma pathParts_snoc:
  assumes "plain_part leaf" and "leaf \<noteq> ''..''"
  shows "pathParts (base @ separator # leaf) =
    (if base = [] then [leaf] else pathParts base @ [leaf])"
proof (cases "base = []")
  case True
  with assms show ?thesis
    by (simp add: pathParts_def split_on_append split_on_no_sep plain_part_def push_part_def)
next
  case False
  then have "isAbsolute (base @ separator # leaf) = isAbsolute base"
    by (cases base) (auto simp: isAbsolute_def)
  with False assms show ?thesis
    by (simp add: pathParts_def split_on_append split_on_no_sep plain_part_def push_part_def)
qed

text \<open>A path is its parent and its base name. Joining the parent and the base name of an absolute path,
  however it is written, and normalising gives back the normalised path.\<close>

theorem parentOf_basenameOf:
  assumes "isAbsolute path" and "parentOf path = Some parent"
  shows "normalisePath (parent @ separator # basenameOf path) = normalisePath path"
proof -
  have parts: "pathParts path \<noteq> []" using assms by (auto simp: parentOf_abs)
  have parent: "isAbsolute parent" "pathParts parent = butlast (pathParts path)"
    using parentOf_abs_parts [OF assms] by simp_all
  have leaf: "plain_part (last (pathParts path))" "last (pathParts path) \<noteq> ''..''"
    using parts assms(1) pathParts_normal [of path] normal_parts_no_dotdot [of "pathParts path"]
    by (auto dest: last_in_set)
  have "parent \<noteq> []" "isAbsolute (parent @ separator # basenameOf path)"
    using parent(1) by (auto simp: isAbsolute_def)
  then show ?thesis
    using parts assms(1) parent(2) leaf
    by (intro normalise_eqI) (simp_all add: pathParts_snoc basenameOf_last)
qed

lemma parentOf_basenameOf_witness:
  "normalisePath (''/w/p'' @ separator # basenameOf ''/w//p/a.ts/'') = ''/w/p/a.ts''"
  using parentOf_basenameOf [of "''/w//p/a.ts/''" "''/w/p''"] by code_simp

end
