(* ===== verification/Cwd.thy ===== *)
theory Cwd
  imports Path_Set
begin

text \<open>
  \<open>policy/classifier/command/cwd.ts\<close>: where a command runs, and where the next one will.
  \<open>None\<close> is a directory the reader lost track of.
\<close>

section \<open>Operations\<close>

definition directoryChangers :: "string list" where
  "directoryChangers = [''cd'', ''pushd'', ''popd'', ''chdir'']"

definition joinPath :: "string option \<Rightarrow> string \<Rightarrow> string option" where
  "joinPath base path =
     (if startsWith path ''/'' then Some (resolveAgainst ''/'' path)
      else (case base of
          None \<Rightarrow> None
        | Some b \<Rightarrow> if startsWith path ''~'' then None else Some (resolveAgainst b path)))"

definition cwdForSegment :: "string option \<Rightarrow> string \<Rightarrow> (string \<Rightarrow> string option) \<Rightarrow> string option" where
  "cwdForSegment incoming program flagValues =
     (if program \<noteq> ''git'' then incoming
      else
        let base = (case flagValues ''-C'' of None \<Rightarrow> incoming | Some r \<Rightarrow> joinPath incoming r) in
        case flagValues ''--work-tree'' of
          Some workTree \<Rightarrow> joinPath base workTree
        | None \<Rightarrow>
            (case flagValues ''--git-dir'' of
               None \<Rightarrow> base
             | Some gitDir \<Rightarrow>
                 (case joinPath base gitDir of
                    None \<Rightarrow> None
                  | Some resolvedGitDir \<Rightarrow>
                      if basenameOf resolvedGitDir \<noteq> ''.git'' then base
                      else parentOf resolvedGitDir)))"

definition cwdAfterSegment :: "string option \<Rightarrow> string \<Rightarrow> string list \<Rightarrow> bool \<Rightarrow> string option" where
  "cwdAfterSegment incoming program operands operandsAreLiteral =
     (if program \<notin> set directoryChangers then incoming
      else if program \<noteq> ''cd'' then None
      else if \<not> operandsAreLiteral then None
      else (case operands of
          [] \<Rightarrow> None
        | target # _ \<Rightarrow> if target = ''-'' then None else joinPath incoming target))"

section \<open>Tracked directories stay absolute and normal\<close>

definition goodDir :: "string \<Rightarrow> bool" where
  "goodDir d \<longleftrightarrow> isAbsolute d \<and> normalisePath d = d"

definition goodCwd :: "string option \<Rightarrow> bool" where
  "goodCwd c \<longleftrightarrow> (case c of None \<Rightarrow> True | Some d \<Rightarrow> goodDir d)"

lemma goodCwd_simps [simp]: "goodCwd None" "goodCwd (Some d) = goodDir d"
  by (simp_all add: goodCwd_def)

lemma goodDir_normalise [simp]: "goodDir (normalisePath p) = isAbsolute p"
  by (simp add: goodDir_def)

lemma goodDir_absolute: "goodDir d \<Longrightarrow> isAbsolute d"
  by (simp add: goodDir_def)

lemma isAbsolute_append [simp]: "isAbsolute d \<Longrightarrow> isAbsolute (d @ e)"
  by (auto simp: isAbsolute_def)

lemma resolveAgainst_good:
  "isAbsolute base \<Longrightarrow> \<not> isHomeRooted path \<Longrightarrow> goodDir (resolveAgainst base path)"
  by (simp add: resolveAgainst_def)

lemma startsWith_slash: "startsWith path ''/'' = isAbsolute path"
  by (simp add: isAbsolute_def separator_def)

lemma absolute_not_home: "isAbsolute path \<Longrightarrow> \<not> isHomeRooted path"
  by (cases path) (auto simp: isAbsolute_def isHomeRooted_def separator_def)

lemma home_starts_tilde: "isHomeRooted path \<Longrightarrow> startsWith path ''~''"
  by (auto simp: isHomeRooted_def prefix_def)

lemma joinPath_good: "goodCwd base \<Longrightarrow> goodCwd (joinPath base path)"
proof -
  have "isAbsolute ''/''" by (simp add: isAbsolute_def separator_def)
  then show "goodCwd base \<Longrightarrow> goodCwd (joinPath base path)"
    using home_starts_tilde [of path] absolute_not_home [of path]
      resolveAgainst_good [of "''/''" path] resolveAgainst_good [of "the base" path]
    by (cases base) (auto simp: joinPath_def startsWith_slash goodDir_absolute)
qed

lemma parentOf_good: "goodDir d \<Longrightarrow> goodCwd (parentOf d)"
  using parentOf_abs_parts [of d]
  by (cases "parentOf d") (simp_all add: goodDir_def)

lemma cwdForSegment_good: "goodCwd incoming \<Longrightarrow> goodCwd (cwdForSegment incoming program values)"
proof -
  assume good: "goodCwd incoming"
  define base where "base = (case values ''-C'' of None \<Rightarrow> incoming | Some r \<Rightarrow> joinPath incoming r)"
  have base: "goodCwd base" using good joinPath_good by (simp add: base_def split: option.split)
  have "goodCwd (case joinPath base gitDir of None \<Rightarrow> None | Some d \<Rightarrow>
      if basenameOf d \<noteq> ''.git'' then base else parentOf d)" for gitDir
    using base joinPath_good [OF base, of gitDir] parentOf_good by (auto split: option.split)
  then show ?thesis
    using good base joinPath_good
    by (auto simp: cwdForSegment_def Let_def simp flip: base_def split: option.split)
qed

lemma cwdAfterSegment_good:
  "goodCwd incoming \<Longrightarrow> goodCwd (cwdAfterSegment incoming program operands literal)"
  using joinPath_good by (auto simp: cwdAfterSegment_def split: list.split)

end
