(* ===== verification/Read_Command.thy ===== *)
theory Read_Command
  imports Reading Assignments Cwd
begin

text \<open>
  \<open>policy/classifier/command/read-command.ts\<close>: a command line read into simple commands, each with its
  directory, descending into inline scripts up to \<open>maximumScriptNesting\<close> levels. \<open>readWithin\<close> and its
  loop over the segments are two mutually recursive functions; they stop because a nested script is
  only read below the maximum depth.
\<close>

section \<open>Building one segment\<close>

text \<open>\<open>/^[A-Za-z][A-Za-z0-9+.-]*:\/\//\<close>.\<close>

definition isUri :: "string \<Rightarrow> bool" where
  "isUri s \<longleftrightarrow>
     (case s of
        [] \<Rightarrow> False
      | c # cs \<Rightarrow> is_alpha c \<and>
          startsWith (dropWhile (\<lambda>x. is_alpha x \<or> is_digit x \<or> x \<in> set ''+.-'') cs) ''://'')"

definition expansionsOf :: "lexed_token list \<Rightarrow> string list" where
  "expansionsOf tokens =
     uniq (map (\<lambda>e. case exp_kind e of Variable \<Rightarrow> CHR ''$'' # exp_text e
                  | Substitution \<Rightarrow> exp_text e)
       (concat (map tok_expansions tokens)))"

definition resolveOperand :: "string option \<Rightarrow> lexed_token \<Rightarrow> string" where
  "resolveOperand cwd token =
     (case cwd of
        None \<Rightarrow> tok_text token
      | Some dir \<Rightarrow>
          if tok_isHeredocBody token then tok_text token
          else if tok_expansions token \<noteq> [] then tok_text token
          else if tok_text token = '''' then tok_text token
          else if startsWith (tok_text token) ''-'' then tok_text token
          else if isUri (tok_text token) then tok_text token
          else resolveAgainst dir (tok_text token))"

fun meaningfulWords :: "lexed_token list \<Rightarrow> lexed_token list" where
  "meaningfulWords [] = []"
| "meaningfulWords (word # words) =
     (if tok_isHeredocBody word then word # words
      else if \<not> isAssignment (tok_text word) \<and> tok_text word \<notin> set segmentIntroducers
      then word # words
      else meaningfulWords words)"

definition keywordSegment ::
  "string \<Rightarrow> lexed_token list \<Rightarrow> string option \<Rightarrow> string list \<Rightarrow> e_segment_join option \<Rightarrow> built_segment" where
  "keywordSegment program words incoming unresolved j =
     \<lparr>bs_segment = \<lparr>cs_program = program, cs_verb = None, cs_flags = [], cs_operands = [],
        cs_rawOperands = map tok_text (drop 1 words), cs_cwd = incoming, cs_redirectsInto = [],
        cs_pipesIntoInterpreter = False, cs_unresolvedExpansions = unresolved\<rparr>,
      bs_join = j, bs_readable = False, bs_unresolvedOperand = False\<rparr>"

text \<open>The segment of an ordinary program, before an inline script's operands are left raw.\<close>

definition draftSegment ::
  "string \<Rightarrow> argument_split \<Rightarrow> string option \<Rightarrow> lexed_token list \<Rightarrow> string list \<Rightarrow> command_segment" where
  "draftSegment program split cwd targets unresolved =
     \<lparr>cs_program = program, cs_verb = arg_verb split, cs_flags = arg_flags split,
      cs_operands = map (resolveOperand cwd) (arg_operands split),
      cs_rawOperands = map tok_text (arg_operands split), cs_cwd = cwd,
      cs_redirectsInto = map (resolveOperand cwd) targets,
      cs_pipesIntoInterpreter = False, cs_unresolvedExpansions = unresolved\<rparr>"

definition buildSegment :: "string option \<Rightarrow> token_segment \<Rightarrow> built_segment option" where
  "buildSegment incoming tokenSegment =
     (let words = meaningfulWords (seg_words tokenSegment) in
      case words of
        [] \<Rightarrow> None
      | head # arguments \<Rightarrow>
          if tok_text head \<in> set blockTerminators then None
          else
            let program = tok_text head;
                targets = seg_redirectTargets tokenSegment;
                unresolved = expansionsOf (words @ targets)
            in
            if program \<in> set shellKeywords then
              Some (keywordSegment program words incoming unresolved (seg_joinToNext tokenSegment))
            else
              let split = splitArguments program arguments;
                  cwd = cwdForSegment incoming program (arg_flagValues split);
                  draft = draftSegment program split cwd targets unresolved
              in
              Some \<lparr>bs_segment = (if runsAnInlineScript draft
                       then draft\<lparr>cs_operands := cs_rawOperands draft\<rparr> else draft),
                    bs_join = seg_joinToNext tokenSegment,
                    bs_readable = (cwd \<noteq> None \<and> unresolved = []),
                    bs_unresolvedOperand =
                      (\<exists>t \<in> set (arg_operands split @ targets). tok_expansions t \<noteq> [])\<rparr>)"

definition pipesFetched :: "built_segment \<Rightarrow> built_segment option \<Rightarrow> bool" where
  "pipesFetched entry following \<longleftrightarrow>
     bs_join entry = Some JPipe \<and> effectiveProgram (bs_segment entry) \<in> set fetchers \<and>
     (case following of None \<Rightarrow> False
      | Some n \<Rightarrow> effectiveProgram (bs_segment n) \<in> set interpreters)"

fun markInterpreterPipes :: "built_segment list \<Rightarrow> built_segment list" where
  "markInterpreterPipes [] = []"
| "markInterpreterPipes (entry # rest) =
     (if pipesFetched entry (at rest 0)
      then entry\<lparr>bs_segment := (bs_segment entry)\<lparr>cs_pipesIntoInterpreter := True\<rparr>\<rparr>
      else entry) # markInterpreterPipes rest"

definition inlineScriptOf :: "built_segment \<Rightarrow> nat \<Rightarrow> string option" where
  "inlineScriptOf entry depth =
     (if depth \<ge> maximumScriptNesting then None
      else if \<not> runsAnInlineScript (bs_segment entry) then None
      else if bs_unresolvedOperand entry then None
      else at (cs_rawOperands (bs_segment entry)) 0)"

text \<open>The two \<open>while\<close> loops over \<open>scopes\<close>: pop to \<open>depth + 1\<close> directories, or push copies of the top.\<close>

definition adjustScopes :: "nat \<Rightarrow> string option list \<Rightarrow> string option list" where
  "adjustScopes depth scopes =
     (let kept = take (depth + 1) scopes in kept @ replicate (depth + 1 - length kept) (last kept))"

definition scopesAfter :: "token_segment \<Rightarrow> string option list \<Rightarrow> string option list" where
  "scopesAfter tokenSegment scopes =
     (case meaningfulWords (seg_words tokenSegment) of
        [] \<Rightarrow> scopes
      | head # arguments \<Rightarrow>
          butlast scopes @
            [cwdAfterSegment (last scopes) (tok_text head) (map tok_text arguments)
               (\<forall>t \<in> set arguments. tok_expansions t = [])])"

text \<open>The survey pass finds the assignments, the second pass lexes with them resolved.\<close>

definition surveyAssignments :: "string \<Rightarrow> assignments" where
  "surveyAssignments command =
     assignmentsVisibleAcross (splitSegments (lex_tokens (lexCommand None command)))"

definition lexResolved :: "string \<Rightarrow> lex_result" where
  "lexResolved command = lexCommand (Some (surveyAssignments command)) command"

section \<open>Reading a command\<close>

lemma inlineScriptOf_depth: "inlineScriptOf entry depth = Some script \<Longrightarrow> depth < maximumScriptNesting"
  by (auto simp: inlineScriptOf_def split: if_splits)

function (sequential) readWithin :: "string \<Rightarrow> string option \<Rightarrow> nat \<Rightarrow> built_segment list \<times> bool"
  and readSegments ::
    "string option list \<Rightarrow> token_segment list \<Rightarrow> nat \<Rightarrow> built_segment list \<times> bool" where
  "readWithin command startingCwd depth =
     (let lexed = lexResolved command in
      case readSegments [startingCwd] (splitSegments (lex_tokens lexed)) depth of
        (built, unterminated) \<Rightarrow>
          (markInterpreterPipes built, lex_unterminated lexed \<or> unterminated))"
| "readSegments scopes [] depth = ([], False)"
| "readSegments scopes (tokenSegment # segments) depth =
     (let here = adjustScopes (seg_depth tokenSegment) scopes;
          entry = buildSegment (last here) tokenSegment;
          nested = Option.bind entry (\<lambda>e. inlineScriptOf e depth);
          inner = (case nested of
                     None \<Rightarrow> ([], False)
                   | Some script \<Rightarrow>
                       readWithin script (cs_cwd (bs_segment (the entry))) (depth + 1));
          later = readSegments (scopesAfter tokenSegment here) segments depth
      in (option_list entry @ fst inner @ fst later, snd inner \<or> snd later))"
  by pat_completeness auto

termination
proof (relation "measures [\<lambda>x. case x of Inl (c, w, d) \<Rightarrow> maximumScriptNesting - d
      | Inr (sc, segs, d) \<Rightarrow> maximumScriptNesting - d,
    \<lambda>x. case x of Inl _ \<Rightarrow> 1 | Inr _ \<Rightarrow> 0,
    \<lambda>x. case x of Inl _ \<Rightarrow> 0 | Inr (sc, segs, d) \<Rightarrow> length segs]", goal_cases)
  case (3 scopes tokenSegment segments depth x y z script)
  then have "Option.bind y (\<lambda>e. inlineScriptOf e depth) = Some script" by simp
  then have "depth < maximumScriptNesting"
    using inlineScriptOf_depth by (auto simp: Option.bind_eq_Some_conv)
  then show ?case by simp
qed auto

definition decideConfidence :: "built_segment list \<Rightarrow> bool \<Rightarrow> e_read_confidence" where
  "decideConfidence built unterminated =
     (if unterminated then Conf_Opaque
      else if \<exists>e \<in> set built. cs_program (bs_segment e) = ''eval'' then Conf_Opaque
      else if \<exists>e \<in> set built. bs_unresolvedOperand e \<and>
          (destroysItsOperands (bs_segment e) \<or> runsAnInlineScript (bs_segment e)) then Conf_Opaque
      else if \<forall>e \<in> set built. bs_readable e then Conf_Read
      else Conf_Partial)"

definition readCommand :: "string \<Rightarrow> string option \<Rightarrow> string \<Rightarrow> command_reading" where
  "readCommand command workdir projectDirectory =
     (let project = normalisePath projectDirectory;
          startingCwd = (case workdir of None \<Rightarrow> project | Some w \<Rightarrow> resolveAgainst project w)
      in case readWithin command (Some startingCwd) 0 of
        (built, unterminated) \<Rightarrow>
          \<lparr>cr_confidence = decideConfidence built unterminated,
            cr_segments = map bs_segment built,
            cr_command = command\<rparr>)"

declare readWithin.simps [simp del] readSegments.simps [simp del]

end
