(* ===== verification/Verbs_View.thy ===== *)
theory Verbs_View
  imports Reading Assignments Deed
begin

text \<open>
  \<open>policy/classifier/command/verbs/view.ts\<close>: a simple command seen through its wrappers, and the
  interface of the verb tables that turn a view into a deed.
\<close>

section \<open>Data\<close>

record deed_sketch =
  sk_action :: e_deed
  sk_targets :: "deed_target list"
  sk_summary :: string

record command_word =
  cw_raw :: string
  cw_path :: string

record command_view =
  v_program :: string
  v_words :: "command_word list"
  v_flags :: "string set"
  v_cwd :: "string option"
  v_redirectsInto :: "string list"

type_synonym verb_table = "command_view \<Rightarrow> deed_sketch option"

section \<open>The view\<close>

text \<open>\<open>/^\d+(\.\d+)?[smhd]?$/\<close>.\<close>

definition isDuration :: "string \<Rightarrow> bool" where
  "isDuration s \<longleftrightarrow>
     (let rest = dropWhile is_digit s;
          unit = (case rest of
                    [] \<Rightarrow> []
                  | c # r \<Rightarrow> if c = CHR ''.'' \<and> takeWhile is_digit r \<noteq> [] then dropWhile is_digit r
                             else rest)
      in takeWhile is_digit s \<noteq> [] \<and>
         (unit = [] \<or> length unit = 1 \<and> hd unit \<in> set ''smhd''))"

definition namesAProgram :: "command_word \<Rightarrow> bool" where
  "namesAProgram word \<longleftrightarrow> \<not> isAssignment (cw_raw word) \<and> \<not> isDuration (cw_raw word)"

definition wordsOfSegment :: "command_segment \<Rightarrow> command_word list" where
  "wordsOfSegment segment =
     (let raws = option_list (cs_verb segment) @ cs_rawOperands segment;
          paths = option_list (cs_verb segment) @ cs_operands segment
      in map (\<lambda>(index, raw). \<lparr>cw_raw = raw,
               cw_path = (case at paths index of None \<Rightarrow> raw | Some p \<Rightarrow> p)\<rparr>)
           (enumerate 0 raws))"

text \<open>The loop that looks through wrappers: each round drops the words up to the program it names.\<close>

function unwrap :: "string \<Rightarrow> command_word list \<Rightarrow> string \<times> command_word list" where
  "unwrap program words =
     (if program \<notin> set wrappers then (program, words)
      else (case dropWhile (\<lambda>w. \<not> namesAProgram w) words of
          [] \<Rightarrow> (program, words)
        | head # after \<Rightarrow> unwrap (cw_raw head) after))"
  by pat_completeness auto
termination
  by (relation "measure (\<lambda>(_, words). length words)")
    (auto, metis Suc_le_lessD length_Cons length_dropWhile_le)

declare unwrap.simps [simp del]

definition viewOf :: "command_segment \<Rightarrow> command_view" where
  "viewOf segment =
     (case unwrap (cs_program segment) (wordsOfSegment segment) of
        (program, words) \<Rightarrow>
          \<lparr>v_program = program, v_words = words, v_flags = set (cs_flags segment),
           v_cwd = cs_cwd segment, v_redirectsInto = cs_redirectsInto segment\<rparr>)"

definition verbOf :: "command_view \<Rightarrow> string option" where
  "verbOf view = map_option cw_raw (at (v_words view) 0)"

definition subverbOf :: "command_view \<Rightarrow> string option" where
  "subverbOf view = map_option cw_raw (at (v_words view) 1)"

definition anyFlag :: "command_view \<Rightarrow> string list \<Rightarrow> bool" where
  "anyFlag view flags \<longleftrightarrow> (\<exists>flag \<in> set flags. flag \<in> v_flags view)"

definition hasFlag :: "command_view \<Rightarrow> string \<Rightarrow> bool" where
  "hasFlag view flag \<longleftrightarrow> flag \<in> v_flags view"

definition target :: "e_deed_realm \<Rightarrow> string \<Rightarrow> deed_target" where
  "target realm value = \<lparr>dt_realm = realm, dt_value = value\<rparr>"

definition pathTargets :: "command_word list \<Rightarrow> deed_target list" where
  "pathTargets words = map (\<lambda>word. target RPath (cw_path word)) words"

definition refTargets :: "command_word list \<Rightarrow> deed_target list" where
  "refTargets words = map (\<lambda>word. target RGitRef (cw_raw word)) words"

definition worktreeTarget :: "command_view \<Rightarrow> deed_target" where
  "worktreeTarget view = target RGitWorktree (case v_cwd view of None \<Rightarrow> ''.'' | Some c \<Rightarrow> c)"

definition sketch :: "e_deed \<Rightarrow> deed_target list \<Rightarrow> string \<Rightarrow> deed_sketch" where
  "sketch action targets summary =
     \<lparr>sk_action = action, sk_targets = targets, sk_summary = summary\<rparr>"

definition readOnly :: "string \<Rightarrow> deed_sketch" where
  "readOnly summary = sketch ReadOnly [] summary"

definition routine :: "string \<Rightarrow> deed_sketch" where
  "routine summary = sketch Routine [] summary"

text \<open>\<open>table.get(key)?.has(member) === true\<close>, for the tables of verbs by program.\<close>

definition tableHas :: "(string \<times> string list) list \<Rightarrow> string \<Rightarrow> string \<Rightarrow> bool" where
  "tableHas table key member \<longleftrightarrow>
     (case map_of table key of None \<Rightarrow> False | Some members \<Rightarrow> member \<in> set members)"

lemmas sketch_defs = sketch_def readOnly_def routine_def

lemma sketch_simps [simp]:
  "sk_action (sketch a ts s) = a" "sk_targets (sketch a ts s) = ts" "sk_summary (sketch a ts s) = s"
  "sk_action (readOnly s) = ReadOnly" "sk_targets (readOnly s) = []" "sk_summary (readOnly s) = s"
  "sk_action (routine s) = Routine" "sk_targets (routine s) = []" "sk_summary (routine s) = s"
  by (simp_all add: sketch_defs)

lemma target_simps [simp]: "dt_realm (target r v) = r" "dt_value (target r v) = v"
  by (simp_all add: target_def)

text \<open>Unwrapping stops at a program that wraps nothing, or at a wrapper that names no program.\<close>

lemma unwrap_stops:
  "unwrap program words = (p, ws) \<Longrightarrow> p \<notin> set wrappers \<or> (\<forall>w \<in> set ws. \<not> namesAProgram w)"
proof (induction program words rule: unwrap.induct)
  case (1 program words)
  show ?case
  proof (cases "program \<in> set wrappers")
    case False
    then show ?thesis using "1.prems" by (simp add: unwrap.simps [of program])
  next
    case True
    show ?thesis
    proof (cases "dropWhile (\<lambda>w. \<not> namesAProgram w) words")
      case Nil
      have "ws = words"
        using "1.prems" True by (simp add: unwrap.simps [of program] Nil del: dropWhile_eq_Nil_conv)
      with Nil show ?thesis by (simp add: dropWhile_eq_Nil_conv)
    next
      case (Cons head after)
      then have "unwrap (cw_raw head) after = (p, ws)"
        using "1.prems" True by (simp add: unwrap.simps [of program])
      then show ?thesis using "1.IH" True Cons by simp
    qed
  qed
qed

lemma unwrap_plain: "program \<notin> set wrappers \<Longrightarrow> unwrap program words = (program, words)"
  by (simp add: unwrap.simps)

section \<open>The interface of a verb table\<close>

text \<open>What the classifier relies on: a table that recognises a command says something readable
  about it.\<close>

locale verb_table =
  fixes table :: verb_table
  assumes readable: "table view = Some s \<Longrightarrow> sk_action s \<noteq> Unreadable"

end
