(* ===== verification/Verbs_Git.thy ===== *)
theory Verbs_Git
  imports Verbs_View
begin

text \<open>
  \<open>policy/classifier/command/verbs/git-tree.ts\<close>, \<open>git-refs.ts\<close> and \<open>git.ts\<close>: what a git command does to
  the working tree, the refs and the remote. Each handler takes the view of the command.
\<close>

type_synonym git_handler = "command_view \<Rightarrow> deed_sketch option"

section \<open>Working-tree handlers\<close>

definition wholeTreeSpecs :: "string list" where
  "wholeTreeSpecs = [''.'', '':/'', ''*'']"

definition readOnlyStashVerbs :: "string list" where
  "readOnlyStashVerbs = [''list'', ''show'']"

definition stashVerbsThatLoseWork :: "string list" where
  "stashVerbsThatLoseWork = [''drop'', ''clear'']"

definition restOf :: "command_view \<Rightarrow> command_word list" where
  "restOf view = drop 1 (v_words view)"

definition applyToTree :: "string \<Rightarrow> git_handler" where
  "applyToTree summary view = Some (sketch WriteFile [worktreeTarget view] summary)"

definition pathspecTargets :: "command_view \<Rightarrow> deed_target list" where
  "pathspecTargets view =
     (let specs = restOf view in
      if specs = [] then [worktreeTarget view]
      else if \<exists>word \<in> set specs. cw_raw word \<in> set wholeTreeSpecs \<or> v_cwd view = Some (cw_path word)
      then [worktreeTarget view]
      else pathTargets specs)"

definition discards :: "command_view \<Rightarrow> bool" where
  "discards view \<longleftrightarrow>
     (if verbOf view = Some ''restore'' then \<not> hasFlag view ''--staged'' else hasFlag view ''--'')"

definition checkout :: git_handler where
  "checkout view = Some
     (if discards view then
        sketch DiscardWorkingTree (pathspecTargets view)
          ''discards uncommitted changes in the working tree''
      else sketch WriteFile (worktreeTarget view # refTargets (restOf view))
          ''moves the working tree to another commit'')"

definition reset :: git_handler where
  "reset view = Some
     (if \<not> hasFlag view ''--hard'' then
        sketch WriteFile [worktreeTarget view] ''moves the branch pointer and the index''
      else sketch DiscardWorkingTree (worktreeTarget view # refTargets (restOf view))
          ''discards every uncommitted change in the working tree'')"

definition clean :: git_handler where
  "clean view = Some
     (if anyFlag view [''-n'', ''--dry-run''] then readOnly ''lists what a clean would remove''
      else sketch CleanUntracked (pathspecTargets view) ''removes untracked files'')"

definition subverbIn :: "command_view \<Rightarrow> string list \<Rightarrow> bool" where
  "subverbIn view verbs \<longleftrightarrow> (case subverbOf view of None \<Rightarrow> False | Some v \<Rightarrow> v \<in> set verbs)"

definition stash :: git_handler where
  "stash view =
     (if subverbIn view readOnlyStashVerbs then Some (readOnly ''reads the stash stack'')
      else if subverbIn view stashVerbsThatLoseWork then
        Some (sketch MutateStash [worktreeTarget view]
          ''discards an entry from the repository-wide stash stack'')
      else applyToTree ''moves uncommitted changes between the tree and the stash stack'' view)"

definition pull :: git_handler where
  "pull view =
     (if hasFlag view ''--ff-only'' then
        Some (sketch FastForward [worktreeTarget view]
          ''fast-forwards the branch, merging and discarding nothing'')
      else applyToTree ''merges remote commits into the working tree'' view)"

definition commit :: git_handler where
  "commit view =
     (if hasFlag view ''--dry-run'' then Some (readOnly ''reports what a commit would record'')
      else if hasFlag view ''--amend'' then
        Some (sketch RewriteHistory [worktreeTarget view] ''replaces the last commit'')
      else applyToTree ''records a commit'' view)"

definition removeTracked :: git_handler where
  "removeTracked view = Some
     (sketch (if hasFlag view ''--cached'' then WriteFile else RemovePath)
        (pathTargets (restOf view)) ''removes tracked files'')"

definition moveTracked :: git_handler where
  "moveTracked view = Some (sketch WriteFile (pathTargets (restOf view)) ''moves tracked files'')"

section \<open>Ref handlers\<close>

definition rebaseControlFlags :: "string list" where
  "rebaseControlFlags = [''--abort'', ''--continue'', ''--skip'', ''--quit'', ''--edit-todo'']"

definition readOnlyWorktreeVerbs :: "string list" where
  "readOnlyWorktreeVerbs = [''list'', ''prune'', ''lock'', ''unlock'', ''repair'']"

definition readOnlyConfigFlags :: "string list" where
  "readOnlyConfigFlags = [''--get'', ''--get-all'', ''--get-regexp'', ''--list'', ''-l'']"

definition branch :: git_handler where
  "branch view =
     (let named = restOf view in Some
      (if anyFlag view [''-D'', ''-d'', ''--delete''] then
         sketch DeleteBranch (refTargets named) ''deletes a branch''
       else if named = [] then readOnly ''lists branches''
       else sketch WriteFile (refTargets named) ''creates or moves a branch''))"

definition forceFlags :: "string list" where
  "forceFlags = [''-f'', ''--force'', ''--force-with-lease'', ''--force-if-includes'']"

definition pushTargets :: "command_view \<Rightarrow> deed_target list" where
  "pushTargets view =
     (let words = restOf view in
      (case at words 0 of None \<Rightarrow> [] | Some remote \<Rightarrow> [target RRemote (cw_raw remote)]) @
      refTargets (drop 1 words))"

definition push :: git_handler where
  "push view = Some
     (if hasFlag view ''--dry-run'' then readOnly ''reports what a push would send''
      else if anyFlag view [''--delete'', ''-d''] then
        sketch DeleteBranch (pushTargets view) ''deletes a branch on the remote''
      else if anyFlag view forceFlags \<or>
          (\<exists>word \<in> set (drop 1 (restOf view)). startsWith (cw_raw word) ''+'') then
        sketch ForcePush (pushTargets view) ''overwrites a branch on the remote''
      else sketch Routine (pushTargets view) ''publishes commits to a remote'')"

definition rebase :: git_handler where
  "rebase view =
     (if anyFlag view rebaseControlFlags then
        applyToTree ''resumes or abandons a rebase in progress'' view
      else Some (sketch RewriteHistory (worktreeTarget view # refTargets (restOf view))
        ''rewrites local commits onto another base''))"

definition worktree :: git_handler where
  "worktree view =
     (case subverbOf view of
        None \<Rightarrow> Some (readOnly ''lists worktrees'')
      | Some verb \<Rightarrow>
          if verb \<in> set readOnlyWorktreeVerbs then
            Some (readOnly ''reads or tidies worktree bookkeeping'')
          else
            let targets = (case at (v_words view) 2 of None \<Rightarrow> []
                           | Some named \<Rightarrow> [target RGitWorktree (cw_path named)]) in
            if verb = ''remove'' then Some (sketch RemoveWorktree targets ''removes a worktree'')
            else if verb = ''add'' then Some (sketch AddWorktree targets ''creates a worktree'')
            else if verb = ''move'' then Some (sketch WriteFile targets ''moves a worktree'')
            else None)"

definition reflog :: git_handler where
  "reflog view = Some
     (if subverbOf view \<noteq> Some ''expire'' \<and> subverbOf view \<noteq> Some ''delete'' then
        readOnly ''reads the reflog''
      else sketch DropRecovery [worktreeTarget view]
        ''drops the reflog entries that make commits recoverable'')"

definition collectGarbage :: git_handler where
  "collectGarbage view = Some
     (if \<not> hasFlag view ''--prune'' then routine ''repacks the object store''
      else sketch DropRecovery [worktreeTarget view]
        ''prunes the unreachable objects that make lost commits recoverable'')"

definition rewriteEveryCommit :: git_handler where
  "rewriteEveryCommit view = Some (sketch RewriteHistory [worktreeTarget view]
     ''rewrites every commit in the repository'')"

definition config :: git_handler where
  "config view =
     (if anyFlag view readOnlyConfigFlags then Some (readOnly ''reads git configuration'')
      else if length (restOf view) < 2 then Some (readOnly ''reads git configuration'')
      else applyToTree ''writes git configuration'' view)"

definition remote :: git_handler where
  "remote view = Some
     (case subverbOf view of
        None \<Rightarrow> readOnly ''lists remotes''
      | Some verb \<Rightarrow>
          if verb = ''show'' \<or> verb = ''get-url'' then readOnly ''lists remotes''
          else sketch WriteFile
            [target RRemote (case at (v_words view) 2 of None \<Rightarrow> '''' | Some w \<Rightarrow> cw_raw w)]
            ''changes which remote the repository tracks'')"

definition tag :: git_handler where
  "tag view =
     (let named = restOf view in Some
      (if anyFlag view [''-d'', ''--delete''] then
         sketch DeleteBranch (refTargets named) ''deletes a tag''
       else if named = [] \<or> anyFlag view [''-l'', ''--list''] then readOnly ''lists tags''
       else sketch WriteFile (refTargets named) ''creates a tag''))"

lemmas git_handler_defs = applyToTree_def checkout_def reset_def clean_def stash_def pull_def
  commit_def removeTracked_def moveTracked_def branch_def push_def rebase_def worktree_def
  reflog_def collectGarbage_def rewriteEveryCommit_def config_def remote_def tag_def

section \<open>The table\<close>

definition gitReadOnlyVerbs :: "string list" where
  "gitReadOnlyVerbs = [''annotate'', ''blame'', ''bugreport'', ''cat-file'', ''check-attr'',
     ''check-ignore'', ''cherry'', ''count-objects'', ''describe'', ''diff'', ''diff-tree'',
     ''fetch'', ''for-each-ref'', ''fsck'', ''grep'', ''help'', ''log'', ''ls-files'',
     ''ls-remote'', ''ls-tree'', ''merge-base'', ''name-rev'', ''range-diff'', ''rev-list'',
     ''rev-parse'', ''shortlog'', ''show'', ''show-branch'', ''show-ref'', ''status'',
     ''symbolic-ref'', ''var'', ''verify-commit'', ''version'', ''whatchanged'']"

definition bareVerbsThatOnlyReport :: "string list" where
  "bareVerbsThatOnlyReport = [''checkout'', ''restore'']"

definition gitHandlers :: "string \<Rightarrow> git_handler option" where
  "gitHandlers = map_of
    [(''add'', \<lambda>view. Some (routine ''stages changes for the next commit'')),
     (''am'', applyToTree ''applies a mailbox of patches''),
     (''apply'', applyToTree ''applies a patch to the working tree''),
     (''branch'', branch),
     (''checkout'', checkout),
     (''cherry-pick'', applyToTree ''replays a commit onto this branch''),
     (''clean'', clean),
     (''clone'', applyToTree ''clones a repository''),
     (''commit'', commit),
     (''config'', config),
     (''filter-branch'', rewriteEveryCommit),
     (''filter-repo'', rewriteEveryCommit),
     (''gc'', collectGarbage),
     (''init'', applyToTree ''initialises a repository''),
     (''merge'', applyToTree ''merges another commit into the working tree''),
     (''mv'', moveTracked),
     (''pull'', pull),
     (''push'', push),
     (''rebase'', rebase),
     (''reflog'', reflog),
     (''remote'', remote),
     (''reset'', reset),
     (''restore'', checkout),
     (''revert'', applyToTree ''records a commit undoing another''),
     (''rm'', removeTracked),
     (''stash'', stash),
     (''switch'', applyToTree ''moves the working tree to another branch''),
     (''tag'', tag),
     (''worktree'', worktree)]"

definition gitVerbs :: verb_table where
  "gitVerbs view =
     (if v_program view \<noteq> ''git'' then None
      else (case verbOf view of
          None \<Rightarrow> Some (readOnly ''reports git usage'')
        | Some verb \<Rightarrow>
            let reads = readOnly (''reads repository state (git '' @ verb @ '')'') in
            if verb \<in> set gitReadOnlyVerbs then Some reads
            else
              let bare = (restOf view = [] \<and> v_flags view = {}) in
              if bare \<and> verb \<in> set bareVerbsThatOnlyReport then Some reads
              else (case gitHandlers verb of None \<Rightarrow> None | Some handler \<Rightarrow> handler view)))"

lemma gitHandlers_readable:
  "gitHandlers verb = Some handler \<Longrightarrow> handler view = Some s \<Longrightarrow> sk_action s \<noteq> Unreadable"
  unfolding gitHandlers_def
  by (drule map_of_SomeD)
    (auto simp: git_handler_defs Let_def split: if_splits option.splits)

interpretation git: verb_table gitVerbs
  by unfold_locales
    (auto simp: gitVerbs_def Let_def dest: gitHandlers_readable split: if_splits option.splits)

end
