(* ===== verification/Verbs_Filesystem.thy ===== *)
theory Verbs_Filesystem
  imports Verbs_View
begin

text \<open>
  \<open>policy/classifier/command/verbs/filesystem.ts\<close>: the programs that remove, move or write files, and
  the targets a command redirects its output into.
\<close>

definition removingPrograms :: "string list" where
  "removingPrograms =
    [''rm'', ''rmdir'', ''unlink'', ''shred'', ''truncate'']"

definition writingPrograms :: "string list" where
  "writingPrograms =
    [''cp'', ''ln'', ''mkdir'', ''touch'', ''tee'', ''install'', ''dd'']"

definition permissionPrograms :: "string list" where
  "permissionPrograms =
    [''chmod'', ''chown'', ''chgrp'']"

definition destructiveWordsInsideFind :: "string list" where
  "destructiveWordsInsideFind =
    [''rm'', ''rmdir'', ''shred'', ''unlink'', ''mv'', ''truncate'']"

definition findExecFlags :: "string list" where
  "findExecFlags =
    [''-exec'', ''-execdir'', ''-ok'', ''-okdir'']"

definition discardedRedirects :: "string list" where
  "discardedRedirects =
    [''/dev/null'', ''/dev/stdout'', ''/dev/stderr'']"

definition firstWordOrCwd :: "command_view \<Rightarrow> command_word list" where
  "firstWordOrCwd view =
     (case at (v_words view) 0 of
        Some head \<Rightarrow> [head]
      | None \<Rightarrow> (case v_cwd view of
            None \<Rightarrow> []
          | Some cwd \<Rightarrow> [\<lparr>cw_raw = cwd, cw_path = cwd\<rparr>]))"

definition findSketch :: "command_view \<Rightarrow> deed_sketch option" where
  "findSketch view =
     (if hasFlag view ''-delete'' then
        Some (sketch RemovePath (pathTargets (firstWordOrCwd view))
          ''deletes every matching file below a directory'')
      else if \<not> anyFlag view findExecFlags then None
      else if \<not> (\<exists>word \<in> set (v_words view). cw_raw word \<in> set destructiveWordsInsideFind) then None
      else Some (sketch RemovePath (pathTargets (firstWordOrCwd view))
        ''runs a removing command over every match below a directory''))"

definition inPlaceEdit :: "command_view \<Rightarrow> deed_sketch option" where
  "inPlaceEdit view =
     (if \<not> anyFlag view [''-i'', ''--in-place''] then None
      else Some (sketch WriteFile (pathTargets (drop 1 (v_words view))) ''rewrites files in place''))"

definition redirectTargets :: "command_view \<Rightarrow> deed_target list" where
  "redirectTargets view =
     map (target RPath)
       (filter (\<lambda>t. t \<notin> set discardedRedirects) (v_redirectsInto view))"

definition filesystemVerbs :: verb_table where
  "filesystemVerbs view =
     (let program = v_program view; words = v_words view in
      if program = ''find'' then findSketch view
      else if program = ''sed'' \<or> program = ''perl'' then inPlaceEdit view
      else if program \<in> set removingPrograms then
        Some (sketch RemovePath (pathTargets words) ''removes files'')
      else if program = ''mv'' then
        Some (sketch RemovePath (pathTargets words) ''moves files, leaving nothing at the source'')
      else if program = ''rsync'' then
        let destination = last_n 1 words in
        if hasFlag view ''--delete'' then
          Some (sketch RemovePath (pathTargets destination)
            ''mirrors a directory, deleting whatever the source lacks'')
        else Some (sketch WriteFile (pathTargets destination) ''copies files into a directory'')
      else if program \<in> set permissionPrograms then
        Some (sketch WriteFile (pathTargets (drop 1 words)) ''changes file permissions or ownership'')
      else if program \<in> set writingPrograms then
        let destination =
          (if program = ''cp'' \<or> program = ''install'' then last_n 1 words else words) in
        Some (sketch WriteFile (pathTargets destination) ''writes files'')
      else None)"

interpretation filesystem: verb_table filesystemVerbs
  by unfold_locales
    (auto simp: filesystemVerbs_def findSketch_def inPlaceEdit_def Let_def split: if_splits)

text \<open>A removing program always yields a removal of every operand.\<close>

lemma filesystemVerbs_removing:
  "v_program view \<in> set removingPrograms \<Longrightarrow>
     filesystemVerbs view = Some (sketch RemovePath (pathTargets (v_words view)) ''removes files'')"
  by (auto simp: filesystemVerbs_def removingPrograms_def)

end
