(* ===== verification/Verbs_Packages.thy ===== *)
theory Verbs_Packages
  imports Verbs_View
begin

text \<open>
  \<open>policy/classifier/command/verbs/packages.ts\<close>: the package managers that change the installed
  dependencies.
\<close>

definition packageManagers :: "string list" where
  "packageManagers =
    [''apt'', ''apt-get'', ''brew'', ''bun'', ''cargo'', ''composer'', ''deno'', ''gem'',
     ''go'', ''npm'', ''pip'', ''pip3'', ''pnpm'', ''poetry'', ''uv'', ''yarn'']"

definition mutatingVerbs :: "string list" where
  "mutatingVerbs =
    [''add'', ''ci'', ''dedupe'', ''get'', ''i'', ''install'', ''link'', ''patch'',
     ''prune'', ''rebuild'', ''remove'', ''rm'', ''uninstall'', ''un'', ''unlink'', ''up'',
     ''update'', ''upgrade'']"

definition readingPackageVerbs :: "string list" where
  "readingPackageVerbs =
    [''audit'', ''info'', ''licenses'', ''list'', ''ls'', ''outdated'', ''root'', ''search'',
     ''show'', ''view'', ''why'']"

definition readingManagerSubverbs :: "string list" where
  "readingManagerSubverbs =
    [''bin'', ''hash'', ''ls'', ''untrusted'', ''version'']"

definition packageTargets :: "command_view \<Rightarrow> deed_target list" where
  "packageTargets view =
     (let named = map (\<lambda>word. target RPackage (cw_raw word)) (drop 1 (v_words view)) in
      case v_cwd view of None \<Rightarrow> named | Some cwd \<Rightarrow> named @ [target RPath cwd])"

definition bunPackageManager :: "command_view \<Rightarrow> deed_sketch" where
  "bunPackageManager view =
     (if (case subverbOf view of None \<Rightarrow> True | Some verb \<Rightarrow> verb \<in> set readingManagerSubverbs)
      then readOnly ''reads package manager state''
      else sketch MutateDependencies (packageTargets view)
        ''changes which packages the workspace trusts or installs'')"

definition packageVerbs :: verb_table where
  "packageVerbs view =
     (if v_program view \<notin> set packageManagers then None
      else (case verbOf view of
          None \<Rightarrow> None
        | Some verb \<Rightarrow>
            if verb = ''pm'' then Some (bunPackageManager view)
            else if verb \<in> set readingPackageVerbs then
              Some (readOnly (''reads dependency state ('' @ v_program view @ '' '' @ verb @ '')''))
            else if verb \<notin> set mutatingVerbs then None
            else Some (sketch MutateDependencies (packageTargets view)
              ''changes the installed dependencies and the lockfile'')))"

interpretation packages: verb_table packageVerbs
  by unfold_locales
    (auto simp: packageVerbs_def bunPackageManager_def split: if_splits option.splits)

end
