(* ===== verification/Verbs_Network.thy ===== *)
theory Verbs_Network
  imports Verbs_View
begin

text \<open>
  \<open>policy/classifier/command/verbs/network.ts\<close>: the programs that reach a remote endpoint, a registry
  or a deployed environment. \<open>tableHas\<close> is \<open>table.get(key)?.has(member) === true\<close>.
\<close>

section \<open>Tables\<close>

definition bodyFlags :: "string list" where
  "bodyFlags =
    [''-d'', ''--data'', ''--data-raw'', ''--data-binary'', ''--data-urlencode'', ''--json'',
     ''-F'', ''--form'', ''-T'', ''--upload-file'', ''--post-data'']"

definition writingMethods :: "string list" where
  "writingMethods =
    [''POST'', ''PUT'', ''PATCH'', ''DELETE'']"

definition deployingVerbs :: "(string \<times> string list) list" where
  "deployingVerbs =
    [(''terraform'', [''apply'', ''destroy'', ''import'', ''taint'', ''untaint'', ''state'']),
     (''wrangler'', [''publish'', ''deploy'', ''delete'']),
     (''flyctl'', [''deploy'', ''destroy'', ''scale'']),
     (''fly'', [''deploy'', ''destroy'', ''scale'']),
     (''vercel'', [''deploy'', ''promote'', ''rollback'', ''remove'', ''rm'', ''alias'']),
     (''kubectl'', [''apply'', ''delete'', ''patch'', ''replace'', ''scale'', ''rollout'', ''drain'']),
     (''helm'', [''install'', ''upgrade'', ''uninstall'', ''rollback'', ''delete'']),
     (''heroku'', [''releases:rollback'', ''ps:scale''])]"

definition readingDeployVerbs :: "(string \<times> string list) list" where
  "readingDeployVerbs =
    [(''terraform'', [''plan'', ''show'', ''validate'', ''fmt'', ''output'', ''version'', ''providers'']),
     (''wrangler'', [''tail'', ''whoami'', ''dev'']),
     (''flyctl'', [''status'', ''logs'', ''list'']),
     (''fly'', [''status'', ''logs'', ''list'']),
     (''vercel'', [''ls'', ''list'', ''inspect'', ''logs'', ''whoami'', ''env'']),
     (''kubectl'', [''get'', ''describe'', ''logs'', ''explain'', ''config'', ''version'', ''top'']),
     (''helm'', [''list'', ''status'', ''get'', ''history'', ''search'', ''template''])]"

definition publishingVerbs :: "string list" where
  "publishingVerbs =
    [''publish'']"

definition readingGitHubVerbs :: "(string \<times> string list) list" where
  "readingGitHubVerbs =
    [(''pr'', [''view'', ''list'', ''diff'', ''checks'', ''status'']),
     (''issue'', [''view'', ''list'', ''status'']),
     (''run'', [''view'', ''list'', ''watch'', ''download'']),
     (''release'', [''view'', ''list'', ''download'']),
     (''repo'', [''view'', ''list'', ''clone'']),
     (''auth'', [''status'']),
     (''workflow'', [''view'', ''list''])]"

definition outboundGitHubVerbs :: "(string \<times> string list) list" where
  "outboundGitHubVerbs =
    [(''pr'', [''create'', ''comment'', ''edit'', ''review'', ''ready'', ''close'', ''reopen'']),
     (''issue'', [''create'', ''comment'', ''edit'', ''close'', ''reopen''])]"

definition publishingGitHubVerbs :: "(string \<times> string list) list" where
  "publishingGitHubVerbs =
    [(''release'', [''create'', ''upload'', ''edit'', ''delete''])]"

section \<open>The table\<close>

definition urlTargets :: "command_view \<Rightarrow> deed_target list" where
  "urlTargets view =
     map (\<lambda>word. target RRemote (cw_raw word))
       (filter (\<lambda>word. includesStr (cw_raw word) ''://'') (v_words view))"

definition transfer :: "command_view \<Rightarrow> deed_sketch" where
  "transfer view =
     (let method = List.find (\<lambda>word. cw_raw word \<in> set writingMethods) (v_words view);
          sends = (anyFlag view bodyFlags \<or> method \<noteq> None)
      in if \<not> sends then readOnly ''fetches a URL''
         else sketch SendOutbound (urlTargets view) ''sends data to a remote endpoint'')"

definition github :: "command_view \<Rightarrow> deed_sketch option" where
  "github view =
     (case (verbOf view, subverbOf view) of
        (Some area, Some verb) \<Rightarrow>
          if tableHas readingGitHubVerbs area verb then
            Some (readOnly (''reads GitHub state (gh '' @ area @ '' '' @ verb @ '')''))
          else if tableHas publishingGitHubVerbs area verb then
            Some (sketch PublishArtifact [] ''changes a published release'')
          else if tableHas outboundGitHubVerbs area verb then
            Some (sketch SendOutbound [] (''posts to GitHub (gh '' @ area @ '' '' @ verb @ '')''))
          else None
      | _ \<Rightarrow> None)"

definition objectStore :: "command_view \<Rightarrow> deed_sketch option" where
  "objectStore view =
     (case subverbOf view of
        None \<Rightarrow> None
      | Some verb \<Rightarrow>
          if verb \<in> set [''rm'', ''mb'', ''rb'', ''sync'', ''mv''] then
            Some (sketch DeployEnvironment (urlTargets view) ''changes remote object storage'')
          else if verb \<in> set [''ls'', ''cp'', ''presign''] then
            Some (readOnly ''reads remote object storage'')
          else None)"

definition networkVerbs :: verb_table where
  "networkVerbs view =
     (let program = v_program view in
      if program = ''curl'' \<or> program = ''wget'' then Some (transfer view)
      else if program = ''gh'' then github view
      else (case verbOf view of
          None \<Rightarrow> None
        | Some verb \<Rightarrow>
            if program = ''aws'' then (if verb = ''s3'' then objectStore view else None)
            else if program = ''docker'' \<and> verb = ''push'' then
              Some (sketch PublishArtifact [] ''pushes an image to a registry'')
            else if tableHas readingDeployVerbs program verb then
              Some (readOnly (''reads deployment state ('' @ program @ '' '' @ verb @ '')''))
            else if tableHas deployingVerbs program verb then
              Some (sketch DeployEnvironment []
                (''changes a deployed environment ('' @ program @ '' '' @ verb @ '')''))
            else if verb \<in> set publishingVerbs then
              Some (sketch PublishArtifact [] (''publishes a package ('' @ program @ '' publish)''))
            else None))"

lemma transfer_readable: "sk_action (transfer view) \<noteq> Unreadable"
  by (simp add: transfer_def Let_def)

lemma github_readable: "github view = Some s \<Longrightarrow> sk_action s \<noteq> Unreadable"
  by (auto simp: github_def split: if_splits option.splits)

lemma objectStore_readable: "objectStore view = Some s \<Longrightarrow> sk_action s \<noteq> Unreadable"
  unfolding objectStore_def by (cases "subverbOf view") (auto split: if_split_asm simp del: list.set)

interpretation network: verb_table networkVerbs
proof
  fix view s
  assume some: "networkVerbs view = Some s"
  show "sk_action s \<noteq> Unreadable"
  proof (cases "verbOf view")
    case None
    then show ?thesis using some
      by (auto simp: networkVerbs_def Let_def transfer_readable github_readable
          split: if_split_asm)
  next
    case (Some verb)
    then show ?thesis using some
      by (auto simp: networkVerbs_def Let_def transfer_readable github_readable
          objectStore_readable split: if_split_asm)
  qed
qed

end
