(* ===== verification/Verbs_Processes.thy ===== *)
theory Verbs_Processes
  imports Verbs_View
begin

text \<open>\<open>policy/classifier/command/verbs/processes.ts\<close>: signals and service managers.\<close>

definition signalPrograms :: "string list" where
  "signalPrograms =
    [''kill'', ''killall'', ''pkill'']"

definition stoppingVerbs :: "(string \<times> string list) list" where
  "stoppingVerbs =
    [(''systemctl'', [''stop'', ''restart'', ''kill'', ''disable'', ''mask'']),
     (''docker'', [''kill'', ''stop'', ''rm'', ''restart'', ''pause'']),
     (''pm2'', [''stop'', ''delete'', ''restart'', ''kill'']),
     (''launchctl'', [''unload'', ''stop'', ''kickstart''])]"

definition readingServiceVerbs :: "(string \<times> string list) list" where
  "readingServiceVerbs =
    [(''systemctl'', [''status'', ''list-units'', ''show'', ''is-active'']),
     (''docker'', [''ps'', ''images'', ''logs'', ''inspect'', ''version'']),
     (''pm2'', [''list'', ''status'', ''logs'']),
     (''launchctl'', [''list'', ''print''])]"

definition processTargets :: "command_view \<Rightarrow> deed_target list" where
  "processTargets view = map (\<lambda>word. target RProcess (cw_raw word)) (v_words view)"

definition processVerbs :: verb_table where
  "processVerbs view =
     (let program = v_program view in
      if program \<in> set signalPrograms then
        Some (sketch KillProcess (processTargets view) ''signals running processes'')
      else (case verbOf view of
          None \<Rightarrow> None
        | Some verb \<Rightarrow>
            if tableHas readingServiceVerbs program verb then
              Some (readOnly (''reads process state ('' @ program @ '' '' @ verb @ '')''))
            else if \<not> tableHas stoppingVerbs program verb then None
            else Some (sketch KillProcess
              (case subverbOf view of None \<Rightarrow> [] | Some named \<Rightarrow> [target RProcess named])
              (''stops a running service ('' @ program @ '' '' @ verb @ '')''))))"

interpretation processes: verb_table processVerbs
  by unfold_locales (auto simp: processVerbs_def Let_def split: if_splits option.splits)

end
