(* ===== verification/Verbs_Routine.thy ===== *)
theory Verbs_Routine
  imports Verbs_View
begin

text \<open>
  \<open>policy/classifier/command/verbs/routine.ts\<close>: the programs that read local state or run the project's
  own tooling.
\<close>

definition readingPrograms :: "string list" where
  "readingPrograms =
    [''ack'', ''ag'', ''awk'', ''base64'', ''basename'', ''bat'', ''cat'', ''cksum'',
     ''cmp'', ''column'', ''comm'', ''cut'', ''date'', ''df'', ''diff'', ''dirname'', ''du'',
     ''echo'', ''env'', ''fd'', ''file'', ''find'', ''grep'', ''head'', ''hostname'', ''id'',
     ''jq'', ''less'', ''locale'', ''lsof'', ''ls'', ''md5sum'', ''more'', ''nl'', ''od'',
     ''paste'', ''printenv'', ''printf'', ''ps'', ''pwd'', ''realpath'', ''readlink'',
     ''rev'', ''rg'', ''sed'', ''seq'', ''sha1sum'', ''sha256sum'', ''shasum'', ''sort'',
     ''stat'', ''strings'', ''tail'', ''tr'', ''tree'', ''type'', ''uname'', ''uniq'',
     ''wc'', ''whoami'', ''which'', ''xxd'', ''yq'']"

definition runnerPrograms :: "string list" where
  "runnerPrograms =
    [''biome'', ''bun'', ''cd'', ''deno'', ''eslint'', ''export'', ''false'', ''jest'',
     ''mocha'', ''node'', ''oxlint'', ''prettier'', ''pytest'', ''sleep'', ''test'',
     ''true'', ''tsc'', ''tsx'', ''turbo'', ''vitest'']"

definition verbsThatLeaveTheRunner :: "(string \<times> string list) list" where
  "verbsThatLeaveTheRunner =
    [(''bun'', [''x'', ''create'', ''init'', ''link'', ''publish'', ''upgrade'']),
     (''deno'', [''compile'', ''publish'', ''upgrade'']),
     (''make'', [''clean'', ''distclean'', ''uninstall'', ''purge'', ''reset'']),
     (''cargo'', [''publish'', ''install'', ''uninstall'']),
     (''go'', [''install'', ''get''])]"

definition verbRunners :: "(string \<times> string list) list" where
  "verbRunners =
    [(''cargo'', [''bench'', ''build'', ''check'', ''clippy'', ''doc'', ''fmt'', ''run'', ''test'',
      ''tree'']),
     (''go'', [''build'', ''doc'', ''fmt'', ''list'', ''run'', ''test'', ''version'', ''vet'']),
     (''make'', [])]"

definition runnerSketch :: "command_view \<Rightarrow> deed_sketch option" where
  "runnerSketch view =
     (let program = v_program view; verb = verbOf view in
      if (case verb of None \<Rightarrow> False | Some v \<Rightarrow> tableHas verbsThatLeaveTheRunner program v) then None
      else (case (map_of verbRunners program, verb) of
          (Some allowed, Some v) \<Rightarrow>
            if allowed = [] then
              Some (routine (''runs the project'' @ [squote] @ ''s own tooling ('' @ program @ '')''))
            else if v \<notin> set allowed then None
            else Some (routine
              (''runs the project'' @ [squote] @ ''s own tooling ('' @ program @ '' '' @ v @ '')''))
        | _ \<Rightarrow>
            Some (routine (''runs the project'' @ [squote] @ ''s own tooling ('' @ program @ '')''))))"

definition routineVerbs :: verb_table where
  "routineVerbs view =
     (let program = v_program view in
      if program \<in> set shellKeywords then Some (routine ''a shell control structure'')
      else if program \<in> set readingPrograms then
        Some (readOnly (''reads local state ('' @ program @ '')''))
      else if program \<in> set runnerPrograms \<or> map_of verbRunners program \<noteq> None then
        runnerSketch view
      else None)"

interpretation routine: verb_table routineVerbs
  by unfold_locales
    (auto simp: routineVerbs_def runnerSketch_def Let_def split: if_splits option.splits)

text \<open>The routine table only ever says a command is harmless.\<close>

lemma routineVerbs_quiet: "routineVerbs view = Some s \<Longrightarrow> sk_action s \<in> {Routine, ReadOnly}"
  by (auto simp: routineVerbs_def runnerSketch_def Let_def split: if_splits option.splits)

end
