(* ===== verification/Deed_Of.thy ===== *)
theory Deed_Of
  imports Json Read_Command Verbs_Git Verbs_Filesystem Verbs_Packages Verbs_Network
    Verbs_Processes Verbs_Routine
begin

text \<open>
  \<open>policy/classifier/deed-of.ts\<close>, with the tool types of \<open>tools/tool.ts\<close> it reads: from a tool call
  to the list of its deeds. A shell call has one deed per segment the reader found, or a single
  unreadable deed; any other call is judged by the path fields its tool declares.
\<close>

section \<open>Tools and calls\<close>

datatype e_tool_effect = EffRead | EffWrite | EffDestructive

datatype e_path_presence = Required | Optional

datatype e_path_form = Absolute | RelativeToBase

datatype e_content_access = NoContent | Reads | Amends | Overwrites

record declared_path_field =
  pf_field :: string
  pf_presence :: e_path_presence
  pf_form :: e_path_form
  pf_content :: e_content_access

record tool_call =
  tc_callId :: string
  tc_name :: string
  tc_input :: json
  tc_effect :: e_tool_effect
  tc_threadId :: string

datatype path_declaration_view = Unregistered | Undeclared | TouchesNoPaths
  | Declared (pd_fields: "declared_path_field list")

section \<open>Operations\<close>

definition VERB_TABLES :: "verb_table list" where
  "VERB_TABLES = [gitVerbs, filesystemVerbs, packageVerbs, networkVerbs, processVerbs, routineVerbs]"

definition QUIET_ACTIONS :: "e_deed list" where
  "QUIET_ACTIONS = [Routine, ReadOnly]"

definition declaredValue :: "json \<Rightarrow> string \<Rightarrow> string option" where
  "declaredValue input field =
     (case recordOf input of
        None \<Rightarrow> None
      | Some data \<Rightarrow> (case data field of
            Some (JString value) \<Rightarrow> if value = [] then None else Some value
          | _ \<Rightarrow> None))"

definition declaredTargets ::
  "json \<Rightarrow> declared_path_field list \<Rightarrow> string \<Rightarrow> deed_target list" where
  "declaredTargets input declared projectDirectory =
     concat (map (\<lambda>field.
       (case declaredValue input (pf_field field) of
          None \<Rightarrow> []
        | Some value \<Rightarrow>
            [target RPath
              (if pf_form field = Absolute then value
               else resolveAgainst projectDirectory value)])) declared)"

definition deedOf :: "tool_call \<Rightarrow> string option \<Rightarrow> deed_sketch \<Rightarrow> deed" where
  "deedOf call cwd sk =
     \<lparr>d_action = sk_action sk, d_toolName = tc_name call, d_targets = sk_targets sk, d_cwd = cwd,
      d_summary = sk_summary sk\<rparr>"

definition unreadable :: "string \<Rightarrow> deed_sketch" where
  "unreadable summary = sketch Unreadable [] summary"

definition withRedirects :: "command_view \<Rightarrow> deed_sketch \<Rightarrow> deed_sketch" where
  "withRedirects view drafted =
     (let written = redirectTargets view in
      if written = [] then drafted
      else let quiet = (sk_action drafted \<in> set QUIET_ACTIONS) in
        sketch (if quiet then WriteFile else sk_action drafted)
          (sk_targets drafted @ written)
          (if quiet then ''writes a file through a shell redirect'' else sk_summary drafted))"

text \<open>The loop over the verb tables: the first table that recognises the view drafts the deed.\<close>

fun firstDraft :: "verb_table list \<Rightarrow> command_view \<Rightarrow> deed_sketch option" where
  "firstDraft [] view = None"
| "firstDraft (table # tables) view =
     (case table view of Some drafted \<Rightarrow> Some drafted | None \<Rightarrow> firstDraft tables view)"

definition sketchOf :: "command_segment \<Rightarrow> deed_sketch" where
  "sketchOf segment =
     (let view = viewOf segment in
      case firstDraft VERB_TABLES view of
        Some drafted \<Rightarrow> withRedirects view drafted
      | None \<Rightarrow> withRedirects view
          (unreadable (''an unclassified command ('' @ v_program view @ '')'')))"

definition opaqueDeed :: "tool_call \<Rightarrow> command_reading \<Rightarrow> deed" where
  "opaqueDeed call reading =
     (let programs = uniq (map cs_program (cr_segments reading));
          cwds = uniq (concat (map (\<lambda>segment. option_list (cs_cwd segment)) (cr_segments reading)))
      in \<lparr>d_action = Unreadable, d_toolName = tc_name call, d_targets = map (target RPath) cwds,
          d_cwd = (case at (cr_segments reading) 0 of None \<Rightarrow> None | Some s \<Rightarrow> cs_cwd s),
          d_summary =
            (if programs = [] then ''a command the reader could not parse''
             else ''a command the reader could only partly parse ('' @ join '', '' programs @ '')'')\<rparr>)"

definition bashDeeds :: "tool_call \<Rightarrow> command_reading \<Rightarrow> deed list" where
  "bashDeeds call reading =
     (if cr_confidence reading = Conf_Opaque then [opaqueDeed call reading]
      else map (\<lambda>segment. deedOf call (cs_cwd segment) (sketchOf segment)) (cr_segments reading))"

definition declaredDeeds :: "tool_call \<Rightarrow> declared_path_field list \<Rightarrow> string \<Rightarrow> deed list" where
  "declaredDeeds call declared projectDirectory =
     (let writes = filter (\<lambda>field. pf_content field = Overwrites \<or> pf_content field = Amends) declared;
          written = declaredTargets (tc_input call) writes projectDirectory;
          blind = unreadable (tc_name call @ '' does not say which paths it touches'')
      in if length written > 0 then
           [deedOf call None (sketch WriteFile written (tc_name call @ '' writes a file''))]
         else if \<exists>field \<in> set writes. pf_presence field = Required then [deedOf call None blind]
         else if length writes > 0 then
           [deedOf call None
             (sketch Routine [] (tc_name call @ '' was given none of the paths it can write''))]
         else if tc_effect call \<noteq> EffRead then [deedOf call None blind]
         else [deedOf call None (sketch ReadOnly
                (declaredTargets (tc_input call) declared projectDirectory)
                (tc_name call @ '' reads without changing anything''))])"

definition deedsOf ::
  "tool_call \<Rightarrow> path_declaration_view \<Rightarrow> command_reading option \<Rightarrow> string \<Rightarrow> deed list" where
  "deedsOf call declaration reading projectDirectory =
     (if declaration = Unregistered then
        [deedOf call None (unreadable (tc_name call @ '' is not a registered tool''))]
      else if reading \<noteq> None then bashDeeds call (the reading)
      else if declaration = TouchesNoPaths then
        [deedOf call None (sketch Routine [] (tc_name call @ '' touches no path of its own''))]
      else if declaration = Undeclared then
        [deedOf call None (unreadable (tc_name call @ '' declares no paths''))]
      else declaredDeeds call (pd_fields declaration) projectDirectory)"

section \<open>What a deed says of its call\<close>

lemma deedOf_simps [simp]:
  "d_action (deedOf call cwd sk) = sk_action sk" "d_toolName (deedOf call cwd sk) = tc_name call"
  "d_targets (deedOf call cwd sk) = sk_targets sk" "d_cwd (deedOf call cwd sk) = cwd"
  "d_summary (deedOf call cwd sk) = sk_summary sk"
  by (simp_all add: deedOf_def)

lemma unreadable_simps [simp]:
  "sk_action (unreadable s) = Unreadable" "sk_targets (unreadable s) = []"
  "sk_summary (unreadable s) = s"
  by (simp_all add: unreadable_def)

text \<open>Every deed carries the name of the tool that was called.\<close>

lemma deedsOf_toolName: "d \<in> set (deedsOf call declaration reading dir) \<Longrightarrow> d_toolName d = tc_name call"
  by (auto simp: deedsOf_def bashDeeds_def opaqueDeed_def declaredDeeds_def Let_def
      split: if_splits)

text \<open>A table of the list that recognises a command is what drafts it.\<close>

lemma firstDraft_Some:
  "firstDraft tables view = Some drafted \<Longrightarrow> \<exists>table \<in> set tables. table view = Some drafted"
  by (induction tables) (auto split: option.splits)

lemma firstDraft_None: "firstDraft tables view = None \<longleftrightarrow> (\<forall>table \<in> set tables. table view = None)"
  by (induction tables) (auto split: option.splits)

lemma VERB_TABLES_readable:
  "table \<in> set VERB_TABLES \<Longrightarrow> table view = Some s \<Longrightarrow> sk_action s \<noteq> Unreadable"
  using git.readable filesystem.readable packages.readable network.readable processes.readable
    routine.readable
  by (auto simp: VERB_TABLES_def)

lemma firstDraft_readable:
  "firstDraft VERB_TABLES view = Some drafted \<Longrightarrow> sk_action drafted \<noteq> Unreadable"
  by (metis VERB_TABLES_readable firstDraft_Some)

lemma withRedirects_action:
  "sk_action (withRedirects view drafted) =
     (if redirectTargets view \<noteq> [] \<and> sk_action drafted \<in> {Routine, ReadOnly} then WriteFile
      else sk_action drafted)"
  by (auto simp: withRedirects_def QUIET_ACTIONS_def Let_def)

lemma withRedirects_targets [simp]:
  "sk_targets (withRedirects view drafted) = sk_targets drafted @ redirectTargets view"
  by (auto simp: withRedirects_def Let_def)

lemma sketchOf_eq:
  "sketchOf segment =
     withRedirects (viewOf segment)
       (case firstDraft VERB_TABLES (viewOf segment) of
          Some drafted \<Rightarrow> drafted
        | None \<Rightarrow> unreadable
            (''an unclassified command ('' @ v_program (viewOf segment) @ '')''))"
  by (simp add: sketchOf_def Let_def split: option.splits)

text \<open>A segment is unreadable exactly when no table recognises it.\<close>

lemma sketchOf_unreadable:
  "sk_action (sketchOf segment) = Unreadable \<longleftrightarrow>
     (\<forall>table \<in> set VERB_TABLES. table (viewOf segment) = None)"
proof (cases "firstDraft VERB_TABLES (viewOf segment)")
  case None
  have "\<forall>table \<in> set VERB_TABLES. table (viewOf segment) = None"
    using None by (simp only: firstDraft_None)
  then show ?thesis by (simp add: sketchOf_eq withRedirects_action None)
next
  case (Some drafted)
  from firstDraft_readable [OF Some] firstDraft_Some [OF Some]
  show ?thesis by (auto simp: sketchOf_eq withRedirects_action Some)
qed

text \<open>What a command writes through a redirect is among its targets, and then it is not quiet.\<close>

lemma sketchOf_redirects:
  assumes "path \<in> set (cs_redirectsInto segment)" and "path \<notin> set discardedRedirects"
  shows "target RPath path \<in> set (sk_targets (sketchOf segment))"
    and "sk_action (sketchOf segment) \<notin> {Routine, ReadOnly}"
proof -
  have "v_redirectsInto (viewOf segment) = cs_redirectsInto segment"
    by (simp add: viewOf_def split: prod.splits)
  then have *: "target RPath path \<in> set (redirectTargets (viewOf segment))"
    using assms by (simp add: redirectTargets_def)
  then show "target RPath path \<in> set (sk_targets (sketchOf segment))"
    by (simp add: sketchOf_eq)
  from * have "redirectTargets (viewOf segment) \<noteq> []" by auto
  then show "sk_action (sketchOf segment) \<notin> {Routine, ReadOnly}"
    by (auto simp: sketchOf_eq withRedirects_action split: option.splits)
qed

text \<open>C36: what a shell command could not be read as is never passed over. The deeds of a command hold an
  unreadable one exactly when the reader could not resolve the command line, or when none of the six
  verb tables recognises one of its simple commands.\<close>

theorem bashDeeds_unreadable_iff:
  "Unreadable \<in> d_action ` set (bashDeeds call reading) \<longleftrightarrow>
     cr_confidence reading = Conf_Opaque \<or>
     (\<exists>segment \<in> set (cr_segments reading).
        map (\<lambda>table. table (viewOf segment)) VERB_TABLES = replicate 6 None)"
proof -
  have "sk_action (sketchOf segment) = Unreadable \<longleftrightarrow>
      map (\<lambda>table. table (viewOf segment)) VERB_TABLES = replicate 6 None" for segment
    unfolding sketchOf_unreadable by (simp add: VERB_TABLES_def numeral_eq_Suc)
  then show ?thesis by (auto simp: bashDeeds_def opaqueDeed_def Let_def image_iff eq_commute [of Unreadable])
qed

text \<open>A redirect is a write. A command that redirects its output into a file that is not a discarding
  device has that file among its targets, and is never classified as quiet, whatever the program.\<close>

theorem sketchOf_redirect_writes:
  assumes "path \<in> set (cs_redirectsInto segment)" and "path \<notin> set discardedRedirects"
  shows "target RPath path \<in> set (sk_targets (sketchOf segment)) \<and>
    sk_action (sketchOf segment) \<notin> {Routine, ReadOnly}"
  using sketchOf_redirects [OF assms] by simp

lemma sketchOf_redirect_writes_witness:
  "sk_action (sketchOf \<lparr>cs_program = ''cat'', cs_verb = None, cs_flags = [], cs_operands = [''/w/a''],
      cs_rawOperands = [''a''], cs_cwd = Some ''/w'', cs_redirectsInto = [''/etc/hosts''],
      cs_pipesIntoInterpreter = False, cs_unresolvedExpansions = []\<rparr>) \<notin> {Routine, ReadOnly}"
proof -
  have "''/etc/hosts'' \<notin> set discardedRedirects" by code_simp
  then show ?thesis by (intro sketchOf_redirect_writes [of "''/etc/hosts''", THEN conjunct2]) simp_all
qed

end
