(* ===== verification/Evidence.thy ===== *)
theory Evidence
  imports Facts Deed_Of
begin

text \<open>
  \<open>policy/classifier/evidence.ts\<close> with the types of \<open>signals.ts\<close>, \<open>grant.ts\<close>, \<open>triage.ts\<close> and
  \<open>verdict.ts\<close> that the events and the probes share: everything the probes are shown about one
  call, and the signals they raise.
\<close>

section \<open>Grants\<close>

datatype e_grant_scope = ScopeThread

record grant =
  g_grantId :: string
  g_dimensions :: "e_risk_dimension list"
  g_scope :: e_grant_scope
  g_subject :: string
  g_reason :: string
  g_seq :: nat

record grant_offer =
  go_subject :: string
  go_dimensions :: "e_risk_dimension list"

section \<open>Modes, triage and judgments\<close>

datatype e_classifier_mode = Off | Shadow | Nudge

datatype e_triage = Clear | Consult

datatype e_judgment = Proceed | Check

datatype e_verdict_fault = Unspoken | Unexplained | Unnamed

section \<open>Evidence\<close>

record recent_act =
  ra_name :: string
  ra_effect :: e_tool_effect
  ra_deeds :: "e_deed list"
  ra_ingestedUntrustedContent :: bool
  ra_readSecretShapedPath :: bool

record operator_utterance =
  ou_text :: string
  ou_seq :: nat

record call_evidence =
  ce_deeds :: "deed list"
  ce_toolName :: string
  ce_effect :: e_tool_effect
  ce_threadId :: string
  ce_reading :: "command_reading option"
  ce_facts :: workspace_facts
  ce_recent :: "recent_act list"
  ce_said :: "operator_utterance list"
  ce_grants :: "grant list"

section \<open>Signals\<close>

record risk_signal =
  rs_dimension :: e_risk_dimension
  rs_severity :: e_severity
  rs_id :: string
  rs_subject :: string
  rs_detail :: string
  rs_ungrantable :: bool
  rs_unverified :: bool

text \<open>
  \<open>riskSignal\<close> of \<open>probes/kit.ts\<close>; \<open>ungrantable\<close> and \<open>unverified\<close> are false unless a probe says
  otherwise, which it does by a record update here.
\<close>

definition riskSignal ::
  "e_risk_dimension \<Rightarrow> e_severity \<Rightarrow> string \<Rightarrow> string \<Rightarrow> string \<Rightarrow> risk_signal" where
  "riskSignal dimension severity ident subject detail =
     \<lparr>rs_dimension = dimension, rs_severity = severity, rs_id = ident, rs_subject = subject,
      rs_detail = detail, rs_ungrantable = False, rs_unverified = False\<rparr>"

definition ungrantable :: "risk_signal \<Rightarrow> risk_signal" where
  "ungrantable signal = signal\<lparr>rs_ungrantable := True\<rparr>"

definition unverified :: "risk_signal \<Rightarrow> risk_signal" where
  "unverified signal = signal\<lparr>rs_unverified := True\<rparr>"

lemma riskSignal_simps [simp]:
  "rs_dimension (riskSignal d v i s t) = d" "rs_severity (riskSignal d v i s t) = v"
  "rs_id (riskSignal d v i s t) = i" "rs_subject (riskSignal d v i s t) = s"
  "rs_detail (riskSignal d v i s t) = t" "\<not> rs_ungrantable (riskSignal d v i s t)"
  "\<not> rs_unverified (riskSignal d v i s t)"
  by (simp_all add: riskSignal_def)

lemma ungrantable_simps [simp]:
  "rs_dimension (ungrantable r) = rs_dimension r" "rs_severity (ungrantable r) = rs_severity r"
  "rs_id (ungrantable r) = rs_id r" "rs_subject (ungrantable r) = rs_subject r"
  "rs_detail (ungrantable r) = rs_detail r" "rs_ungrantable (ungrantable r)"
  "rs_unverified (ungrantable r) = rs_unverified r"
  by (simp_all add: ungrantable_def)

lemma unverified_simps [simp]:
  "rs_dimension (unverified r) = rs_dimension r" "rs_severity (unverified r) = rs_severity r"
  "rs_id (unverified r) = rs_id r" "rs_subject (unverified r) = rs_subject r"
  "rs_detail (unverified r) = rs_detail r" "rs_unverified (unverified r)"
  "rs_ungrantable (unverified r) = rs_ungrantable r"
  by (simp_all add: unverified_def)

section \<open>Probes\<close>

text \<open>What one call shows that no probe has anything to say about: it only reads, and its command
  neither pipes into an interpreter nor hands a destroying program an operand that expands at run
  time nor hands a destructive tool an opaque command.\<close>

definition quietReading :: "call_evidence \<Rightarrow> command_reading \<Rightarrow> bool" where
  "quietReading evidence reading \<longleftrightarrow>
     (\<forall>segment \<in> set (cr_segments reading).
        \<not> cs_pipesIntoInterpreter segment \<and>
        (destroysItsOperands segment \<longrightarrow> cs_unresolvedExpansions segment = [])) \<and>
     (cr_confidence reading = Conf_Opaque \<longrightarrow> ce_effect evidence \<noteq> EffDestructive)"

definition onlyReads :: "call_evidence \<Rightarrow> bool" where
  "onlyReads evidence \<longleftrightarrow>
     (\<forall>deed \<in> set (ce_deeds evidence). d_action deed = ReadOnly) \<and>
     (case ce_reading evidence of None \<Rightarrow> True | Some reading \<Rightarrow> quietReading evidence reading)"

text \<open>What triage relies on: a probe speaks of its own dimension only, and not of a call that
  only reads.\<close>

locale risk_probe =
  fixes dimension :: e_risk_dimension
    and probe :: "call_evidence \<Rightarrow> risk_signal list"
  assumes own_dimension: "signal \<in> set (probe evidence) \<Longrightarrow> rs_dimension signal = dimension"
    and quiet: "onlyReads evidence \<Longrightarrow> probe evidence = []"

end
