(* ===== verification/Shapes.thy ===== *)
theory Shapes
  imports Path_Set
begin

text \<open>
  \<open>policy/classifier/shapes.ts\<close>: what the shape of a path, or of a piece of text, gives away: a
  secret, something downloaded, something regenerable, a dot directory of the home directory.
\<close>

section \<open>Tables\<close>

definition TEMPORARY_ROOTS :: "string list" where
  "TEMPORARY_ROOTS = [''/tmp'', ''/private/tmp'', ''/var/tmp'', ''/var/folders'']"

definition HOME_ROOTS :: "string list" where
  "HOME_ROOTS = [''Users'', ''home'']"

definition SECRET_BASENAMES :: "string list" where
  "SECRET_BASENAMES = [''.netrc'', ''.npmrc'', ''.pgpass'', ''credentials'', ''id_dsa'',
     ''id_ecdsa'', ''id_ed25519'', ''id_rsa'']"

definition SECRET_DIRECTORIES :: "string list" where
  "SECRET_DIRECTORIES = [''.aws'', ''.gnupg'', ''.ssh'']"

definition SECRET_SUFFIXES :: "string list" where
  "SECRET_SUFFIXES = [''.p12'', ''.pem'', ''.pfx'']"

definition DOWNLOADED_DIRECTORIES :: "string list" where
  "DOWNLOADED_DIRECTORIES = [''Downloads'', ''node_modules'']"

text \<open>
  The alternatives of \<open>SECRET_LITERALS\<close>: a literal prefix and then eight characters of a class.
\<close>

definition SECRET_LITERALS :: "(string \<times> (char \<Rightarrow> bool)) list" where
  "SECRET_LITERALS =
     [(''sk-'', \<lambda>c. is_alpha c \<or> is_digit c \<or> c \<in> set ''_-''),
      (''ghp_'', \<lambda>c. is_alpha c \<or> is_digit c),
      (''github_pat_'', is_name_char),
      (''AKIA'', \<lambda>c. is_digit c \<or> is_upper c)]"

section \<open>Operations\<close>

definition segmentsOf :: "string \<Rightarrow> string list" where
  "segmentsOf path = filter (\<lambda>segment. segment \<noteq> []) (split_on (CHR ''/'') (normalisePath path))"

definition hasSegment :: "string \<Rightarrow> string list \<Rightarrow> bool" where
  "hasSegment path segments \<longleftrightarrow> (\<exists>segment \<in> set (segmentsOf path). segment \<in> set segments)"

definition homeDotDirectory :: "string \<Rightarrow> string option" where
  "homeDotDirectory path =
     (let normalised = normalisePath path; parts = segmentsOf normalised in
      if at parts 0 = Some ''~'' then at parts 1
      else if \<not> startsWith normalised ''/'' then None
      else (case at parts 0 of
          None \<Rightarrow> None
        | Some root \<Rightarrow> if root \<notin> set HOME_ROOTS then None else at parts 2))"

definition insideTemporaryRoot :: "string \<Rightarrow> bool" where
  "insideTemporaryRoot path \<longleftrightarrow> (\<exists>directory \<in> set TEMPORARY_ROOTS. isUnderPath directory path)"

definition looksSecretShaped :: "string \<Rightarrow> bool" where
  "looksSecretShaped path =
     (let name = basenameOf path in
      if name = ''.env'' \<or> startsWith name ''.env.'' then True
      else if name \<in> set SECRET_BASENAMES then True
      else if \<exists>suffix \<in> set SECRET_SUFFIXES. endsWith name suffix then True
      else hasSegment path SECRET_DIRECTORIES)"

definition looksDownloaded :: "string \<Rightarrow> bool" where
  "looksDownloaded path \<longleftrightarrow> hasSegment path DOWNLOADED_DIRECTORIES"

definition looksRegenerable :: "string \<Rightarrow> string list \<Rightarrow> bool" where
  "looksRegenerable path names \<longleftrightarrow> hasSegment path names"

text \<open>An alternative matches at the head of the unread text; the pattern is tried at every position.\<close>

definition secretHere :: "string \<Rightarrow> bool" where
  "secretHere s \<longleftrightarrow>
     (\<exists>(literal, class) \<in> set SECRET_LITERALS.
        startsWith s literal \<and>
        (let tail = take 8 (drop (length literal) s) in length tail = 8 \<and> list_all class tail))"

fun namesASecretLiteral :: "string \<Rightarrow> bool" where
  "namesASecretLiteral [] \<longleftrightarrow> secretHere []"
| "namesASecretLiteral (c # s) \<longleftrightarrow> secretHere (c # s) \<or> namesASecretLiteral s"

section \<open>Lemmas\<close>

text \<open>A secret literal is found wherever it stands in the text.\<close>

lemma secretHere_append: "secretHere s \<Longrightarrow> secretHere (s @ t)"
  unfolding secretHere_def Let_def
  by (fastforce simp: prefix_def)

lemma namesASecretLiteral_here: "secretHere s \<Longrightarrow> namesASecretLiteral s"
  by (cases s) auto

lemma namesASecretLiteral_iff:
  "namesASecretLiteral text \<longleftrightarrow> (\<exists>before after. text = before @ after \<and> secretHere after)"
proof (induction "text")
  case (Cons c s)
  have "(\<exists>before after. c # s = before @ after \<and> secretHere after) \<longleftrightarrow>
      secretHere (c # s) \<or> (\<exists>before after. s = before @ after \<and> secretHere after)"
    by (metis append_Cons append_eq_Cons_conv)
  with Cons show ?case by simp
qed auto

lemma namesASecretLiteral_inside:
  "secretHere s \<Longrightarrow> namesASecretLiteral (before @ s @ after)"
  unfolding namesASecretLiteral_iff using secretHere_append by blast

lemma hasSegment_mono: "set xs \<subseteq> set ys \<Longrightarrow> hasSegment path xs \<Longrightarrow> hasSegment path ys"
  by (auto simp: hasSegment_def)

end
