(* ===== verification/Kit.thy ===== *)
theory Kit
  imports Evidence Shapes
begin

text \<open>\<open>policy/classifier/probes/kit.ts\<close>: the questions the probes share.\<close>

section \<open>Definitions\<close>

definition DEEDS_THAT_LOSE_SOMETHING :: "e_deed list" where
  "DEEDS_THAT_LOSE_SOMETHING = [CleanUntracked, DeleteBranch, DeployEnvironment,
     DiscardWorkingTree, DropRecovery, ForcePush, KillProcess, MutateStash, RemovePath,
     RemoveWorktree, RewriteHistory]"

definition TOOL_OWNED_DOT_DIRECTORIES :: "string list" where
  "TOOL_OWNED_DOT_DIRECTORIES = [''.agents'', ''.bun'', ''.cache'', ''.claude'', ''.config'',
     ''.local'', ''.npm'']"

definition mutatingDeeds :: "call_evidence \<Rightarrow> deed list" where
  "mutatingDeeds evidence = filter mutates (ce_deeds evidence)"

definition contendingDeeds :: "call_evidence \<Rightarrow> deed list" where
  "contendingDeeds evidence = filter contendsForItsPlace (ce_deeds evidence)"

definition placesOf :: "deed \<Rightarrow> string list" where
  "placesOf deed =
     (let named = map dt_value (filesystemTargets deed) in
      if length named > 0 then uniq named
      else (case d_cwd deed of None \<Rightarrow> [] | Some cwd \<Rightarrow> [cwd]))"

definition targetsInRealm :: "deed \<Rightarrow> e_deed_realm \<Rightarrow> string list" where
  "targetsInRealm deed realm =
     uniq (map dt_value (filter (\<lambda>t. dt_realm t = realm) (d_targets deed)))"

text \<open>The loop of \<open>worktreeAt\<close>, with \<open>deepest\<close> as its accumulator.\<close>

definition deeperAt :: "string \<Rightarrow> worktree_fact option \<Rightarrow> worktree_fact \<Rightarrow> worktree_fact option" where
  "deeperAt path deepest wt =
     (if \<not> isUnderPath (wt_path wt) path then deepest
      else (case deepest of
          None \<Rightarrow> Some wt
        | Some d \<Rightarrow> if length (wt_path wt) > length (wt_path d) then Some wt else Some d))"

definition worktreeAt :: "workspace_facts \<Rightarrow> string \<Rightarrow> worktree_fact option" where
  "worktreeAt facts path = foldl (deeperAt path) None (f_worktrees facts)"

definition ourWorktree :: "workspace_facts \<Rightarrow> worktree_fact option" where
  "ourWorktree facts = worktreeAt facts (f_projectDirectory facts)"

definition isOurs :: "workspace_facts \<Rightarrow> worktree_fact \<Rightarrow> bool" where
  "isOurs facts wt \<longleftrightarrow>
     (if wt_occupancy wt = Ours then True
      else map_option wt_path (ourWorktree facts) = Some (wt_path wt))"

definition insideProject :: "workspace_facts \<Rightarrow> string \<Rightarrow> bool" where
  "insideProject facts path \<longleftrightarrow> isUnderPath (f_projectDirectory facts) path"

definition weInspectedTheWorktrees :: "workspace_facts \<Rightarrow> bool" where
  "weInspectedTheWorktrees facts \<longleftrightarrow> weLookedAt facts RGitWorktree"

definition isRegenerable :: "workspace_facts \<Rightarrow> string \<Rightarrow> bool" where
  "isRegenerable facts path \<longleftrightarrow>
     (if \<not> insideProject facts path then False else looksRegenerable path (f_regenerablePaths facts))"

definition belongsToTheOperatorsTools :: "string \<Rightarrow> bool" where
  "belongsToTheOperatorsTools path \<longleftrightarrow>
     (if insideTemporaryRoot path then True
      else (case homeDotDirectory path of
          None \<Rightarrow> False
        | Some dot \<Rightarrow> dot \<in> set TOOL_OWNED_DOT_DIRECTORIES))"

definition takesSomethingAway :: "deed \<Rightarrow> bool" where
  "takesSomethingAway deed \<longleftrightarrow> d_action deed \<in> set DEEDS_THAT_LOSE_SOMETHING"

definition losesSomething :: "deed \<Rightarrow> workspace_facts \<Rightarrow> bool" where
  "losesSomething deed facts \<longleftrightarrow>
     (if \<not> takesSomethingAway deed then False
      else if \<not> weKnowWhereTheProjectIs facts then False
      else let places = placesOf deed in
        if length places = 0 then True else \<not> list_all (isRegenerable facts) places)"

definition worktreeSubject :: "workspace_facts \<Rightarrow> string \<Rightarrow> string" where
  "worktreeSubject facts path =
     (case worktreeAt facts path of
        None \<Rightarrow> ''path:'' @ path
      | Some wt \<Rightarrow> ''worktree:'' @ basenameOf (wt_path wt))"

definition segmentsRunning ::
  "command_reading option \<Rightarrow> string \<Rightarrow> string \<Rightarrow> command_segment list" where
  "segmentsRunning reading program verb =
     (case reading of
        None \<Rightarrow> []
      | Some reading \<Rightarrow>
          filter (\<lambda>s. cs_program s = program \<and> cs_verb s = Some verb) (cr_segments reading))"

definition anySegmentFlagged :: "command_segment list \<Rightarrow> string list \<Rightarrow> bool" where
  "anySegmentFlagged segments flags \<longleftrightarrow>
     (\<exists>segment \<in> set segments. \<exists>flag \<in> set flags. flag \<in> set (cs_flags segment))"

section \<open>Which deeds a probe sees\<close>

lemma onlyReads_no_deeds:
  "onlyReads evidence \<Longrightarrow> mutatingDeeds evidence = []"
  "onlyReads evidence \<Longrightarrow> contendingDeeds evidence = []"
  by (auto simp: onlyReads_def mutatingDeeds_def contendingDeeds_def mutates_iff contends_iff
      filter_empty_conv)

lemma mutatingDeeds_iff [simp]:
  "deed \<in> set (mutatingDeeds evidence) \<longleftrightarrow> deed \<in> set (ce_deeds evidence) \<and> mutates deed"
  by (simp add: mutatingDeeds_def)

lemma contendingDeeds_iff [simp]:
  "deed \<in> set (contendingDeeds evidence) \<longleftrightarrow>
     deed \<in> set (ce_deeds evidence) \<and> contendsForItsPlace deed"
  by (simp add: contendingDeeds_def)

lemma takesSomethingAway_mutates: "takesSomethingAway deed \<Longrightarrow> mutates deed"
  by (auto simp: takesSomethingAway_def mutates_iff DEEDS_THAT_LOSE_SOMETHING_def)

lemma distinct_placesOf [simp]: "distinct (placesOf deed)"
  by (auto simp: placesOf_def Let_def split: option.splits)

lemma placesOf_named:
  "t \<in> set (d_targets deed) \<Longrightarrow> dt_realm t \<in> {RPath, RGitWorktree} \<Longrightarrow> dt_value t \<in> set (placesOf deed)"
  by (force simp: placesOf_def Let_def filesystemTargets_def filesystemRealms_def filter_empty_conv)

section \<open>The deepest worktree\<close>

text \<open>The value of the accumulator: a deepest one among the worktrees seen that hold
  the path.\<close>

definition deepestOf :: "string \<Rightarrow> worktree_fact list \<Rightarrow> worktree_fact option \<Rightarrow> bool" where
  "deepestOf path seen deepest \<longleftrightarrow>
     (case deepest of
        None \<Rightarrow> \<forall>w \<in> set seen. \<not> isUnderPath (wt_path w) path
      | Some d \<Rightarrow> d \<in> set seen \<and> isUnderPath (wt_path d) path \<and>
          (\<forall>w \<in> set seen. isUnderPath (wt_path w) path \<longrightarrow> length (wt_path w) \<le> length (wt_path d)))"

lemma deeperAt_deepest:
  "deepestOf path seen deepest \<Longrightarrow> deepestOf path (seen @ [wt]) (deeperAt path deepest wt)"
  by (fastforce simp: deepestOf_def deeperAt_def split: option.splits)

lemma foldl_deepest:
  "deepestOf path seen deepest \<Longrightarrow> deepestOf path (seen @ ws) (foldl (deeperAt path) deepest ws)"
proof (induction ws arbitrary: seen deepest)
  case (Cons w ws)
  from Cons.IH [OF deeperAt_deepest [OF Cons.prems, of w]] show ?case by simp
qed simp

lemma worktreeAt_deepest: "deepestOf path (f_worktrees facts) (worktreeAt facts path)"
  using foldl_deepest [of path "[]" None "f_worktrees facts"]
  by (simp add: worktreeAt_def deepestOf_def)

lemma worktreeAt_None:
  "worktreeAt facts path = None \<longleftrightarrow> (\<forall>w \<in> set (f_worktrees facts). \<not> isUnderPath (wt_path w) path)"
  using worktreeAt_deepest [of path facts] by (auto simp: deepestOf_def split: option.splits)

lemma worktreeAt_Some:
  assumes "worktreeAt facts path = Some d"
  shows "d \<in> set (f_worktrees facts)" and "isUnderPath (wt_path d) path"
    and "\<And>w. w \<in> set (f_worktrees facts) \<Longrightarrow> isUnderPath (wt_path w) path \<Longrightarrow>
      length (wt_path w) \<le> length (wt_path d)"
  using worktreeAt_deepest [of path facts] assms by (auto simp: deepestOf_def)

text \<open>The worktree at a path is the innermost one. The loop finds a worktree that contains the path and
  has the longest such path, and none exactly when no worktree contains the path.\<close>

theorem worktreeAt_innermost:
  "(case worktreeAt facts path of
      None \<Rightarrow> \<not> (\<exists>w. w \<in> set (f_worktrees facts) \<and> isUnderPath (wt_path w) path)
    | Some d \<Rightarrow> d \<in> set (f_worktrees facts) \<and> isUnderPath (wt_path d) path \<and>
        \<not> (\<exists>w. w \<in> set (f_worktrees facts) \<and> isUnderPath (wt_path w) path \<and>
             length (wt_path w) > length (wt_path d)))"
  using worktreeAt_None [of facts path] worktreeAt_Some [of facts path]
  by (fastforce simp: not_less split: option.splits)

end
