(* ===== verification/Probe_Irreversibility.thy ===== *)
theory Probe_Irreversibility
  imports Kit
begin

text \<open>
  \<open>policy/classifier/probes/irreversibility.ts\<close>: what nothing brings back. \<open>quoted\<close> texts that hold an
  apostrophe are written with \<open>squote\<close>.
\<close>

definition changedCountAt :: "workspace_facts \<Rightarrow> string \<Rightarrow> nat option" where
  "changedCountAt facts path =
     (case worktreeAt facts path of
        None \<Rightarrow> None
      | Some wt \<Rightarrow>
          if wt_changedCount wt \<noteq> None then wt_changedCount wt
          else if isOurs facts wt then Some (length (f_ownChangedPaths facts))
          else None)"

definition discarding :: "deed \<Rightarrow> workspace_facts \<Rightarrow> risk_signal list" where
  "discarding deed facts =
     (if \<not> weInspectedTheWorktrees facts then []
      else let trees = targetsInRealm deed RGitWorktree in
        if length trees = 0 then
          map (\<lambda>path. riskSignal Irreversibility Note ''irreversibility:discard-pathspec''
              (''path:'' @ path) (''discards uncommitted changes under '' @ path))
            (placesOf deed)
        else concat (map (\<lambda>path.
          (let changed = changedCountAt facts path in
           if changed = Some 0 then []
           else [riskSignal Irreversibility (if changed = None then Serious else Grave)
                  ''irreversibility:discard-tree'' (worktreeSubject facts path)
                  (case changed of
                     None \<Rightarrow> ''discards every uncommitted change in '' @ path @
                       '', whose dirtiness is unknown''
                   | Some n \<Rightarrow> ''discards '' @ show_nat n @ '' uncommitted change(s) in '' @ path)]))
          trees))"

text \<open>The body of the loop of \<open>removing\<close> over the places of a deed.\<close>

definition removingAt :: "workspace_facts \<Rightarrow> string \<Rightarrow> risk_signal list" where
  "removingAt facts path =
     (if isRegenerable facts path then []
      else [riskSignal Irreversibility (if insideProject facts path then Note else Serious)
             (if insideProject facts path then ''irreversibility:remove-inside-project''
              else ''irreversibility:remove-outside-project'')
             (''path:'' @ path) (''removes '' @ path @ '', which nothing regenerates'')])"

definition removing :: "deed \<Rightarrow> workspace_facts \<Rightarrow> risk_signal list" where
  "removing deed facts =
     (if \<not> weKnowWhereTheProjectIs facts then []
      else concat (map (removingAt facts) (placesOf deed)))"

definition removingAWorktree :: "deed \<Rightarrow> call_evidence \<Rightarrow> risk_signal list" where
  "removingAWorktree deed evidence =
     (let forced = anySegmentFlagged
            (segmentsRunning (ce_reading evidence) ''git'' ''worktree'') [''--force'', ''-f'']
      in map (\<lambda>path. riskSignal Irreversibility (if forced then Grave else Note)
             (if forced then ''irreversibility:force-remove-worktree''
              else ''irreversibility:remove-worktree'')
             (worktreeSubject (ce_facts evidence) path)
             (if forced then ''removes the worktree at '' @ path @ '' over git'' @ [squote] @
                ''s own refusal to lose work''
              else ''removes the worktree at '' @ path @
                '', which git refuses to do while work is uncommitted''))
           (placesOf deed))"

definition cwdOrEmpty :: "deed \<Rightarrow> string" where
  "cwdOrEmpty deed = (case d_cwd deed of None \<Rightarrow> '''' | Some cwd \<Rightarrow> cwd)"

definition droppingRecovery :: "deed \<Rightarrow> call_evidence \<Rightarrow> risk_signal list" where
  "droppingRecovery deed evidence =
     [riskSignal Irreversibility Grave ''irreversibility:drop-recovery''
       (worktreeSubject (ce_facts evidence) (cwdOrEmpty deed))
       ''drops the reflog and unreachable objects that make lost commits recoverable'']"

definition irreversibilitySignalsFor :: "deed \<Rightarrow> call_evidence \<Rightarrow> risk_signal list" where
  "irreversibilitySignalsFor deed evidence =
     (let facts = ce_facts evidence in
      if d_action deed = DiscardWorkingTree then discarding deed facts
      else if d_action deed = RemovePath then removing deed facts
      else if d_action deed = RemoveWorktree then removingAWorktree deed evidence
      else if d_action deed = DropRecovery then droppingRecovery deed evidence
      else if d_action deed \<noteq> MutateStash then []
      else [riskSignal Irreversibility Serious ''irreversibility:stash''
             (worktreeSubject facts (cwdOrEmpty deed))
             ''mutates the stash stack, which every worktree of the repository shares''])"

definition irreversibilityProbe :: "call_evidence \<Rightarrow> risk_signal list" where
  "irreversibilityProbe evidence =
     concat (map (\<lambda>deed. irreversibilitySignalsFor deed evidence) (mutatingDeeds evidence))"

lemmas irreversibility_defs = irreversibilitySignalsFor_def discarding_def removing_def
  removingAt_def removingAWorktree_def droppingRecovery_def

lemma irreversibilitySignalsFor_dimension:
  "s \<in> set (irreversibilitySignalsFor deed evidence) \<Longrightarrow> rs_dimension s = Irreversibility"
  by (auto simp: irreversibility_defs Let_def split: if_split_asm)

interpretation irreversibility: risk_probe Irreversibility irreversibilityProbe
  by unfold_locales
    (auto simp: irreversibilityProbe_def irreversibilitySignalsFor_dimension onlyReads_no_deeds)

lemma removingAt_Nil: "removingAt facts path = [] \<longleftrightarrow> isRegenerable facts path"
  by (simp add: removingAt_def)

text \<open>A removal is silent exactly when the project is unknown or every place it names is regenerable.\<close>

lemma removing_silent:
  "removing deed facts = [] \<longleftrightarrow>
     \<not> weKnowWhereTheProjectIs facts \<or> (\<forall>path \<in> set (placesOf deed). isRegenerable facts path)"
  by (auto simp: removing_def removingAt_Nil)

text \<open>Every other place it names is reported, at the severity of where it lies.\<close>

lemma removing_raises:
  assumes "weKnowWhereTheProjectIs facts" and "path \<in> set (placesOf deed)"
    and "\<not> isRegenerable facts path"
  shows "\<exists>s \<in> set (removing deed facts). rs_subject s = ''path:'' @ path \<and>
      rs_severity s = (if insideProject facts path then Note else Serious)"
proof -
  have "set (removingAt facts path) \<subseteq> set (removing deed facts)"
    using assms(1,2) by (auto simp: removing_def)
  moreover have "\<exists>s \<in> set (removingAt facts path). rs_subject s = ''path:'' @ path \<and>
      rs_severity s = (if insideProject facts path then Note else Serious)"
    using assms(3) by (simp add: removingAt_def)
  ultimately show ?thesis by blast
qed

end
