(* ===== verification/Probe_Reach.thy ===== *)
theory Probe_Reach
  imports Kit
begin

text \<open>\<open>policy/classifier/probes/reach.ts\<close>: what changes something outside the project.\<close>

definition REACH_EXEMPT :: "e_deed list" where
  "REACH_EXEMPT = [AddWorktree]"

text \<open>\<open>describe\<close> returns the pair of \<open>subject\<close> and \<open>where\<close>.\<close>

definition describe :: "workspace_facts \<Rightarrow> string \<Rightarrow> string \<times> string" where
  "describe facts path =
     (case worktreeAt facts path of
        None \<Rightarrow> (''path:'' @ path, path)
      | Some wt \<Rightarrow>
          let name = basenameOf (wt_path wt);
              kind = (if wt_isMain wt then ''the main checkout'' else ''the worktree '' @ name)
          in (''worktree:'' @ name, path @ '', inside '' @ kind))"

definition reachSignalsFor :: "deed \<Rightarrow> workspace_facts \<Rightarrow> risk_signal list" where
  "reachSignalsFor deed facts =
     (if d_action deed \<in> set REACH_EXEMPT then []
      else if \<not> weKnowWhereTheProjectIs facts then []
      else concat (map (\<lambda>path.
        (if insideProject facts path then []
         else if belongsToTheOperatorsTools path then []
         else if (case worktreeAt facts path of None \<Rightarrow> False | Some wt \<Rightarrow> isOurs facts wt) then []
         else (case describe facts path of (subject, place) \<Rightarrow>
           [riskSignal Reach (if losesSomething deed facts then Serious else Note)
             ''reach:outside-project'' subject
             (d_summary deed @ '' at '' @ place @ '', outside '' @ f_projectDirectory facts)])))
        (placesOf deed)))"

definition reachProbe :: "call_evidence \<Rightarrow> risk_signal list" where
  "reachProbe evidence =
     concat (map (\<lambda>deed. reachSignalsFor deed (ce_facts evidence)) (mutatingDeeds evidence))"

lemma reachSignalsFor_dimension: "s \<in> set (reachSignalsFor deed facts) \<Longrightarrow> rs_dimension s = Reach"
  by (auto simp: reachSignalsFor_def split: if_split_asm prod.splits)

interpretation reach: risk_probe Reach reachProbe
  by unfold_locales (auto simp: reachProbe_def reachSignalsFor_dimension onlyReads_no_deeds)

text \<open>A deed whose every place is inside the project reaches nothing.\<close>

lemma reachSignalsFor_inside:
  "\<forall>path \<in> set (placesOf deed). insideProject facts path \<Longrightarrow> reachSignalsFor deed facts = []"
  by (simp add: reachSignalsFor_def)

end
