(* ===== verification/Probe_Contention.thy ===== *)
theory Probe_Contention
  imports Kit
begin

text \<open>
  \<open>policy/classifier/probes/contention.ts\<close>: what would trample a worktree someone else stands in. The
  \<open>seen\<close> set of \<open>occupiedBySomeoneElse\<close> is the accumulator of \<open>occupiedAt\<close>.
\<close>

definition CONTENTION_EXEMPT :: "e_deed list" where
  "CONTENTION_EXEMPT = [AddWorktree]"

definition heldNote :: "worktree_fact \<Rightarrow> string" where
  "heldNote wt =
     (if wt_occupancy wt \<noteq> LiveOther then ''''
      else (case wt_heldBy wt of
          None \<Rightarrow> '', held by another live session''
        | Some pid \<Rightarrow> '', held by live process '' @ show_nat pid))"

definition movesTheWholeCheckout :: "deed \<Rightarrow> bool" where
  "movesTheWholeCheckout deed \<longleftrightarrow>
     (if takesSomethingAway deed then False else length (targetsInRealm deed RGitWorktree) > 0)"

definition signalsAt :: "deed \<Rightarrow> workspace_facts \<Rightarrow> worktree_fact \<Rightarrow> risk_signal list" where
  "signalsAt deed facts wt =
     (let subject = ''worktree:'' @ basenameOf (wt_path wt);
          changed = (case wt_changedCount wt of None \<Rightarrow> 0 | Some n \<Rightarrow> n)
      in if changed > 0 \<and> losesSomething deed facts then
           [ungrantable (riskSignal Contention Grave ''contention:dirty-worktree'' subject
             (d_summary deed @ '' in '' @ wt_path wt @ '', which is not ours and carries '' @
              show_nat changed @ '' uncommitted change(s)'' @ heldNote wt))]
         else if wt_occupancy wt = LiveOther then
           [riskSignal Contention Grave ''contention:live-worktree'' subject
             (d_summary deed @ '' in '' @ wt_path wt @ heldNote wt)]
         else if changed = 0 then []
         else if wt_isMain wt \<and> d_action deed = FastForward then []
         else if movesTheWholeCheckout deed then
           [riskSignal Contention Serious ''contention:moves-another-checkout'' subject
             (d_summary deed @ '' in '' @ wt_path wt @
              '', a checkout this session does not stand in, over '' @ show_nat changed @
              '' uncommitted change(s)'')]
         else if wt_isMain wt then []
         else [riskSignal Contention Serious ''contention:writes-into-dirty-worktree'' subject
           (d_summary deed @ '' inside '' @ wt_path wt @ '', another agent'' @ [squote] @
            ''s worktree, which carries '' @ show_nat changed @ '' uncommitted change(s)'')])"

fun occupiedAt :: "deed \<Rightarrow> workspace_facts \<Rightarrow> string set \<Rightarrow> string list \<Rightarrow> risk_signal list" where
  "occupiedAt deed facts seen [] = []"
| "occupiedAt deed facts seen (path # paths) =
     (case worktreeAt facts path of
        None \<Rightarrow> occupiedAt deed facts seen paths
      | Some wt \<Rightarrow>
          if isOurs facts wt then occupiedAt deed facts seen paths
          else if wt_path wt \<in> seen then occupiedAt deed facts seen paths
          else signalsAt deed facts wt @ occupiedAt deed facts (insert (wt_path wt) seen) paths)"

definition occupiedBySomeoneElse :: "deed \<Rightarrow> workspace_facts \<Rightarrow> risk_signal list" where
  "occupiedBySomeoneElse deed facts =
     (if d_action deed \<in> set CONTENTION_EXEMPT then []
      else if \<not> weInspectedTheWorktrees facts then []
      else occupiedAt deed facts {} (placesOf deed))"

definition branchCheckedOutElsewhere :: "deed \<Rightarrow> workspace_facts \<Rightarrow> risk_signal list" where
  "branchCheckedOutElsewhere deed facts =
     (if d_action deed \<noteq> DeleteBranch then []
      else let ours = map_option wt_path (ourWorktree facts) in
        concat (map (\<lambda>ref.
          (let elsewhere = filter (\<lambda>path. Some path \<noteq> ours)
                 (case List.find (\<lambda>rf. rf_ref rf = ref) (f_refs facts) of
                    None \<Rightarrow> [] | Some rf \<Rightarrow> rf_checkedOutAt rf)
           in if length elsewhere = 0 then []
              else [riskSignal Contention Grave ''contention:branch-checked-out'' (''ref:'' @ ref)
                     (''deletes '' @ ref @ '', which is checked out at '' @ join '', '' elsewhere)]))
          (targetsInRealm deed RGitRef)))"

definition contentionProbe :: "call_evidence \<Rightarrow> risk_signal list" where
  "contentionProbe evidence =
     concat (map (\<lambda>deed.
       occupiedBySomeoneElse deed (ce_facts evidence) @
       branchCheckedOutElsewhere deed (ce_facts evidence)) (contendingDeeds evidence))"

section \<open>Lemmas\<close>

lemma signalsAt_dimension: "s \<in> set (signalsAt deed facts wt) \<Longrightarrow> rs_dimension s = Contention"
  by (auto simp: signalsAt_def Let_def split: if_split_asm)

lemma occupiedAt_dimension:
  "s \<in> set (occupiedAt deed facts seen paths) \<Longrightarrow> rs_dimension s = Contention"
  by (induction paths arbitrary: seen)
    (auto dest: signalsAt_dimension split: option.splits if_split_asm)

lemma branchCheckedOutElsewhere_dimension:
  "s \<in> set (branchCheckedOutElsewhere deed facts) \<Longrightarrow> rs_dimension s = Contention"
  by (auto simp: branchCheckedOutElsewhere_def Let_def split: if_split_asm)

interpretation contention: risk_probe Contention contentionProbe
  by unfold_locales
    (auto simp: contentionProbe_def onlyReads_no_deeds occupiedBySomeoneElse_def
      dest: occupiedAt_dimension branchCheckedOutElsewhere_dimension split: if_split_asm)

text \<open>A place in someone else's worktree is judged there, unless that worktree was seen before.\<close>

lemma occupiedAt_raises:
  assumes "path \<in> set paths" and "worktreeAt facts path = Some wt" and "\<not> isOurs facts wt"
    and "wt_path wt \<notin> seen" and same: "\<And>p w. p \<in> set paths \<Longrightarrow> worktreeAt facts p = Some w \<Longrightarrow>
      wt_path w = wt_path wt \<Longrightarrow> w = wt"
  shows "set (signalsAt deed facts wt) \<subseteq> set (occupiedAt deed facts seen paths)"
  using assms
proof (induction paths arbitrary: seen)
  case (Cons p ps)
  show ?case
  proof (cases "p = path")
    case True
    then show ?thesis using Cons.prems by auto
  next
    case False
    then have rest: "path \<in> set ps" using Cons.prems(1) by simp
    have later: "w = wt" if "q \<in> set ps" and "worktreeAt facts q = Some w" and "wt_path w = wt_path wt"
      for q w
      using Cons.prems(5) [of q w] that by simp
    have IH: "set (signalsAt deed facts wt) \<subseteq> set (occupiedAt deed facts seen' ps)"
      if "wt_path wt \<notin> seen'" for seen'
      using Cons.IH [OF rest Cons.prems(2,3) that] later by blast
    show ?thesis
    proof (cases "worktreeAt facts p")
      case None
      then show ?thesis using IH [of seen] Cons.prems(4) by simp
    next
      case (Some w)
      show ?thesis
      proof (cases "wt_path w = wt_path wt")
        case True
        then have "w = wt" using Cons.prems(5) [of p w] Some by simp
        then show ?thesis using Some Cons.prems(3,4) by simp
      next
        case False
        then show ?thesis
          using IH [of seen] IH [of "insert (wt_path w) seen"] Cons.prems(4) Some by auto
      qed
    qed
  qed
qed simp

text \<open>Losing work in a dirty worktree is grave, and nothing the operator granted covers it.\<close>

lemma signalsAt_dirty:
  "wt_changedCount wt = Some n \<Longrightarrow> n > 0 \<Longrightarrow> losesSomething deed facts \<Longrightarrow>
     \<exists>s. signalsAt deed facts wt = [s] \<and> rs_severity s = Grave \<and> rs_ungrantable s"
  by (simp add: signalsAt_def Let_def)

lemma signalsAt_live:
  "wt_occupancy wt = LiveOther \<Longrightarrow> \<exists>s. signalsAt deed facts wt = [s] \<and> rs_severity s = Grave"
  by (simp add: signalsAt_def Let_def)

end
