(* ===== verification/Probe_Shared_History.thy ===== *)
theory Probe_Shared_History
  imports Kit
begin

text \<open>\<open>policy/classifier/probes/shared-history.ts\<close>: what changes history a remote already carries.\<close>

definition branchAt :: "deed \<Rightarrow> workspace_facts \<Rightarrow> string option" where
  "branchAt deed facts =
     (case worktreeAt facts
        (case d_cwd deed of None \<Rightarrow> f_projectDirectory facts | Some cwd \<Rightarrow> cwd) of
        None \<Rightarrow> None
      | Some wt \<Rightarrow> wt_branch wt)"

definition onRemote :: "workspace_facts \<Rightarrow> string \<Rightarrow> bool" where
  "onRemote facts ref \<longleftrightarrow>
     (case List.find (\<lambda>rf. rf_ref rf = ref) (f_refs facts) of
        None \<Rightarrow> False
      | Some rf \<Rightarrow> rf_onRemote rf)"

definition published :: "deed \<Rightarrow> workspace_facts \<Rightarrow> string list" where
  "published deed facts =
     (let named = targetsInRealm deed RGitRef;
          refs = (if length named > 0 then named else option_list (branchAt deed facts))
      in filter (onRemote facts) refs)"

definition sharedHistorySignalsFor :: "deed \<Rightarrow> workspace_facts \<Rightarrow> risk_signal list" where
  "sharedHistorySignalsFor deed facts =
     (if d_action deed = ForcePush then
        map (\<lambda>ref. riskSignal SharedHistory Grave ''shared-history:force-push'' (''ref:'' @ ref)
            (''overwrites '' @ ref @ '', which exists on a remote every other clone fetches''))
          (published deed facts)
      else if d_action deed = DeleteBranch then
        let onARemote = (length (targetsInRealm deed RRemote) > 0) in
        map (\<lambda>ref. riskSignal SharedHistory (if onARemote then Grave else Serious)
            (if onARemote then ''shared-history:delete-remote-branch''
             else ''shared-history:delete-branch'')
            (''ref:'' @ ref)
            (if onARemote then ''deletes '' @ ref @ '' on the remote, where others fetch it''
             else ''deletes '' @ ref @ '', whose commits a remote also carries''))
          (published deed facts)
      else if d_action deed \<noteq> RewriteHistory then []
      else (case branchAt deed facts of
          None \<Rightarrow> []
        | Some ref \<Rightarrow>
            if \<not> onRemote facts ref then []
            else [riskSignal SharedHistory Serious ''shared-history:rewrite'' (''ref:'' @ ref)
                   (''rewrites commits on '' @ ref @ '', which a remote already carries'')]))"

definition sharedHistoryProbe :: "call_evidence \<Rightarrow> risk_signal list" where
  "sharedHistoryProbe evidence =
     concat (map (\<lambda>deed. sharedHistorySignalsFor deed (ce_facts evidence)) (mutatingDeeds evidence))"

lemma sharedHistorySignalsFor_dimension:
  "s \<in> set (sharedHistorySignalsFor deed facts) \<Longrightarrow> rs_dimension s = SharedHistory"
  by (auto simp: sharedHistorySignalsFor_def Let_def split: if_split_asm option.splits)

interpretation shared_history: risk_probe SharedHistory sharedHistoryProbe
  by unfold_locales
    (auto simp: sharedHistoryProbe_def sharedHistorySignalsFor_dimension onlyReads_no_deeds)

text \<open>A force push over a ref that is known to be on a remote is grave, whatever else it names.\<close>

lemma forcePush_grave:
  assumes "d_action deed = ForcePush" and "target RGitRef ref \<in> set (d_targets deed)"
    and "onRemote facts ref"
  shows "\<exists>s \<in> set (sharedHistorySignalsFor deed facts).
      rs_severity s = Grave \<and> rs_subject s = ''ref:'' @ ref"
proof -
  have named: "ref \<in> set (targetsInRealm deed RGitRef)"
    using assms(2) by (force simp: targetsInRealm_def)
  then have "ref \<in> set (published deed facts)"
    using assms(3) by (auto simp: published_def Let_def)
  then show ?thesis using assms(1) by (auto simp: sharedHistorySignalsFor_def)
qed

end
