(* ===== verification/Probe_Exposure.thy ===== *)
theory Probe_Exposure
  imports Kit
begin

text \<open>\<open>policy/classifier/probes/exposure.ts\<close>: what could carry a secret out.\<close>

definition SINKS :: "e_deed list" where
  "SINKS = [DeployEnvironment, PublishArtifact, SendOutbound]"

definition sinkDeeds :: "call_evidence \<Rightarrow> deed list" where
  "sinkDeeds evidence = filter (\<lambda>deed. d_action deed \<in> set SINKS) (ce_deeds evidence)"

definition segmentsRead :: "call_evidence \<Rightarrow> command_segment list" where
  "segmentsRead evidence = (case ce_reading evidence of None \<Rightarrow> [] | Some r \<Rightarrow> cr_segments r)"

definition literalInTheCommand :: "call_evidence \<Rightarrow> bool" where
  "literalInTheCommand evidence \<longleftrightarrow>
     (\<exists>segment \<in> set (segmentsRead evidence).
        \<exists>word \<in> set (cs_rawOperands segment @ cs_flags segment). namesASecretLiteral word)"

definition secretPaths :: "call_evidence \<Rightarrow> string list" where
  "secretPaths evidence =
     filter looksSecretShaped (concat (map placesOf (mutatingDeeds evidence)))"

text \<open>The signals pushed once there is a sink, \<open>sink = sinks[0]\<close>.\<close>

definition intoSink :: "call_evidence \<Rightarrow> deed \<Rightarrow> risk_signal list" where
  "intoSink evidence sink =
     (if literalInTheCommand evidence then
        [ungrantable (riskSignal Exposure Grave ''exposure:literal-credential''
          (''sink:'' @ deedText (d_action sink))
          (d_summary sink @ '' with a credential written into the command itself''))]
      else []) @
     map (\<lambda>path. riskSignal Exposure Grave ''exposure:secret-into-sink'' (''path:'' @ path)
         (d_summary sink @ '' in the same call that touches '' @ path))
       (uniq (secretPaths evidence)) @
     (if \<exists>act \<in> set (ce_recent evidence). ra_readSecretShapedPath act then
        [riskSignal Exposure Serious ''exposure:secret-read-then-sink''
          (''sink:'' @ deedText (d_action sink))
          (d_summary sink @ '' after an earlier call read a credential-shaped file'')]
      else [])"

definition exposureProbe :: "call_evidence \<Rightarrow> risk_signal list" where
  "exposureProbe evidence =
     (case sinkDeeds evidence of
        [] \<Rightarrow>
          map (\<lambda>path. riskSignal Exposure Note ''exposure:secret-shaped-path'' (''path:'' @ path)
              (''touches '' @ path @
               '', which is shaped like a credential file, and sends nothing anywhere''))
            (uniq (secretPaths evidence))
      | sink # _ \<Rightarrow> intoSink evidence sink)"

lemma onlyReads_no_secrets: "onlyReads evidence \<Longrightarrow> secretPaths evidence = []"
  by (simp add: secretPaths_def onlyReads_no_deeds)

lemma onlyReads_no_sinks: "onlyReads evidence \<Longrightarrow> sinkDeeds evidence = []"
  by (auto simp: onlyReads_def sinkDeeds_def SINKS_def filter_empty_conv)

interpretation exposure: risk_probe Exposure exposureProbe
proof
  show "rs_dimension s = Exposure" if "s \<in> set (exposureProbe evidence)" for s evidence
    using that by (auto simp: exposureProbe_def intoSink_def split: list.splits if_split_asm)
  show "exposureProbe evidence = []" if "onlyReads evidence" for evidence
    using that by (simp add: exposureProbe_def onlyReads_no_secrets onlyReads_no_sinks)
qed

text \<open>A credential written into a command that sends anything out is grave and ungrantable.\<close>

lemma exposure_literal:
  assumes "d \<in> set (ce_deeds evidence)" and "d_action d \<in> set SINKS"
    and "literalInTheCommand evidence"
  shows "\<exists>s \<in> set (exposureProbe evidence). rs_severity s = Grave \<and> rs_ungrantable s"
proof -
  have "d \<in> set (sinkDeeds evidence)" using assms(1,2) by (simp add: sinkDeeds_def)
  then obtain sink more where "sinkDeeds evidence = sink # more" by (cases "sinkDeeds evidence") auto
  then have "exposureProbe evidence = intoSink evidence sink" by (simp add: exposureProbe_def)
  moreover have "\<exists>s \<in> set (intoSink evidence sink). rs_severity s = Grave \<and> rs_ungrantable s"
    using assms(3) by (simp add: intoSink_def)
  ultimately show ?thesis by simp
qed

end
