(* ===== verification/Probe_Provenance.thy ===== *)
theory Probe_Provenance
  imports Kit
begin

text \<open>\<open>policy/classifier/probes/provenance.ts\<close>: changes made after reading content nobody here wrote.\<close>

definition provenanceProbe :: "call_evidence \<Rightarrow> risk_signal list" where
  "provenanceProbe evidence =
     (let ingested = filter ra_ingestedUntrustedContent (ce_recent evidence) in
      if length ingested = 0 then []
      else let deeds = mutatingDeeds evidence in
        if length deeds = 0 then []
        else let loses = (\<exists>deed \<in> set deeds. losesSomething deed (ce_facts evidence));
                 sources = join '', '' (uniq (map ra_name ingested))
          in [riskSignal Provenance (if loses then Serious else Note)
               ''provenance:after-untrusted-content''
               (''source:'' @ (case at ingested 0 of None \<Rightarrow> ce_toolName evidence | Some a \<Rightarrow> ra_name a))
               ((case at deeds 0 of None \<Rightarrow> ''changes something'' | Some d \<Rightarrow> d_summary d) @
                '' after this turn read content Atlas did not author ('' @ sources @ '')'')])"

interpretation provenance: risk_probe Provenance provenanceProbe
proof
  show "rs_dimension s = Provenance" if "s \<in> set (provenanceProbe evidence)" for s evidence
    using that by (simp add: provenanceProbe_def Let_def split: if_split_asm)
  show "provenanceProbe evidence = []" if "onlyReads evidence" for evidence
    using that by (simp add: provenanceProbe_def onlyReads_no_deeds Let_def)
qed

end
