(* ===== verification/Probe_Blast.thy ===== *)
theory Probe_Blast
  imports Kit
begin

text \<open>
  \<open>policy/classifier/probes/blast.ts\<close>: what reaches further than anything the reader could see: whole
  trees, commands that expand or are fetched at run time, tools that declare no paths.
\<close>

definition WHOLE_MACHINE :: "string list" where
  "WHOLE_MACHINE = [''/'', ''~'', ''.'']"

definition CONSEQUENTIAL :: "e_tool_effect list" where
  "CONSEQUENTIAL = [EffDestructive, EffWrite]"

definition wholeTree :: "workspace_facts \<Rightarrow> string \<Rightarrow> bool" where
  "wholeTree facts path \<longleftrightarrow>
     (let normalised = normalisePath path in
      normalised \<in> set WHOLE_MACHINE \<or> normalised = f_projectDirectory facts \<or>
      map_option wt_path (worktreeAt facts path) = Some normalised)"

text \<open>The body of the loop of \<open>sweepingAWholeTree\<close> over the places of a deed.\<close>

definition sweepingAt :: "workspace_facts \<Rightarrow> string \<Rightarrow> risk_signal list" where
  "sweepingAt facts path =
     (if \<not> wholeTree facts path then []
      else if isRegenerable facts path then []
      else [riskSignal Blast Grave ''blast:removes-a-whole-tree''
             (''path:'' @ normalisePath path)
             (''removes '' @ normalisePath path @ '' whole, not a path inside it'')])"

definition sweepingAWholeTree :: "deed \<Rightarrow> workspace_facts \<Rightarrow> risk_signal list" where
  "sweepingAWholeTree deed facts =
     (if d_action deed \<noteq> RemovePath then []
      else concat (map (sweepingAt facts) (placesOf deed)))"

definition cleaning :: "deed \<Rightarrow> call_evidence \<Rightarrow> risk_signal list" where
  "cleaning deed evidence =
     (if d_action deed \<noteq> CleanUntracked then []
      else if length (targetsInRealm deed RGitWorktree) = 0 then []
      else let ignoredToo = anySegmentFlagged
                 (segmentsRunning (ce_reading evidence) ''git'' ''clean'') [''-x'', ''-X'']
        in [riskSignal Blast (if ignoredToo then Grave else Serious) ''blast:clean-whole-tree''
             (worktreeSubject (ce_facts evidence) (case d_cwd deed of None \<Rightarrow> '''' | Some c \<Rightarrow> c))
             (if ignoredToo
              then ''removes every untracked and every ignored file in the tree, naming no pathspec''
              else ''removes every untracked file in the tree, naming no pathspec'')])"

text \<open>The three groups of signals \<open>unreadableShell\<close> pushes, in order.\<close>

definition pipedInto :: "command_segment list \<Rightarrow> risk_signal list" where
  "pipedInto segments =
     concat (map (\<lambda>(index, segment).
       (if \<not> cs_pipesIntoInterpreter segment then []
        else let interpreter = (case at segments (index + 1) of
                   None \<Rightarrow> cs_program segment | Some follower \<Rightarrow> cs_program follower)
          in [riskSignal Blast Grave ''blast:pipes-into-interpreter''
               (''interpreter:'' @ interpreter)
               (''pipes fetched bytes straight into '' @ interpreter @
                '', so nothing read what runs'')]))
       (enumerate 0 segments))"

definition blindOperands :: "command_segment list \<Rightarrow> risk_signal list" where
  "blindOperands segments =
     map (\<lambda>segment. unverified (riskSignal Blast Grave ''blast:unresolved-destructive-operand''
         (''expansion:'' @ (case at (cs_unresolvedExpansions segment) 0 of
            None \<Rightarrow> cs_program segment | Some first \<Rightarrow> first))
         (cs_program segment @ '' destroys operands that expand at run time ('' @
          join '', '' (cs_unresolvedExpansions segment) @ '')'')))
       (filter (\<lambda>s. destroysItsOperands s \<and> length (cs_unresolvedExpansions s) > 0) segments)"

definition opaqueDestructive :: "call_evidence \<Rightarrow> command_reading \<Rightarrow> risk_signal list" where
  "opaqueDestructive evidence reading =
     (if cr_confidence reading = Conf_Opaque \<and> ce_effect evidence = EffDestructive then
        [unverified (riskSignal Blast Serious ''blast:opaque-destructive-command''
          (''command:'' @ (case List.find destroysItsOperands (cr_segments reading) of
             None \<Rightarrow> ce_toolName evidence | Some destroying \<Rightarrow> cs_program destroying))
          ''a destructive tool was handed a command the reader could not resolve'')]
      else [])"

definition unreadableShell :: "call_evidence \<Rightarrow> risk_signal list" where
  "unreadableShell evidence =
     (case ce_reading evidence of
        None \<Rightarrow> []
      | Some reading \<Rightarrow> pipedInto (cr_segments reading) @ blindOperands (cr_segments reading) @
          opaqueDestructive evidence reading)"

definition anUnreadableWorkspace :: "call_evidence \<Rightarrow> risk_signal list" where
  "anUnreadableWorkspace evidence =
     (if \<not> weLookedAtNothing (ce_facts evidence) then []
      else if length (mutatingDeeds evidence) = 0 then []
      else [riskSignal Blast Note ''blast:workspace-unreadable''
             (''workspace:'' @ f_projectDirectory (ce_facts evidence))
             ''Atlas could not read the workspace, so the probes that need it stayed silent''])"

definition anUndeclaredTool :: "call_evidence \<Rightarrow> risk_signal list" where
  "anUndeclaredTool evidence =
     (if ce_reading evidence \<noteq> None then []
      else if ce_effect evidence \<notin> set CONSEQUENTIAL then []
      else if \<not> (\<exists>deed \<in> set (ce_deeds evidence). d_action deed = Unreadable) then []
      else [riskSignal Blast Serious ''blast:undeclared-paths'' (''tool:'' @ ce_toolName evidence)
             (ce_toolName evidence @ '' changes the world without declaring which paths it touches, '' @
              ''so no probe can see what it would reach'')])"

definition dependencies :: "deed \<Rightarrow> call_evidence \<Rightarrow> risk_signal list" where
  "dependencies deed evidence =
     (if d_action deed \<noteq> MutateDependencies then []
      else let managers = filter (\<lambda>segment. cs_program segment \<in> set packageManagers)
                 (case ce_reading evidence of None \<Rightarrow> [] | Some r \<Rightarrow> cr_segments r);
               forced = anySegmentFlagged managers [''--force'', ''-f''];
               trusts = (\<exists>segment \<in> set managers. cs_verb segment = Some ''pm'' \<and>
                 ''trust'' \<in> set (cs_rawOperands segment))
        in [riskSignal Blast (if forced \<or> trusts then Serious else Note) ''blast:dependency-change''
             (''dependencies:'' @ (case at managers 0 of
                None \<Rightarrow> ce_toolName evidence | Some m \<Rightarrow> cs_program m))
             (if forced \<or> trusts
              then ''changes dependencies past the lockfile or the postinstall allowlist''
              else ''changes the installed dependencies and the lockfile'')])"

definition blastProbe :: "call_evidence \<Rightarrow> risk_signal list" where
  "blastProbe evidence =
     unreadableShell evidence @ anUndeclaredTool evidence @ anUnreadableWorkspace evidence @
     concat (map (\<lambda>deed.
       sweepingAWholeTree deed (ce_facts evidence) @ cleaning deed evidence @
       dependencies deed evidence) (mutatingDeeds evidence))"

section \<open>Lemmas\<close>

lemma sweepingAWholeTree_dimension:
  "s \<in> set (sweepingAWholeTree deed facts) \<Longrightarrow> rs_dimension s = Blast"
  by (auto simp: sweepingAWholeTree_def sweepingAt_def split: if_split_asm)

lemma cleaning_dimension: "s \<in> set (cleaning deed evidence) \<Longrightarrow> rs_dimension s = Blast"
  by (simp add: cleaning_def Let_def split: if_split_asm)

lemma dependencies_dimension: "s \<in> set (dependencies deed evidence) \<Longrightarrow> rs_dimension s = Blast"
  by (simp add: dependencies_def Let_def split: if_split_asm)

lemma pipedInto_dimension: "s \<in> set (pipedInto segments) \<Longrightarrow> rs_dimension s = Blast"
  by (auto simp: pipedInto_def Let_def split: if_split_asm)

lemma unreadableShell_dimension: "s \<in> set (unreadableShell evidence) \<Longrightarrow> rs_dimension s = Blast"
  by (auto simp: unreadableShell_def blindOperands_def opaqueDestructive_def
      dest: pipedInto_dimension split: option.splits if_split_asm)

lemma undeclared_dimension:
  "s \<in> set (anUndeclaredTool evidence) \<Longrightarrow> rs_dimension s = Blast"
  "s \<in> set (anUnreadableWorkspace evidence) \<Longrightarrow> rs_dimension s = Blast"
  by (simp_all add: anUndeclaredTool_def anUnreadableWorkspace_def split: if_split_asm)

lemma pipedInto_Nil:
  "\<forall>segment \<in> set segments. \<not> cs_pipesIntoInterpreter segment \<Longrightarrow> pipedInto segments = []"
  by (auto simp: pipedInto_def in_set_enumerate_eq)

lemma onlyReads_shell: "onlyReads evidence \<Longrightarrow> unreadableShell evidence = []"
  by (auto simp: onlyReads_def quietReading_def unreadableShell_def opaqueDestructive_def
      blindOperands_def filter_empty_conv intro: pipedInto_Nil split: option.splits)

lemma onlyReads_undeclared: "onlyReads evidence \<Longrightarrow> anUndeclaredTool evidence = []"
  by (auto simp: onlyReads_def anUndeclaredTool_def)

interpretation blast: risk_probe Blast blastProbe
proof
  show "rs_dimension s = Blast" if "s \<in> set (blastProbe evidence)" for s evidence
    using that unfolding blastProbe_def
    by (auto dest: sweepingAWholeTree_dimension cleaning_dimension dependencies_dimension
        unreadableShell_dimension undeclared_dimension)
  show "blastProbe evidence = []" if "onlyReads evidence" for evidence
    using that
    by (simp add: blastProbe_def onlyReads_shell onlyReads_undeclared onlyReads_no_deeds
        anUnreadableWorkspace_def)
qed

text \<open>Removing the root of the machine, of the project or of a worktree is grave.\<close>

lemma sweepingAWholeTree_raises:
  assumes "d_action deed = RemovePath" and "path \<in> set (placesOf deed)"
    and "wholeTree facts path" and "\<not> isRegenerable facts path"
  shows "\<exists>s \<in> set (sweepingAWholeTree deed facts). rs_severity s = Grave"
proof -
  have "set (sweepingAt facts path) \<subseteq> set (sweepingAWholeTree deed facts)"
    using assms(1,2) by (auto simp: sweepingAWholeTree_def)
  moreover have "\<exists>s \<in> set (sweepingAt facts path). rs_severity s = Grave"
    using assms(3,4) by (simp add: sweepingAt_def)
  ultimately show ?thesis by blast
qed

end
