(* ===== verification/Signals.thy ===== *)
theory Signals
  imports Probe_Irreversibility Probe_Reach Probe_Contention Probe_Shared_History Probe_Exposure
    Probe_Provenance Probe_Blast
begin

text \<open>
  \<open>policy/classifier/signals.ts\<close>: running the probes over one call and keeping one signal per id and
  subject. A probe that throws contributes nothing: it is the result \<open>None\<close>. The loop over the
  probes carries the set \<open>seen\<close>.
\<close>

section \<open>Definitions\<close>

record signal_probe =
  sp_dimension :: e_risk_dimension
  sp_probe :: "call_evidence \<Rightarrow> risk_signal list option"

definition reachesSeverity :: "e_severity \<Rightarrow> e_severity \<Rightarrow> bool" where
  "reachesSeverity severity floor \<longleftrightarrow> severityRank severity \<ge> severityRank floor"

definition RISK_PROBES :: "signal_probe list" where
  "RISK_PROBES =
     [\<lparr>sp_dimension = Irreversibility, sp_probe = \<lambda>e. Some (irreversibilityProbe e)\<rparr>,
      \<lparr>sp_dimension = Reach, sp_probe = \<lambda>e. Some (reachProbe e)\<rparr>,
      \<lparr>sp_dimension = Contention, sp_probe = \<lambda>e. Some (contentionProbe e)\<rparr>,
      \<lparr>sp_dimension = SharedHistory, sp_probe = \<lambda>e. Some (sharedHistoryProbe e)\<rparr>,
      \<lparr>sp_dimension = Exposure, sp_probe = \<lambda>e. Some (exposureProbe e)\<rparr>,
      \<lparr>sp_dimension = Provenance, sp_probe = \<lambda>e. Some (provenanceProbe e)\<rparr>,
      \<lparr>sp_dimension = Blast, sp_probe = \<lambda>e. Some (blastProbe e)\<rparr>]"

definition signalKey :: "risk_signal \<Rightarrow> string" where
  "signalKey signal = rs_id signal @ ''|'' @ rs_subject signal"

fun gatherSignals ::
  "call_evidence \<Rightarrow> string set \<Rightarrow> signal_probe list \<Rightarrow> risk_signal list" where
  "gatherSignals evidence seen [] = []"
| "gatherSignals evidence seen (probe # probes) =
     (case sp_probe probe evidence of
        None \<Rightarrow> gatherSignals evidence seen probes
      | Some raised \<Rightarrow>
          uniq_by signalKey seen raised @
          gatherSignals evidence (seen \<union> signalKey ` set raised) probes)"

definition signalsFor :: "call_evidence \<Rightarrow> signal_probe list option \<Rightarrow> risk_signal list" where
  "signalsFor evidence probes =
     gatherSignals evidence {} (case probes of None \<Rightarrow> RISK_PROBES | Some given \<Rightarrow> given)"

lemma reachesSeverity_iff: "reachesSeverity severity floor \<longleftrightarrow> floor \<le> severity"
  by (simp add: reachesSeverity_def less_eq_e_severity_def)

section \<open>What the loop keeps\<close>

text \<open>All the probes raise, in order, before any deduplication.\<close>

definition raisedBy :: "call_evidence \<Rightarrow> signal_probe list \<Rightarrow> risk_signal list" where
  "raisedBy evidence probes =
     concat (map (\<lambda>p. case sp_probe p evidence of None \<Rightarrow> [] | Some raised \<Rightarrow> raised) probes)"

lemma gatherSignals_eq:
  "gatherSignals evidence seen probes = uniq_by signalKey seen (raisedBy evidence probes)"
  by (induction probes arbitrary: seen)
    (auto simp: raisedBy_def uniq_by_append split: option.splits)

lemma signalsFor_eq:
  "signalsFor evidence probes =
     uniq_by signalKey {} (raisedBy evidence (case probes of None \<Rightarrow> RISK_PROBES | Some ps \<Rightarrow> ps))"
  by (simp add: signalsFor_def gatherSignals_eq)

lemma raisedBy_RISK_PROBES:
  "raisedBy evidence RISK_PROBES =
     irreversibilityProbe evidence @ reachProbe evidence @ contentionProbe evidence @
     sharedHistoryProbe evidence @ exposureProbe evidence @ provenanceProbe evidence @
     blastProbe evidence"
  by (simp add: raisedBy_def RISK_PROBES_def)

section \<open>The interface of a set of probes\<close>

text \<open>What triage relies on, of whatever list of probes it is given.\<close>

locale probe_set =
  fixes probes :: "signal_probe list"
  assumes speaks: "p \<in> set probes \<Longrightarrow> sp_probe p evidence = Some raised \<Longrightarrow> s \<in> set raised \<Longrightarrow>
      rs_dimension s = sp_dimension p"
    and silent: "p \<in> set probes \<Longrightarrow> onlyReads evidence \<Longrightarrow> sp_probe p evidence = Some raised \<Longrightarrow>
      raised = []"
begin

lemma raised_dimension:
  assumes "s \<in> set (raisedBy evidence probes)"
  shows "rs_dimension s \<in> sp_dimension ` set probes"
proof -
  from assms obtain p raised where "p \<in> set probes" "sp_probe p evidence = Some raised" "s \<in> set raised"
    by (auto simp: raisedBy_def split: option.splits) metis
  with speaks show ?thesis by auto
qed

lemma kept_dimension:
  "s \<in> set (signalsFor evidence (Some probes)) \<Longrightarrow> rs_dimension s \<in> sp_dimension ` set probes"
  by (auto simp: signalsFor_eq dest: uniq_by_subset raised_dimension)

lemma quiet_raises_nothing:
  assumes "onlyReads evidence"
  shows "raisedBy evidence probes = []"
  using silent [OF _ assms] by (force simp: raisedBy_def split: option.splits)

lemma quiet_signals: "onlyReads evidence \<Longrightarrow> signalsFor evidence (Some probes) = []"
  by (simp add: signalsFor_eq quiet_raises_nothing)

end

interpretation risk_probes: probe_set RISK_PROBES
proof
  fix p evidence raised s
  assume p: "p \<in> set RISK_PROBES" and some: "sp_probe p evidence = Some raised"
  show "rs_dimension s = sp_dimension p" if "s \<in> set raised"
    using p some that irreversibility.own_dimension reach.own_dimension contention.own_dimension
      shared_history.own_dimension exposure.own_dimension provenance.own_dimension
      blast.own_dimension
    by (auto simp: RISK_PROBES_def)
  show "raised = []" if "onlyReads evidence"
    using p some that irreversibility.quiet reach.quiet contention.quiet shared_history.quiet
      exposure.quiet provenance.quiet blast.quiet
    by (auto simp: RISK_PROBES_def)
qed

end
