(* ===== verification/Signal_Facts.thy ===== *)
theory Signal_Facts
  imports Signals
begin

text \<open>
  What is true of every signal the seven probes raise, whatever the evidence: a catalogue of their
  ids, and what deduplication keeps of them.
\<close>

section \<open>The catalogue\<close>

text \<open>The catalogue: an id determines whether a grant can cover it and whether it is verified, and the
  ids of \<open>ALWAYS_GRAVE\<close> are only raised as grave.\<close>

definition ALWAYS_GRAVE :: "string list" where
  "ALWAYS_GRAVE =
     [''irreversibility:force-remove-worktree'', ''irreversibility:drop-recovery'',
      ''contention:dirty-worktree'', ''contention:live-worktree'', ''contention:branch-checked-out'',
      ''shared-history:force-push'', ''shared-history:delete-remote-branch'',
      ''exposure:literal-credential'', ''exposure:secret-into-sink'',
      ''blast:pipes-into-interpreter'', ''blast:unresolved-destructive-operand'',
      ''blast:removes-a-whole-tree'']"

definition NEVER_GRANTABLE :: "string list" where
  "NEVER_GRANTABLE = [''contention:dirty-worktree'', ''exposure:literal-credential'']"

definition NEVER_VERIFIED :: "string list" where
  "NEVER_VERIFIED = [''blast:unresolved-destructive-operand'', ''blast:opaque-destructive-command'']"

definition entry :: "e_risk_dimension \<Rightarrow> string \<Rightarrow> e_severity \<Rightarrow> bool \<Rightarrow> bool \<Rightarrow> bool" where
  "entry dimension ident severity isUngrantable isUnverified \<longleftrightarrow>
     takeWhile (\<lambda>c. c \<noteq> CHR '':'') ident = dimensionText dimension \<and>
     CHR ''|'' \<notin> set ident \<and>
     (ident \<in> set ALWAYS_GRAVE \<longrightarrow> severity = Grave) \<and>
     (isUngrantable \<longleftrightarrow> ident \<in> set NEVER_GRANTABLE) \<and>
     (isUnverified \<longleftrightarrow> ident \<in> set NEVER_VERIFIED)"

definition catalogued :: "risk_signal \<Rightarrow> bool" where
  "catalogued s \<longleftrightarrow> entry (rs_dimension s) (rs_id s) (rs_severity s) (rs_ungrantable s) (rs_unverified s)"

lemma catalogued_simps [simp]:
  "catalogued (riskSignal d v i sub det) \<longleftrightarrow> entry d i v False False"
  "catalogued (ungrantable (riskSignal d v i sub det)) \<longleftrightarrow> entry d i v True False"
  "catalogued (unverified (riskSignal d v i sub det)) \<longleftrightarrow> entry d i v False True"
  by (simp_all add: catalogued_def)

lemma entries [simp]:
  "entry Irreversibility ''irreversibility:discard-pathspec'' Note False False"
  "entry Irreversibility ''irreversibility:discard-tree'' Serious False False"
  "entry Irreversibility ''irreversibility:discard-tree'' Grave False False"
  "entry Irreversibility ''irreversibility:remove-inside-project'' Note False False"
  "entry Irreversibility ''irreversibility:remove-outside-project'' Serious False False"
  "entry Irreversibility ''irreversibility:force-remove-worktree'' Grave False False"
  "entry Irreversibility ''irreversibility:remove-worktree'' Note False False"
  "entry Irreversibility ''irreversibility:drop-recovery'' Grave False False"
  "entry Irreversibility ''irreversibility:stash'' Serious False False"
  "entry Reach ''reach:outside-project'' Note False False"
  "entry Reach ''reach:outside-project'' Serious False False"
  "entry Contention ''contention:dirty-worktree'' Grave True False"
  "entry Contention ''contention:live-worktree'' Grave False False"
  "entry Contention ''contention:moves-another-checkout'' Serious False False"
  "entry Contention ''contention:writes-into-dirty-worktree'' Serious False False"
  "entry Contention ''contention:branch-checked-out'' Grave False False"
  "entry SharedHistory ''shared-history:force-push'' Grave False False"
  "entry SharedHistory ''shared-history:delete-remote-branch'' Grave False False"
  "entry SharedHistory ''shared-history:delete-branch'' Serious False False"
  "entry SharedHistory ''shared-history:rewrite'' Serious False False"
  "entry Exposure ''exposure:literal-credential'' Grave True False"
  "entry Exposure ''exposure:secret-into-sink'' Grave False False"
  "entry Exposure ''exposure:secret-read-then-sink'' Serious False False"
  "entry Exposure ''exposure:secret-shaped-path'' Note False False"
  "entry Provenance ''provenance:after-untrusted-content'' Note False False"
  "entry Provenance ''provenance:after-untrusted-content'' Serious False False"
  "entry Blast ''blast:pipes-into-interpreter'' Grave False False"
  "entry Blast ''blast:unresolved-destructive-operand'' Grave False True"
  "entry Blast ''blast:opaque-destructive-command'' Serious False True"
  "entry Blast ''blast:undeclared-paths'' Serious False False"
  "entry Blast ''blast:workspace-unreadable'' Note False False"
  "entry Blast ''blast:removes-a-whole-tree'' Grave False False"
  "entry Blast ''blast:clean-whole-tree'' Grave False False"
  "entry Blast ''blast:clean-whole-tree'' Serious False False"
  "entry Blast ''blast:dependency-change'' Serious False False"
  "entry Blast ''blast:dependency-change'' Note False False"
  by code_simp+

lemma discarding_catalogued: "s \<in> set (discarding deed facts) \<Longrightarrow> catalogued s"
  by (auto simp: discarding_def Let_def split: if_split_asm)

lemma removing_catalogued: "s \<in> set (removing deed facts) \<Longrightarrow> catalogued s"
  by (auto simp: removing_def removingAt_def split: if_split_asm)

lemma removingAWorktree_catalogued: "s \<in> set (removingAWorktree deed evidence) \<Longrightarrow> catalogued s"
  by (auto simp: removingAWorktree_def Let_def split: if_split_asm)

lemma irreversibilitySignalsFor_catalogued:
  "s \<in> set (irreversibilitySignalsFor deed evidence) \<Longrightarrow> catalogued s"
  by (auto simp: irreversibilitySignalsFor_def droppingRecovery_def Let_def
      dest: discarding_catalogued removing_catalogued removingAWorktree_catalogued split: if_split_asm)

lemma irreversibility_catalogued: "s \<in> set (irreversibilityProbe evidence) \<Longrightarrow> catalogued s"
  by (auto simp: irreversibilityProbe_def dest: irreversibilitySignalsFor_catalogued)

lemma reach_catalogued: "s \<in> set (reachProbe evidence) \<Longrightarrow> catalogued s"
  by (auto simp: reachProbe_def reachSignalsFor_def split: if_split_asm prod.splits)

lemma signalsAt_catalogued: "s \<in> set (signalsAt deed facts wt) \<Longrightarrow> catalogued s"
  by (auto simp: signalsAt_def Let_def split: if_split_asm)

lemma occupiedAt_catalogued: "s \<in> set (occupiedAt deed facts seen paths) \<Longrightarrow> catalogued s"
  by (induction paths arbitrary: seen)
    (auto dest: signalsAt_catalogued split: option.splits if_split_asm)

lemma branch_catalogued: "s \<in> set (branchCheckedOutElsewhere deed facts) \<Longrightarrow> catalogued s"
  by (auto simp: branchCheckedOutElsewhere_def Let_def split: if_split_asm)

lemma contention_catalogued: "s \<in> set (contentionProbe evidence) \<Longrightarrow> catalogued s"
  by (auto simp: contentionProbe_def occupiedBySomeoneElse_def
      dest: occupiedAt_catalogued branch_catalogued split: if_split_asm)

lemma shared_history_catalogued: "s \<in> set (sharedHistoryProbe evidence) \<Longrightarrow> catalogued s"
  unfolding sharedHistoryProbe_def
  by (auto simp: sharedHistorySignalsFor_def Let_def
      split: if_split_asm option.splits)

lemma exposure_catalogued: "s \<in> set (exposureProbe evidence) \<Longrightarrow> catalogued s"
  by (auto simp: exposureProbe_def intoSink_def split: if_split_asm list.splits)

lemma provenance_catalogued: "s \<in> set (provenanceProbe evidence) \<Longrightarrow> catalogued s"
  by (auto simp: provenanceProbe_def Let_def split: if_split_asm)

lemma pipedInto_catalogued: "s \<in> set (pipedInto segments) \<Longrightarrow> catalogued s"
  by (auto simp: pipedInto_def Let_def split: if_split_asm)

lemma unreadableShell_catalogued: "s \<in> set (unreadableShell evidence) \<Longrightarrow> catalogued s"
  by (auto simp: unreadableShell_def blindOperands_def opaqueDestructive_def
      dest: pipedInto_catalogued split: option.splits if_split_asm)

lemma tree_catalogued:
  "s \<in> set (sweepingAWholeTree deed facts) \<Longrightarrow> catalogued s"
  "s \<in> set (cleaning deed evidence) \<Longrightarrow> catalogued s"
  "s \<in> set (dependencies deed evidence) \<Longrightarrow> catalogued s"
  by (auto simp: sweepingAWholeTree_def sweepingAt_def cleaning_def dependencies_def Let_def
      split: if_split_asm)

lemma tool_catalogued:
  "s \<in> set (anUndeclaredTool evidence) \<Longrightarrow> catalogued s"
  "s \<in> set (anUnreadableWorkspace evidence) \<Longrightarrow> catalogued s"
  by (simp_all add: anUndeclaredTool_def anUnreadableWorkspace_def split: if_split_asm)

lemma blast_catalogued: "s \<in> set (blastProbe evidence) \<Longrightarrow> catalogued s"
  unfolding blastProbe_def
  by (auto dest: unreadableShell_catalogued tree_catalogued tool_catalogued)

lemma raised_catalogued: "s \<in> set (raisedBy evidence RISK_PROBES) \<Longrightarrow> catalogued s"
  unfolding raisedBy_RISK_PROBES
  by (auto intro: irreversibility_catalogued reach_catalogued contention_catalogued
    shared_history_catalogued exposure_catalogued provenance_catalogued blast_catalogued)

lemma signals_catalogued: "s \<in> set (signalsFor evidence None) \<Longrightarrow> catalogued s"
  by (auto simp: signalsFor_eq dest: uniq_by_subset intro: raised_catalogued)

lemma split_first: "c \<notin> set u \<Longrightarrow> c \<notin> set v \<Longrightarrow> u @ c # x = v @ c # y \<Longrightarrow> u = v \<and> x = y"
  by (induction u arbitrary: v) (auto simp: Cons_eq_append_conv append_eq_Cons_conv)

lemma signalKey_inj:
  assumes "catalogued s" and "catalogued t" and "signalKey s = signalKey t"
  shows "rs_id s = rs_id t \<and> rs_subject s = rs_subject t"
  using assms split_first [of "CHR ''|''" "rs_id s" "rs_id t" "rs_subject s" "rs_subject t"]
  by (simp add: catalogued_def entry_def signalKey_def)

lemma dimensionText_inj: "dimensionText d = dimensionText e \<Longrightarrow> d = e"
  by (cases d; cases e) simp_all

text \<open>What was raised is represented: a signal of the same id, subject and dimension is kept.\<close>

lemma raised_kept:
  assumes "s \<in> set (raisedBy evidence RISK_PROBES)"
  shows "\<exists>t \<in> set (signalsFor evidence None).
    rs_id t = rs_id s \<and> rs_subject t = rs_subject s \<and> rs_dimension t = rs_dimension s"
proof -
  have "signalKey s \<in> signalKey ` set (signalsFor evidence None)"
    using assms uniq_by_keys [of signalKey "{}" "raisedBy evidence RISK_PROBES"]
    by (simp add: signalsFor_eq)
  then obtain t where t: "t \<in> set (signalsFor evidence None)" "signalKey t = signalKey s" by auto
  have cat: "catalogued s" "catalogued t"
    using assms t(1) by (simp_all add: raised_catalogued signals_catalogued)
  with signalKey_inj [of t s] t(2) have "rs_id t = rs_id s" "rs_subject t = rs_subject s" by auto
  with cat have "dimensionText (rs_dimension t) = dimensionText (rs_dimension s)"
    by (simp add: catalogued_def entry_def)
  with t(1) \<open>rs_id t = rs_id s\<close> \<open>rs_subject t = rs_subject s\<close> show ?thesis
    using dimensionText_inj by blast
qed

section \<open>Properties\<close>

text \<open>C23: signals are deduplicated by id and subject, and nothing but duplicates is dropped: the signals
  of a call have distinct keys, every raised signal has one of them, and the one that is kept is the
  first that was raised with its key. In particular severity plays no part in which one is kept.\<close>

theorem signalsFor_first_of_key:
  "distinct (map signalKey (signalsFor evidence probes)) \<and>
   signalKey ` set (signalsFor evidence probes) =
     signalKey ` set (raisedBy evidence (case probes of None \<Rightarrow> RISK_PROBES | Some ps \<Rightarrow> ps)) \<and>
   set (signalsFor evidence probes) =
     {s. List.find (\<lambda>r. signalKey r = signalKey s)
       (raisedBy evidence (case probes of None \<Rightarrow> RISK_PROBES | Some ps \<Rightarrow> ps)) = Some s}"
  by (auto simp: signalsFor_eq uniq_by_distinct uniq_by_keys uniq_by_first)

text \<open>A call that sends a literal credential out, for the witnesses.\<close>

definition literalEvidence :: call_evidence where
  "literalEvidence =
     \<lparr>ce_deeds = [\<lparr>d_action = SendOutbound, d_toolName = ''bash'', d_targets = [],
        d_cwd = Some ''/w/p'', d_summary = ''sends a request''\<rparr>],
      ce_toolName = ''bash'', ce_effect = EffDestructive, ce_threadId = ''t'',
      ce_reading = Some \<lparr>cr_confidence = Conf_Read,
        cr_segments = [\<lparr>cs_program = ''curl'', cs_verb = None, cs_flags = [''-d''],
          cs_operands = [], cs_rawOperands = [''key=sk-0123456789''], cs_cwd = Some ''/w/p'',
          cs_redirectsInto = [], cs_pipesIntoInterpreter = False, cs_unresolvedExpansions = []\<rparr>],
        cr_command = ''curl''\<rparr>,
      ce_facts = NO_FACTS, ce_recent = [], ce_said = [], ce_grants = []\<rparr>"



end
