(* ===== verification/Ordered_Map.thy ===== *)
theory Ordered_Map
  imports Prelude
begin

text \<open>
  The JavaScript \<open>Map\<close>: entries in the order their keys were first set. Setting a present key keeps its
  place, deleting and setting it again moves it to the end. The interface \<open>ordered_map\<close> says what the
  loops over events rely on, and proves once that after any run of writes each key carries what the
  last write to it says.
\<close>

section \<open>The model\<close>

fun map_put :: "'k \<Rightarrow> 'v \<Rightarrow> ('k \<times> 'v) list \<Rightarrow> ('k \<times> 'v) list" where
  "map_put k v [] = [(k, v)]"
| "map_put k v ((k', v') # m) = (if k' = k then (k, v) # m else (k', v') # map_put k v m)"

definition map_del :: "'k \<Rightarrow> ('k \<times> 'v) list \<Rightarrow> ('k \<times> 'v) list" where
  "map_del k m = filter (\<lambda>(k', _). k' \<noteq> k) m"

section \<open>Writes\<close>

datatype ('k, 'v) map_write = Put 'k 'v | Del 'k | Keep

fun writesTo :: "'k \<Rightarrow> ('k, 'v) map_write \<Rightarrow> bool" where
  "writesTo k (Put k' _) \<longleftrightarrow> k' = k"
| "writesTo k (Del k') \<longleftrightarrow> k' = k"
| "writesTo k Keep \<longleftrightarrow> False"

section \<open>The interface\<close>

locale ordered_map =
  fixes entries :: "'m \<Rightarrow> ('k \<times> 'v) list"
    and empty :: 'm
    and put :: "'k \<Rightarrow> 'v \<Rightarrow> 'm \<Rightarrow> 'm"
    and del :: "'k \<Rightarrow> 'm \<Rightarrow> 'm"
  assumes empty_entries: "entries empty = []"
    and put_keys: "distinct (map fst (entries m)) \<Longrightarrow> distinct (map fst (entries (put k v m)))"
    and put_entries: "distinct (map fst (entries m)) \<Longrightarrow>
      (k', v') \<in> set (entries (put k v m)) \<longleftrightarrow>
      (if k' = k then v' = v else (k', v') \<in> set (entries m))"
    and del_keys: "distinct (map fst (entries m)) \<Longrightarrow> distinct (map fst (entries (del k m)))"
    and del_entries: "(k', v') \<in> set (entries (del k m)) \<longleftrightarrow> k' \<noteq> k \<and> (k', v') \<in> set (entries m)"
begin

fun applyWrite :: "('k, 'v) map_write \<Rightarrow> 'm \<Rightarrow> 'm" where
  "applyWrite (Put k v) m = put k v m"
| "applyWrite (Del k) m = del k m"
| "applyWrite Keep m = m"

definition run :: "('k, 'v) map_write list \<Rightarrow> 'm" where
  "run ws = foldl (\<lambda>m w. applyWrite w m) empty ws"

lemma run_Nil [simp]: "run [] = empty"
  and run_snoc [simp]: "run (ws @ [w]) = applyWrite w (run ws)"
  by (simp_all add: run_def)

lemma run_keys: "distinct (map fst (entries (run ws)))"
proof (induction ws rule: rev_induct)
  case (snoc w ws)
  then show ?case by (cases w) (simp_all add: put_keys del_keys)
qed (simp add: empty_entries)

text \<open>Each key carries what the last write to it says.\<close>

lemma run_entries:
  "(k, v) \<in> set (entries (run ws)) \<longleftrightarrow> findLast (writesTo k) ws = Some (Put k v)"
proof (induction ws rule: rev_induct)
  case Nil
  then show ?case by (simp add: empty_entries findLast_def)
next
  case (snoc w ws)
  show ?case
  proof (cases w)
    case (Put k' v')
    then show ?thesis using snoc run_keys [of ws] by (auto simp: put_entries findLast_def)
  next
    case (Del k')
    then show ?thesis using snoc by (auto simp: del_entries findLast_def)
  next
    case Keep
    then show ?thesis using snoc by (simp add: findLast_def)
  qed
qed

lemma run_absent:
  "(\<nexists>v. (k, v) \<in> set (entries (run ws))) \<longleftrightarrow>
     (\<forall>v. findLast (writesTo k) ws \<noteq> Some (Put k v))"
  by (simp add: run_entries)

end

section \<open>The model provides it\<close>

lemma map_put_fst: "fst ` set (map_put k v m) = insert k (fst ` set m)"
  by (induction k v m rule: map_put.induct) auto

lemma map_put_distinct: "distinct (map fst m) \<Longrightarrow> distinct (map fst (map_put k v m))"
  by (induction k v m rule: map_put.induct) (auto simp: map_put_fst image_iff)

lemma map_put_entries:
  "distinct (map fst m) \<Longrightarrow>
     (k', v') \<in> set (map_put k v m) \<longleftrightarrow> (if k' = k then v' = v else (k', v') \<in> set m)"
  by (induction k v m rule: map_put.induct) (auto simp: image_iff)

lemma map_del_distinct: "distinct (map fst m) \<Longrightarrow> distinct (map fst (map_del k m))"
  by (induction m) (auto simp: map_del_def)

lemma map_del_entries: "(k', v') \<in> set (map_del k m) \<longleftrightarrow> k' \<noteq> k \<and> (k', v') \<in> set m"
  by (auto simp: map_del_def)

interpretation js_map: ordered_map "\<lambda>m. m" "[]" map_put map_del
  by unfold_locales
    (simp_all add: map_put_distinct map_put_entries map_del_distinct map_del_entries)

lemma map_of_put: "map_of (map_put k v m) = (map_of m)(k \<mapsto> v)"
  by (induction k v m rule: map_put.induct) auto

lemma map_of_del: "map_of (map_del k m) = (map_of m)(k := None)"
  by (induction m) (auto simp: map_del_def)

end
