(* ===== verification/Events.thy ===== *)
theory Events
  imports Evidence Ordered_Map
begin

text \<open>
  \<open>events/body.ts\<close>, \<open>events/envelope.ts\<close> and the enumerations they use: the append-only log of a
  thread. \<open>event_body\<close> has one constructor per member of the union; a field that several members
  share has one selector, as the sources read it. An \<open>event\<close> is the envelope with its body.
\<close>

section \<open>Enumerations\<close>

datatype e_compaction_anchor = Prefix | Suffix

datatype e_decision = Allow | Deny

datatype e_worktree_exit = KeepWorktree | RemoveTheWorktree

datatype e_message_origin = Operator | ParentAgent

datatype e_shell_status = ShellRunning | ShellExited | ShellKilled | ShellOverflowed

datatype e_killed_by = ByUser | ByModel | BySessionEnd | ByTimeout | ByUnrecorded

datatype e_service_status = ServiceRunning | ServiceExited | ServiceKilled

datatype e_agent_start = FreshStart

datatype e_agent_status = AgentRunning | AgentFinished | AgentFailed | AgentStopped | AgentBlocked

datatype e_tldr_status = TldrDone | TldrNeedsOperator | TldrWaiting

section \<open>Parts\<close>

record text_part =
  tp_text :: string
  tp_providerOptions :: "json option"

record reasoning_part =
  rp_text :: string
  rp_providerOptions :: "json option"

record image_part =
  ip_data :: string
  ip_mediaType :: string
  ip_source :: "string option"
  ip_width :: "nat option"
  ip_height :: "nat option"
  ip_providerOptions :: "json option"

datatype assistant_part = AssistantText text_part | AssistantReasoning reasoning_part

datatype model_part = is_ModelText: ModelText text_part | is_ModelImage: ModelImage image_part

record said_image =
  si_path :: string
  si_mediaType :: string
  si_data :: string
  si_width :: "nat option"
  si_height :: "nat option"

section \<open>Events\<close>

datatype event_body =
    UserSaid (eb_text: string) (eb_via: "e_message_origin option")
      (eb_images: "said_image list option")
  | AssistantSaid (eb_parts: "assistant_part list") (eb_interrupted: "bool option")
  | ToolCalled (eb_callId: string) (eb_name: string) (eb_input: "json option") (eb_ordinal: nat)
  | ToolResult (eb_callId: string) (eb_name: string) (eb_result: "json option")
      (eb_modelText: "string option") (eb_modelParts: "model_part list option")
      (eb_error: "string option") (eb_interrupted: "bool option")
  | ToolDenied (eb_callId: string) (eb_name: string) (eb_reason: string)
      (eb_interrupted: "bool option")
  | ApprovalRequested (eb_callId: string) (eb_reason: string)
  | ApprovalAnswered (eb_callId: string) (eb_decision: e_decision) (eb_editedInput: "json option")
  | ContextLoaded (eb_slot: string) (eb_key: string) (eb_content: string)
      (eb_triggeredBy: "string option")
  | NudgeSent (eb_text: string) (eb_lifetimeSteps: nat)
  | WorktreeEntered (eb_path: string) (eb_branch: string) (eb_base: "string option")
      (eb_adopted: "bool option")
  | WorktreeExited (eb_path: string) (eb_action: e_worktree_exit) (eb_returnTo: "string option")
  | PullRequestLinked (eb_number: nat) (eb_url: string) (eb_repo: string) (eb_branch: string)
  | BackgroundShellEnded (eb_shellId: string) (eb_command: string)
      (eb_description: "string option") (eb_shellStatus: e_shell_status)
      (eb_killedBy: "e_killed_by option") (eb_exitCode: "int option") (eb_output: string)
      (eb_droppedCharacters: nat) (eb_remainingCharacters: nat)
  | BackgroundShellAwaitingInput (eb_shellId: string) (eb_command: string)
      (eb_description: "string option") (eb_output: string) (eb_droppedCharacters: nat)
      (eb_remainingCharacters: nat)
  | BackgroundShellMatched (eb_shellId: string) (eb_command: string)
      (eb_description: "string option") (eb_pattern: string) (eb_lines: string)
      (eb_matchCount: nat) (eb_watchDisarmed: "bool option")
  | BackgroundShellStillRunning (eb_shellId: string) (eb_command: string)
      (eb_description: "string option") (eb_runningForMs: nat) (eb_silentForMs: nat)
      (eb_checkInMs: nat) (eb_tail: string)
  | ServiceEnded (eb_serviceId: string) (eb_command: string) (eb_description: "string option")
      (eb_serviceStatus: e_service_status) (eb_killedBy: "e_killed_by option")
      (eb_exitCode: "int option") (eb_logPath: string) (eb_tail: string)
  | AgentSpawned (eb_agentId: string) (eb_agentType: string) (eb_intent: string)
      (eb_start: e_agent_start)
  | AgentEnded (eb_agentId: string) (eb_agentType: string) (eb_intent: string)
      (eb_agentStatus: e_agent_status) (eb_killedBy: "e_killed_by option") (eb_prose: string)
      (eb_turns: nat) (eb_toolCalls: nat)
  | HistoryCompacted (eb_anchor: e_compaction_anchor) (eb_fromSeq: nat) (eb_throughSeq: nat)
      (eb_summary: string) (eb_replaced: nat)
  | ClassifierJudged (eb_callId: string) (eb_mode: e_classifier_mode) (eb_triage: e_triage)
      (eb_judgment: e_judgment) (eb_dimensions: "e_risk_dimension list")
      (eb_judgedDimension: "e_risk_dimension option") (eb_verdictFault: "e_verdict_fault option")
      (eb_signalIds: "string list") (eb_details: "string list option")
      (eb_grantables: "grant_offer list option") (eb_reason: string) (eb_consulted: bool)
      (eb_wouldAsk: "bool option") (eb_fatigued: "bool option") (eb_elapsedMs: nat)
  | PermissionGranted (eb_grantId: string) (eb_dimensions: "e_risk_dimension list")
      (eb_scope: e_grant_scope) (eb_subject: string) (eb_reason: string)
  | PermissionRevoked (eb_grantId: string)
  | TldrWritten (eb_anchorSeq: nat) (eb_throughSeq: nat) (eb_text: string) (eb_modelId: string)
      (eb_tldrStatus: "e_tldr_status option")

record event_envelope =
  ev_id :: string
  ev_seq :: nat
  ev_threadId :: string
  ev_runId :: string
  ev_parentRunId :: "string option"
  ev_depth :: nat
  ev_at :: string

record event = event_envelope +
  ev_body :: event_body

definition saidBy :: "e_message_origin option \<Rightarrow> e_message_origin" where
  "saidBy via = (case via of None \<Rightarrow> Operator | Some origin \<Rightarrow> origin)"

text \<open>\<open>SURVIVES_SUMMARY.includes(type)\<close>.\<close>

definition survivesSummary :: "event_body \<Rightarrow> bool" where
  "survivesSummary body \<longleftrightarrow>
     is_ContextLoaded body \<or> is_PermissionGranted body \<or> is_PermissionRevoked body \<or>
     is_PullRequestLinked body"

text \<open>\<open>event.type\<close> is one of those that carry a call's id through the log.\<close>

definition settlesCall :: "event_body \<Rightarrow> bool" where
  "settlesCall body \<longleftrightarrow> is_ToolResult body \<or> is_ToolDenied body"

text \<open>\<open>stampEvent\<close> and \<open>stampDrafts\<close> of \<open>events/stamp.ts\<close>: a draft for which there is no envelope throws
  (\<open>None\<close>); envelopes left over are not used.\<close>

definition stampEvent :: "event_body \<Rightarrow> event_envelope \<Rightarrow> event" where
  "stampEvent draft envelope = event_envelope.extend envelope (event.fields draft)"

fun stampDrafts :: "event_body list \<Rightarrow> event_envelope list \<Rightarrow> event list option" where
  "stampDrafts [] envelopes = Some []"
| "stampDrafts (draft # drafts) [] = None"
| "stampDrafts (draft # drafts) (envelope # envelopes) =
     map_option ((#) (stampEvent draft envelope)) (stampDrafts drafts envelopes)"

lemma stampEvent_body [simp]: "ev_body (stampEvent draft envelope) = draft"
  and stampEvent_seq [simp]: "ev_seq (stampEvent draft envelope) = ev_seq envelope"
  by (simp_all add: stampEvent_def event_envelope.defs event.defs)

text \<open>Stamping succeeds exactly when there are enough envelopes, and keeps every draft in order.\<close>

lemma stampDrafts_iff:
  "stampDrafts drafts envelopes = Some events \<longleftrightarrow>
     length drafts \<le> length envelopes \<and> events = map2 stampEvent drafts envelopes"
  by (induction drafts envelopes arbitrary: events rule: stampDrafts.induct) auto

text \<open>Stamping loses and invents no event. Drafts are stamped exactly when there are enough envelopes,
  each with the envelope at its own position; otherwise the whole batch is refused.\<close>

theorem stampDrafts_total:
  "stampDrafts drafts envelopes =
     (if length envelopes < length drafts then None else Some (map2 stampEvent drafts envelopes))"
proof (cases "stampDrafts drafts envelopes")
  case None
  then show ?thesis using stampDrafts_iff [of drafts envelopes "map2 stampEvent drafts envelopes"] by auto
next
  case (Some events)
  then show ?thesis using stampDrafts_iff [of drafts envelopes events] by auto
qed

text \<open>A row of a single thread, for worked examples.\<close>

definition rowAt :: "nat \<Rightarrow> event_body \<Rightarrow> event" where
  "rowAt number body =
     \<lparr>ev_id = show_nat number, ev_seq = number, ev_threadId = ''t'', ev_runId = ''r'',
      ev_parentRunId = None, ev_depth = 0, ev_at = ''2026-01-01'', ev_body = body\<rparr>"

end
