(* ===== verification/Grants.thy ===== *)
theory Grants
  imports Events
begin

text \<open>
  \<open>policy/classifier/grant.ts\<close>: the permissions that stand after the log, which of them covers a
  signal, and which the operator can be offered.
\<close>

section \<open>Standing grants\<close>

definition grantOf :: "event \<Rightarrow> grant" where
  "grantOf event =
     \<lparr>g_grantId = eb_grantId (ev_body event), g_dimensions = eb_dimensions (ev_body event),
      g_scope = eb_scope (ev_body event), g_subject = eb_subject (ev_body event),
      g_reason = eb_reason (ev_body event), g_seq = ev_seq event\<rparr>"

text \<open>What one event does to the \<open>live\<close> map.\<close>

definition grantWrite :: "event \<Rightarrow> (string, grant) map_write" where
  "grantWrite event =
     (if is_PermissionRevoked (ev_body event) then Del (eb_grantId (ev_body event))
      else if \<not> is_PermissionGranted (ev_body event) then Keep
      else Put (eb_grantId (ev_body event)) (grantOf event))"

definition liveGrants :: "event list \<Rightarrow> (string \<times> grant) list" where
  "liveGrants events = js_map.run (map grantWrite events)"

definition grantsFrom :: "event list \<Rightarrow> grant list" where
  "grantsFrom events = sort_key g_seq (map snd (liveGrants events))"

definition grantCovering :: "risk_signal \<Rightarrow> grant list \<Rightarrow> grant option" where
  "grantCovering signal grants =
     (if rs_ungrantable signal then None
      else findLast (\<lambda>grant. g_subject grant = rs_subject signal \<and>
             rs_dimension signal \<in> set (g_dimensions grant)) grants)"

section \<open>Offers\<close>

text \<open>The loop over the signals, with \<open>dimensionsBySubject\<close> as its accumulator.\<close>

fun gatherOffers ::
  "(string \<times> e_risk_dimension list) list \<Rightarrow> risk_signal list \<Rightarrow>
     (string \<times> e_risk_dimension list) list" where
  "gatherOffers bySubject [] = bySubject"
| "gatherOffers bySubject (signal # signals) =
     gatherOffers
       (case map_of bySubject (rs_subject signal) of
          None \<Rightarrow> map_put (rs_subject signal) [rs_dimension signal] bySubject
        | Some gathered \<Rightarrow>
            if rs_dimension signal \<notin> set gathered
            then map_put (rs_subject signal) (gathered @ [rs_dimension signal]) bySubject
            else bySubject)
       signals"

definition grantOffersOf :: "risk_signal list \<Rightarrow> grant_offer list" where
  "grantOffersOf signals =
     (if \<exists>signal \<in> set signals. rs_ungrantable signal then []
      else map (\<lambda>(subject, dimensions). \<lparr>go_subject = subject, go_dimensions = dimensions\<rparr>)
        (gatherOffers [] signals))"

section \<open>Lemmas\<close>

lemma grantCovering_Some:
  assumes "grantCovering signal grants = Some g"
  shows "\<not> rs_ungrantable signal" and "g \<in> set grants" and "g_subject g = rs_subject signal"
    and "rs_dimension signal \<in> set (g_dimensions g)"
  using assms by (auto simp: grantCovering_def split: if_split_asm dest: findLast_Some)

lemma grantCovering_None:
  "grantCovering signal grants = None \<longleftrightarrow>
     rs_ungrantable signal \<or>
     (\<forall>g \<in> set grants. g_subject g = rs_subject signal \<longrightarrow>
        rs_dimension signal \<notin> set (g_dimensions g))"
  by (simp add: grantCovering_def findLast_None)

lemma liveGrants_keys: "distinct (map fst (liveGrants events))"
  by (simp add: liveGrants_def js_map.run_keys)

lemma grantWrite_Put: "grantWrite event = Put k g \<longleftrightarrow>
    is_PermissionGranted (ev_body event) \<and> k = eb_grantId (ev_body event) \<and> g = grantOf event"
  by (cases "ev_body event") (auto simp: grantWrite_def)

lemma grantWrite_writes: "writesTo k (grantWrite event) \<longleftrightarrow>
    (is_PermissionGranted (ev_body event) \<or> is_PermissionRevoked (ev_body event)) \<and>
    eb_grantId (ev_body event) = k"
  by (cases "ev_body event") (auto simp: grantWrite_def)

lemma liveGrants_iff:
  "(k, g) \<in> set (liveGrants events) \<longleftrightarrow>
     (\<exists>event. findLast (\<lambda>e. (is_PermissionGranted (ev_body e) \<or> is_PermissionRevoked (ev_body e)) \<and>
          eb_grantId (ev_body e) = k) events = Some event \<and>
        is_PermissionGranted (ev_body event) \<and> g = grantOf event)"
proof -
  have key: "k = eb_grantId (ev_body event)"
    if "findLast (writesTo k \<circ> grantWrite) events = Some event" for event
    using findLast_Some [OF that] by (simp add: grantWrite_writes)
  have "(k, g) \<in> set (liveGrants events) \<longleftrightarrow>
      findLast (writesTo k) (map grantWrite events) = Some (Put k g)"
    by (simp add: liveGrants_def js_map.run_entries)
  also have "\<dots> \<longleftrightarrow> (\<exists>event. findLast (writesTo k \<circ> grantWrite) events = Some event \<and>
      grantWrite event = Put k g)"
    by (auto simp: findLast_map)
  also have "\<dots> \<longleftrightarrow> (\<exists>event. findLast (writesTo k \<circ> grantWrite) events = Some event \<and>
      is_PermissionGranted (ev_body event) \<and> g = grantOf event)"
    by (auto simp: grantWrite_Put dest: key)
  finally show ?thesis by (simp add: grantWrite_writes comp_def)
qed

lemma liveGrants_id: "(k, g) \<in> set (liveGrants events) \<Longrightarrow> g_grantId g = k"
  unfolding liveGrants_iff by (elim exE conjE, drule findLast_Some) (simp add: grantOf_def)

lemma set_grantsFrom: "set (grantsFrom events) = snd ` set (liveGrants events)"
  by (simp add: grantsFrom_def)

lemma grantsFrom_ids: "distinct (map g_grantId (grantsFrom events))"
proof -
  have "map g_grantId (map snd (liveGrants events)) = map fst (liveGrants events)"
    using liveGrants_id by (auto intro!: map_cong)
  then have "distinct (map g_grantId (map snd (liveGrants events)))"
    by (simp only: liveGrants_keys)
  then show ?thesis
    unfolding grantsFrom_def by (metis mset_eq_imp_distinct_iff mset_map mset_sort)
qed

text \<open>A revocation ends a grant and nothing else does: what is later granted again stands again.\<close>

lemma grantsFrom_revoke:
  "ev_body event = PermissionRevoked k \<Longrightarrow>
     set (grantsFrom (events @ [event])) = {g \<in> set (grantsFrom events). g_grantId g \<noteq> k}"
proof -
  assume revoked: "ev_body event = PermissionRevoked k"
  then have "liveGrants (events @ [event]) = map_del k (liveGrants events)"
    by (simp add: liveGrants_def grantWrite_def)
  then show ?thesis
    using liveGrants_id [of _ _ events] by (force simp: set_grantsFrom map_del_def)
qed

section \<open>What an offer covers\<close>

lemma gatherOffers_keys:
  "distinct (map fst m) \<Longrightarrow> distinct (map fst (gatherOffers m signals))"
  by (induction m signals rule: gatherOffers.induct)
    (auto simp: map_put_distinct split: option.splits)


text \<open>A subject gathers a dimension exactly when a signal on it has that dimension.\<close>

definition offersDimension ::
  "(string \<times> e_risk_dimension list) list \<Rightarrow> string \<Rightarrow> e_risk_dimension \<Rightarrow> bool" where
  "offersDimension m subject d \<longleftrightarrow> (\<exists>ds. map_of m subject = Some ds \<and> d \<in> set ds)"

lemma gatherOffers_covers:
  "offersDimension (gatherOffers m signals) subject d \<longleftrightarrow>
     offersDimension m subject d \<or>
     (\<exists>s \<in> set signals. rs_subject s = subject \<and> rs_dimension s = d)"
proof (induction signals arbitrary: m)
  case (Cons s signals)
  have "offersDimension (case map_of m (rs_subject s) of
          None \<Rightarrow> map_put (rs_subject s) [rs_dimension s] m
        | Some gathered \<Rightarrow>
            if rs_dimension s \<notin> set gathered
            then map_put (rs_subject s) (gathered @ [rs_dimension s]) m else m) subject d \<longleftrightarrow>
      offersDimension m subject d \<or> rs_subject s = subject \<and> rs_dimension s = d"
    by (auto simp: offersDimension_def map_of_put split: option.splits)
  then show ?case by (auto simp: Cons.IH)
qed simp

lemma grantOffersOf_covers:
  assumes "\<forall>s \<in> set signals. \<not> rs_ungrantable s" and "s \<in> set signals"
  shows "\<exists>offer \<in> set (grantOffersOf signals).
      go_subject offer = rs_subject s \<and> rs_dimension s \<in> set (go_dimensions offer)"
proof -
  have "offersDimension (gatherOffers [] signals) (rs_subject s) (rs_dimension s)"
    using assms(2) by (auto simp: gatherOffers_covers)
  then obtain ds where "(rs_subject s, ds) \<in> set (gatherOffers [] signals)" "rs_dimension s \<in> set ds"
    by (auto simp: offersDimension_def dest: map_of_SomeD)
  then show ?thesis using assms(1) by (force simp: grantOffersOf_def)
qed

text \<open>C33: the last word on a grant counts. The standing grants are exactly those whose latest event, granting
  or revoking, grants them; there is one per id, and they are in the order in which they were granted.\<close>

theorem grantsFrom_last_word:
  "distinct (map g_grantId (grantsFrom events)) \<and> sorted (map g_seq (grantsFrom events)) \<and>
   set (grantsFrom events) =
     {g. \<exists>event. findLast (\<lambda>e. (is_PermissionGranted (ev_body e) \<or> is_PermissionRevoked (ev_body e)) \<and>
            eb_grantId (ev_body e) = g_grantId g) events = Some event \<and>
          is_PermissionGranted (ev_body event) \<and> g = grantOf event}"
proof -
  have "g \<in> set (grantsFrom events) \<longleftrightarrow> (g_grantId g, g) \<in> set (liveGrants events)" for g
    using liveGrants_id by (force simp: set_grantsFrom)
  moreover have "sorted (map g_seq (grantsFrom events))" by (simp add: grantsFrom_def)
  ultimately show ?thesis
    using grantsFrom_ids [of events] by (simp add: liveGrants_iff set_eq_iff)
qed

end
