(* ===== verification/Triage.thy ===== *)
theory Triage
  imports Signal_Facts Grants
begin

text \<open>
  \<open>policy/classifier/triage.ts\<close>: which signals stand after the muted dimensions, the severity floor and
  the grants, and whether the judge is consulted. The two lists the loop pushes to are the pair
  that \<open>sift\<close> returns.
\<close>

section \<open>Policy\<close>

text \<open>\<open>Object.values(EClassifierMode).find((mode) => mode === value)\<close>.\<close>

fun modeText :: "e_classifier_mode \<Rightarrow> string" where
  "modeText Off = ''off''"
| "modeText Shadow = ''shadow''"
| "modeText Nudge = ''nudge''"

definition classifierModeOf :: "string \<Rightarrow> e_classifier_mode option" where
  "classifierModeOf value = List.find (\<lambda>mode. modeText mode = value) [Off, Shadow, Nudge]"

record classifier_policy =
  cp_mode :: e_classifier_mode
  cp_consultAtOrAbove :: e_severity
  cp_askWhenUnreachableAtOrAbove :: e_severity
  cp_asksPerThread :: nat
  cp_muted :: "e_risk_dimension list"
  cp_environment :: "string list"

definition SENSITIVE_NAME_HEURISTIC :: string where
  "SENSITIVE_NAME_HEURISTIC =
     ''Any namespace, host, container, bucket, branch or remote whose name carries '' @
     [dquote] @ ''prod'' @ [dquote] @ '' or '' @ [dquote] @ ''production'' @ [dquote] @
     '' as a whole word or name segment is a sensitive remote target.''"

definition DEFAULT_CLASSIFIER_POLICY :: classifier_policy where
  "DEFAULT_CLASSIFIER_POLICY =
     \<lparr>cp_mode = Shadow, cp_consultAtOrAbove = Serious, cp_askWhenUnreachableAtOrAbove = Grave,
      cp_asksPerThread = 8, cp_muted = [], cp_environment = [SENSITIVE_NAME_HEURISTIC]\<rparr>"

definition environmentFor ::
  "string \<Rightarrow> string option \<Rightarrow> string option \<Rightarrow> string list \<Rightarrow> string list" where
  "environmentFor projectDirectory repoRoot worktreeHome remotes =
     [''The developer'' @ [squote] @
      ''s project directory, and everything the agent is expected to change, is '' @
      projectDirectory @ ''.''] @
     (if repoRoot = None \<or> repoRoot = Some projectDirectory then []
      else [''The main checkout of the same repository is '' @ the repoRoot @
        '', and it is not this session'' @ [squote] @ ''s own.'']) @
     (case worktreeHome of
        None \<Rightarrow> []
      | Some home \<Rightarrow>
          [''Sibling worktrees, which other live agents stand in, live under '' @ home @ ''.'']) @
     map (\<lambda>r. ''The repository has a git remote: '' @ r @ ''.'') remotes @
     [SENSITIVE_NAME_HEURISTIC]"

section \<open>Triage\<close>

record cleared_signal =
  cl_signal :: risk_signal
  cl_by :: grant

record triage =
  tr_triage :: e_triage
  tr_standing :: "risk_signal list"
  tr_cleared :: "cleared_signal list"
  tr_fatigued :: bool

definition concerns :: "classifier_policy \<Rightarrow> risk_signal \<Rightarrow> bool" where
  "concerns policy signal \<longleftrightarrow>
     rs_dimension signal \<notin> set (cp_muted policy) \<and>
     reachesSeverity (rs_severity signal) (cp_consultAtOrAbove policy)"

fun sift ::
  "classifier_policy \<Rightarrow> grant list \<Rightarrow> risk_signal list \<Rightarrow> risk_signal list \<times> cleared_signal list" where
  "sift policy grants [] = ([], [])"
| "sift policy grants (signal # signals) =
     (case sift policy grants signals of
        (standing, cleared) \<Rightarrow>
          if \<not> concerns policy signal then (standing, cleared)
          else (case grantCovering signal grants of
              None \<Rightarrow> (signal # standing, cleared)
            | Some by \<Rightarrow> (standing, \<lparr>cl_signal = signal, cl_by = by\<rparr> # cleared)))"

definition triageOf ::
  "call_evidence \<Rightarrow> risk_signal list \<Rightarrow> classifier_policy \<Rightarrow> nat \<Rightarrow> triage" where
  "triageOf evidence signals policy asksSoFar =
     (case sift policy (ce_grants evidence) signals of
        (standing, cleared) \<Rightarrow>
          let fatigued = (length standing > 0 \<and> asksSoFar \<ge> cp_asksPerThread policy);
              consults = (length standing > 0 \<and> \<not> fatigued)
          in \<lparr>tr_triage = (if consults then Consult else Clear), tr_standing = standing,
              tr_cleared = cleared, tr_fatigued = fatigued\<rparr>)"

section \<open>What stands\<close>

lemma concerns_iff:
  "concerns policy s \<longleftrightarrow>
     rs_dimension s \<notin> set (cp_muted policy) \<and> cp_consultAtOrAbove policy \<le> rs_severity s"
  by (simp add: concerns_def reachesSeverity_iff)

lemma sift_standing:
  "fst (sift policy grants signals) =
     filter (\<lambda>s. concerns policy s \<and> grantCovering s grants = None) signals"
  by (induction signals) (auto split: prod.splits option.splits)

lemma sift_cleared:
  "map cl_signal (snd (sift policy grants signals)) =
     filter (\<lambda>s. concerns policy s \<and> grantCovering s grants \<noteq> None) signals"
  by (induction signals) (auto split: prod.splits option.splits)

lemma sift_by:
  "c \<in> set (snd (sift policy grants signals)) \<Longrightarrow>
     grantCovering (cl_signal c) grants = Some (cl_by c) \<and> cl_signal c \<in> set signals"
  by (induction signals) (auto split: prod.splits option.splits if_split_asm)

lemma triageOf_standing:
  "tr_standing (triageOf evidence signals policy asks) =
     filter (\<lambda>s. concerns policy s \<and> grantCovering s (ce_grants evidence) = None) signals"
  by (simp add: triageOf_def Let_def sift_standing [symmetric] split: prod.splits)

lemma triageOf_cleared:
  "map cl_signal (tr_cleared (triageOf evidence signals policy asks)) =
     filter (\<lambda>s. concerns policy s \<and> grantCovering s (ce_grants evidence) \<noteq> None) signals"
  using sift_cleared [of policy "ce_grants evidence" signals]
  by (cases "sift policy (ce_grants evidence) signals") (simp add: triageOf_def Let_def)

lemma triageOf_by:
  "c \<in> set (tr_cleared (triageOf evidence signals policy asks)) \<Longrightarrow>
     grantCovering (cl_signal c) (ce_grants evidence) = Some (cl_by c)"
  using sift_by [of c policy "ce_grants evidence" signals]
  by (simp add: triageOf_def Let_def split: prod.splits)

lemma triageOf_consults:
  "tr_triage (triageOf evidence signals policy asks) = Consult \<longleftrightarrow>
     tr_standing (triageOf evidence signals policy asks) \<noteq> [] \<and> asks < cp_asksPerThread policy"
  by (auto simp: triageOf_def Let_def split: prod.splits)

lemma triageOf_fatigued:
  "tr_fatigued (triageOf evidence signals policy asks) \<longleftrightarrow>
     tr_standing (triageOf evidence signals policy asks) \<noteq> [] \<and> asks \<ge> cp_asksPerThread policy"
  by (auto simp: triageOf_def Let_def split: prod.splits)

text \<open>An ungrantable signal that reaches the floor stands whatever was granted.\<close>

lemma ungrantable_stands:
  "s \<in> set signals \<Longrightarrow> rs_ungrantable s \<Longrightarrow> concerns policy s \<Longrightarrow>
     s \<in> set (tr_standing (triageOf evidence signals policy asks))"
  by (simp add: triageOf_standing grantCovering_None)

lemma concerns_mono:
  assumes "concerns policy s" and "cp_consultAtOrAbove policy' \<le> cp_consultAtOrAbove policy"
    and "set (cp_muted policy') \<subseteq> set (cp_muted policy)"
  shows "concerns policy' s"
  using assms order_trans by (auto simp: concerns_iff)

section \<open>Properties\<close>

lemma mset_partition:
  "mset (filter (\<lambda>s. C s \<and> P s) xs) + mset (filter (\<lambda>s. C s \<and> \<not> P s) xs) = mset (filter C xs)"
  by (induction xs) auto

lemma cleared_rightly:
  assumes "c \<in> set (tr_cleared (triageOf evidence signals policy asks))"
  shows "\<not> rs_ungrantable (cl_signal c) \<and> g_subject (cl_by c) = rs_subject (cl_signal c) \<and>
    cl_by c \<in> set (ce_grants evidence) \<and> rs_dimension (cl_signal c) \<in> set (g_dimensions (cl_by c))"
  using grantCovering_Some [OF triageOf_by [OF assms]] by blast

text \<open>C24: triage loses no signal. Every signal that reaches the floor and is not muted either stands or is
  cleared, and no other does; only a grant in force that covers its subject and its dimension clears a
  signal, and never an ungrantable one; and the judge is consulted exactly when something stands and
  the thread has interruptions left.\<close>

theorem triageOf_outcome:
  "mset (tr_standing (triageOf evidence signals policy asks)) +
     mset (map cl_signal (tr_cleared (triageOf evidence signals policy asks))) =
     mset (filter (concerns policy) signals) \<and>
   (tr_triage (triageOf evidence signals policy asks) = Consult \<longleftrightarrow>
     tr_standing (triageOf evidence signals policy asks) \<noteq> [] \<and> asks < cp_asksPerThread policy) \<and>
   filter (\<lambda>c. \<not> rs_ungrantable (cl_signal c) \<and> g_subject (cl_by c) = rs_subject (cl_signal c) \<and>
        cl_by c \<in> set (ce_grants evidence) \<and>
        rs_dimension (cl_signal c) \<in> set (g_dimensions (cl_by c)))
      (tr_cleared (triageOf evidence signals policy asks)) =
     tr_cleared (triageOf evidence signals policy asks)"
  using mset_partition [of "concerns policy" "\<lambda>s. grantCovering s (ce_grants evidence) = None" signals]
    cleared_rightly [of _ evidence signals policy asks]
  by (simp add: triageOf_standing triageOf_cleared triageOf_consults filter_id_conv)

text \<open>A stricter policy never lets more through. Lowering the floor, muting less and granting less keeps
  every signal that stood.\<close>

theorem triageOf_monotone:
  assumes "cp_consultAtOrAbove strict \<le> cp_consultAtOrAbove lax"
    and "set (cp_muted strict) \<subseteq> set (cp_muted lax)"
    and "set (ce_grants guarded) \<subseteq> set (ce_grants granted)"
  shows "set (tr_standing (triageOf granted signals lax asks)) \<subseteq>
    set (tr_standing (triageOf guarded signals strict asks'))"
  using assms concerns_mono [of lax _ strict]
  by (auto simp: triageOf_standing grantCovering_None)

definition outsideWrite :: risk_signal where
  "outsideWrite = riskSignal Reach Serious ''reach:outside-project'' ''path:/x'' ''writes a file at /x''"

lemma triageOf_monotone_witness:
  "set (tr_standing (triageOf literalEvidence [outsideWrite]
       (DEFAULT_CLASSIFIER_POLICY\<lparr>cp_consultAtOrAbove := Grave\<rparr>) 0)) \<subseteq>
   set (tr_standing (triageOf literalEvidence [outsideWrite] DEFAULT_CLASSIFIER_POLICY 0))"
  by (rule triageOf_monotone) (simp_all add: DEFAULT_CLASSIFIER_POLICY_def severity_bounds)

text \<open>C22: accepting what is offered clears the call. When none of the standing signals is ungrantable and
  every offer made for them has been granted, with its subject and its dimensions, nothing stands when
  the same signals are raised again.\<close>

theorem offers_clear:
  assumes "\<forall>s \<in> set (tr_standing (triageOf evidence signals policy asks)). \<not> rs_ungrantable s"
    and "\<forall>offer \<in> set (grantOffersOf (tr_standing (triageOf evidence signals policy asks))).
      \<exists>g \<in> set accepted. g_subject g = go_subject offer \<and> g_dimensions g = go_dimensions offer"
  shows "tr_standing (triageOf (evidence\<lparr>ce_grants := ce_grants evidence @ accepted\<rparr>)
      signals policy asks') = []"
proof -
  let ?standing = "tr_standing (triageOf evidence signals policy asks)"
  have "grantCovering s (ce_grants evidence @ accepted) \<noteq> None" if "s \<in> set signals" "concerns policy s" for s
  proof (cases "s \<in> set ?standing")
    case True
    with grantOffersOf_covers [OF assms(1) True] assms(2) obtain g where
      "g \<in> set accepted" "g_subject g = rs_subject s" "rs_dimension s \<in> set (g_dimensions g)"
      by metis
    with True assms(1) show ?thesis by (auto simp: grantCovering_None)
  next
    case False
    with that have "grantCovering s (ce_grants evidence) \<noteq> None" by (simp add: triageOf_standing)
    then show ?thesis by (auto simp: grantCovering_None)
  qed
  then show ?thesis by (auto simp: triageOf_standing filter_empty_conv)
qed

lemma offers_clear_witness:
  "tr_standing (triageOf (literalEvidence\<lparr>ce_grants := ce_grants literalEvidence @
       [\<lparr>g_grantId = ''g'', g_dimensions = [Reach], g_scope = ScopeThread, g_subject = ''path:/x'',
         g_reason = ''asked'', g_seq = 3\<rparr>]\<rparr>) [outsideWrite] DEFAULT_CLASSIFIER_POLICY 0) = []"
proof -
  have "tr_standing (triageOf literalEvidence [outsideWrite] DEFAULT_CLASSIFIER_POLICY 0) = [outsideWrite]"
    and "grantOffersOf [outsideWrite] = [\<lparr>go_subject = ''path:/x'', go_dimensions = [Reach]\<rparr>]"
    and "\<not> rs_ungrantable outsideWrite"
    by code_simp+
  then show ?thesis
    by (intro offers_clear [where asks = 0]) simp_all
qed

end
