(* ===== verification/Verdict.thy ===== *)
theory Verdict
  imports Triage
begin

text \<open>
  \<open>policy/classifier/verdict.ts\<close>: what the judge's answer says. Its regular expressions are readers on
  the unread text: each returns the text behind its match, and a search tries every position from
  the left. Case folding is that of ASCII, the only letters the patterns hold.
\<close>

section \<open>Characters\<close>

text \<open>\<open>String.prototype.toLowerCase\<close> on ASCII.\<close>

definition lowerChar :: "char \<Rightarrow> char" where
  "lowerChar c =
     (case indexOf c ''ABCDEFGHIJKLMNOPQRSTUVWXYZ'' of
        None \<Rightarrow> c
      | Some i \<Rightarrow> ''abcdefghijklmnopqrstuvwxyz'' ! i)"

definition toLowerCase :: "string \<Rightarrow> string" where
  "toLowerCase s = map lowerChar s"

section \<open>Patterns\<close>

text \<open>A literal under the \<open>i\<close> flag; and \<open><name\s*>\<close>, \<open></name\s*>\<close>.\<close>

fun readLiteral :: "string \<Rightarrow> string \<Rightarrow> string option" where
  "readLiteral [] s = Some s"
| "readLiteral (p # ps) [] = None"
| "readLiteral (p # ps) (c # s) = (if lowerChar c = p then readLiteral ps s else None)"

definition readTag :: "string \<Rightarrow> string \<Rightarrow> string option" where
  "readTag opening s =
     (case readLiteral opening s of
        None \<Rightarrow> None
      | Some after \<Rightarrow> readLiteral ''>'' (dropWhile is_space after))"

text \<open>The first position, from the left, where a reader succeeds: the text before it, what the reader
  returns there, and the text it stands at.\<close>

fun searchWith :: "(string \<Rightarrow> 'a option) \<Rightarrow> string \<Rightarrow> (string \<times> 'a) option" where
  "searchWith rd [] = (case rd [] of None \<Rightarrow> None | Some r \<Rightarrow> Some ([], r))"
| "searchWith rd (c # s) =
     (case rd (c # s) of
        Some r \<Rightarrow> Some ([], r)
      | None \<Rightarrow> map_option (\<lambda>(before, r). (c # before, r)) (searchWith rd s))"

text \<open>\<open><thinking\b[^>]*>\<close>.\<close>

definition readThinkingTag :: "string \<Rightarrow> string option" where
  "readThinkingTag s =
     (case readLiteral ''<thinking'' s of
        None \<Rightarrow> None
      | Some after \<Rightarrow>
          if (case after of [] \<Rightarrow> False | c # _ \<Rightarrow> is_name_char c) then None
          else readLiteral ''>'' (dropWhile (\<lambda>c. c \<noteq> CHR ''>'') after))"

text \<open>\<open>CLOSED_THINKING\<close> and \<open>UNCLOSED_THINKING\<close>.\<close>

definition readClosedThinking :: "string \<Rightarrow> string option" where
  "readClosedThinking s =
     (case readThinkingTag s of
        None \<Rightarrow> None
      | Some inside \<Rightarrow> map_option snd (searchWith (readTag ''</thinking'') inside))"

lemma readLiteral_shorter:
  "readLiteral p s = Some r \<Longrightarrow> length r + length p = length s"
  by (induction p s rule: readLiteral.induct) (auto split: if_split_asm)

lemma readLiteral_behind:
  assumes "readLiteral p s = Some after" and "readLiteral ''>'' (dropWhile Q after) = Some r"
  shows "length r < length s"
  using readLiteral_shorter [OF assms(1)] readLiteral_shorter [OF assms(2)]
    length_dropWhile_le [of Q after] by simp

lemma readTag_shorter: "readTag p s = Some r \<Longrightarrow> length r < length s"
  unfolding readTag_def
  by (cases "readLiteral p s") (auto dest: readLiteral_behind simp del: readLiteral.simps)

lemma searchWith_Some:
  "searchWith rd s = Some (before, r) \<Longrightarrow> \<exists>rest. s = before @ rest \<and> rd rest = Some r"
  by (induction s arbitrary: before) (force split: option.splits)+

lemma readThinkingTag_shorter: "readThinkingTag s = Some r \<Longrightarrow> length r < length s"
  unfolding readThinkingTag_def
  by (cases "readLiteral ''<thinking'' s")
    (auto dest: readLiteral_behind simp del: readLiteral.simps split: if_split_asm)

lemma readClosedThinking_shorter:
  assumes "readClosedThinking s = Some r"
  shows "length r < length s"
proof -
  obtain inside before where inside: "readThinkingTag s = Some inside"
    and found: "searchWith (readTag ''</thinking'') inside = Some (before, r)"
    using assms by (auto simp: readClosedThinking_def split: option.splits)
  obtain rest where "inside = before @ rest" "readTag ''</thinking'' rest = Some r"
    using searchWith_Some [OF found] by blast
  then have "length r < length inside" using readTag_shorter [of "''</thinking''" rest r] by simp
  with readThinkingTag_shorter [OF inside] show ?thesis by simp
qed

text \<open>\<open>text.replace(CLOSED_THINKING, ' ')\<close>: every match, left to right.\<close>

function replaceClosed :: "string \<Rightarrow> string" where
  "replaceClosed s =
     (case readClosedThinking s of
        Some after \<Rightarrow> CHR '' '' # replaceClosed after
      | None \<Rightarrow> (case s of [] \<Rightarrow> [] | c # rest \<Rightarrow> c # replaceClosed rest))"
  by pat_completeness auto
termination
  by (relation "measure length") (auto dest: readClosedThinking_shorter)

declare replaceClosed.simps [simp del]

definition replaceUnclosed :: "string \<Rightarrow> string" where
  "replaceUnclosed s =
     (case searchWith readThinkingTag s of None \<Rightarrow> s | Some (before, _) \<Rightarrow> before @ '' '')"

definition withoutThinking :: "string \<Rightarrow> string" where
  "withoutThinking s = replaceUnclosed (replaceClosed s)"

section \<open>The verdict and its reason\<close>

text \<open>\<open>VERDICT\<close>: the declared word, lower-cased.\<close>

definition readVerdict :: "string \<Rightarrow> e_judgment option" where
  "readVerdict s =
     (case readTag ''<verdict'' s of
        None \<Rightarrow> None
      | Some after \<Rightarrow>
          let at_word = dropWhile is_space after;
              closes = (\<lambda>rest. readTag ''</verdict'' (dropWhile is_space rest) \<noteq> None)
          in (case readLiteral ''proceed'' at_word of
                Some rest \<Rightarrow> if closes rest then Some Proceed else None
              | None \<Rightarrow> (case readLiteral ''check'' at_word of
                    Some rest \<Rightarrow> if closes rest then Some Check else None
                  | None \<Rightarrow> None)))"

text \<open>\<open>REASON\<close>: the text up to the first closing tag.\<close>

definition readReason :: "string \<Rightarrow> string option" where
  "readReason s =
     (case readTag ''<reason'' s of
        None \<Rightarrow> None
      | Some inside \<Rightarrow> map_option fst (searchWith (readTag ''</reason'') inside))"

definition declaredIn :: "string \<Rightarrow> e_judgment option" where
  "declaredIn s = map_option snd (searchWith readVerdict s)"

definition reasonIn :: "string \<Rightarrow> string" where
  "reasonIn s = (case searchWith readReason s of None \<Rightarrow> '''' | Some (_, r) \<Rightarrow> r)"

definition REASON_LIMIT :: nat where "REASON_LIMIT = 300"

definition collapsed :: "string \<Rightarrow> string" where
  "collapsed s = trim (collapseSpaces s)"

text \<open>\<open>clipped\<close>, of this file and of \<open>adjudicate.ts\<close>, with the limit as an argument.\<close>

definition clippedTo :: "nat \<Rightarrow> string \<Rightarrow> string" where
  "clippedTo limit s = (if length s \<le> limit then s else take (limit - 1) s @ [ellipsis])"

definition clipped :: "string \<Rightarrow> string" where
  "clipped s = clippedTo REASON_LIMIT s"

section \<open>Targets\<close>

definition spellingsOf :: "string \<Rightarrow> string list" where
  "spellingsOf subject =
     (let value = (case indexOf (CHR '':'') subject of
            None \<Rightarrow> subject | Some divider \<Rightarrow> drop (divider + 1) subject);
          parts = filter (\<lambda>segment. segment \<noteq> []) (split_on (CHR ''/'') value);
          leaf = (if parts = [] then '''' else last parts)
      in filter (\<lambda>spelling. spelling \<noteq> []) [subject, value, leaf])"

definition namingTargetsOf :: "risk_signal list \<Rightarrow> string list" where
  "namingTargetsOf standing = uniq (concat (map (\<lambda>s. spellingsOf (rs_subject s)) standing))"

definition names :: "string \<Rightarrow> string \<Rightarrow> bool" where
  "names reason named \<longleftrightarrow> includesStr (toLowerCase reason) (toLowerCase named)"

section \<open>Reading the verdict\<close>

record verdict =
  vd_judgment :: e_judgment
  vd_reason :: string

record verdict_reading =
  vr_verdict :: verdict
  vr_fault :: "e_verdict_fault option"

definition NOTHING_SPOKEN :: string where
  "NOTHING_SPOKEN = ''the judge answered with no verdict at all, so nothing it said was read''"

definition namingNothing :: "string list \<Rightarrow> string" where
  "namingNothing targets =
     (case targets of
        [] \<Rightarrow> ''a signal fired that the judge would not name''
      | named # _ \<Rightarrow> ''a signal fired on '' @ named @ '', which the judge would not name'')"

definition parseVerdict :: "string \<Rightarrow> string list \<Rightarrow> verdict_reading" where
  "parseVerdict answer targets =
     (let spoken = withoutThinking answer in
      case declaredIn spoken of
        None \<Rightarrow> \<lparr>vr_verdict = \<lparr>vd_judgment = Proceed, vd_reason = NOTHING_SPOKEN\<rparr>,
                  vr_fault = Some Unspoken\<rparr>
      | Some declared \<Rightarrow>
          let reason = clipped (collapsed (reasonIn spoken)) in
          if declared = Proceed then
            \<lparr>vr_verdict = \<lparr>vd_judgment = Proceed, vd_reason = reason\<rparr>, vr_fault = None\<rparr>
          else if reason = [] then
            \<lparr>vr_verdict = \<lparr>vd_judgment = Check, vd_reason = namingNothing targets\<rparr>,
             vr_fault = Some Unexplained\<rparr>
          else if \<not> (\<exists>t \<in> set targets. names reason t) then
            \<lparr>vr_verdict = \<lparr>vd_judgment = Check,
               vd_reason = (case targets of
                  [] \<Rightarrow> reason
                | named # _ \<Rightarrow> clipped (reason @ '' (on '' @ named @ '')''))\<rparr>,
             vr_fault = Some Unnamed\<rparr>
          else \<lparr>vr_verdict = \<lparr>vd_judgment = Check, vd_reason = reason\<rparr>, vr_fault = None\<rparr>)"

text \<open>\<open>dimension.replaceAll('-', ' ')\<close>.\<close>

definition labelsOf :: "e_risk_dimension \<Rightarrow> string list" where
  "labelsOf dimension =
     [dimensionText dimension,
      map (\<lambda>c. if c = CHR ''-'' then CHR '' '' else c) (dimensionText dimension)]"

definition dimensionCitedIn :: "string \<Rightarrow> risk_signal list \<Rightarrow> e_risk_dimension option" where
  "dimensionCitedIn reason standing =
     (case List.find (\<lambda>s. \<exists>label \<in> set (labelsOf (rs_dimension s)). names reason label) standing of
        Some named \<Rightarrow> Some (rs_dimension named)
      | None \<Rightarrow> map_option rs_dimension
          (List.find (\<lambda>s. \<exists>t \<in> set (spellingsOf (rs_subject s)). names reason t) standing))"

section \<open>No thinking survives\<close>

lemma searchWith_None: "searchWith rd s = None \<longleftrightarrow> (\<forall>before rest. s = before @ rest \<longrightarrow> rd rest = None)"
proof (induction s)
  case (Cons c s)
  have "(\<forall>before rest. c # s = before @ rest \<longrightarrow> rd rest = None) \<longleftrightarrow>
      rd (c # s) = None \<and> (\<forall>before rest. s = before @ rest \<longrightarrow> rd rest = None)"
    by (metis append_Cons append_Nil append_eq_Cons_conv)
  with Cons show ?case by (auto split: option.splits)
qed (auto split: option.splits)

lemma searchWith_first:
  "searchWith rd s = Some (before, r) \<Longrightarrow> before = b @ c # b' \<Longrightarrow> s = before @ behind \<Longrightarrow>
     rd (c # b' @ behind) = None"
proof (induction s arbitrary: before b)
  case (Cons d s)
  then show ?case by (cases b) (auto split: option.splits)
qed simp

lemma readLiteral_append: "readLiteral p s = Some r \<Longrightarrow> readLiteral p (s @ v) = Some (r @ v)"
  by (induction p s rule: readLiteral.induct) (auto split: if_split_asm)

lemma readLiteral_snoc:
  "readLiteral p (u @ [c]) = Some r \<Longrightarrow> lowerChar c \<notin> set p \<Longrightarrow>
     \<exists>r'. readLiteral p u = Some r' \<and> r = r' @ [c]"
proof (induction p u rule: readLiteral.induct)
  case (2 p ps)
  then show ?case by (auto split: if_split_asm)
next
  case (3 p ps d s)
  then show ?case by (auto split: if_split_asm)
qed auto

lemma readLiteral_close [simp]:
  "readLiteral ''>'' (dropWhile (\<lambda>c. c \<noteq> CHR ''>'') s) = None \<longleftrightarrow> CHR ''>'' \<notin> set s"
proof (induction s)
  case (Cons c s)
  have "lowerChar (CHR ''>'') = CHR ''>''" by (simp add: lowerChar_def)
  with Cons show ?case by simp
qed simp

lemma readThinkingTag_iff:
  "readThinkingTag s \<noteq> None \<longleftrightarrow>
     (\<exists>c after. readLiteral ''<thinking'' s = Some (c # after) \<and> \<not> is_name_char c \<and>
        CHR ''>'' \<in> set (c # after))"
proof (cases "readLiteral ''<thinking'' s")
  case None
  then show ?thesis by (simp add: readThinkingTag_def del: readLiteral.simps)
next
  case (Some after)
  show ?thesis
  proof (cases after)
    case Nil
    then have "readThinkingTag s = readLiteral ''>'' []"
      by (simp add: readThinkingTag_def Some del: readLiteral.simps)
    then show ?thesis by (simp add: Some Nil del: readLiteral.simps(3))
  next
    case (Cons c rest)
    have "readThinkingTag s = (if is_name_char c then None
        else readLiteral ''>'' (dropWhile (\<lambda>c. c \<noteq> CHR ''>'') (c # rest)))"
      by (simp add: readThinkingTag_def Some Cons del: readLiteral.simps dropWhile.simps)
    then have "readThinkingTag s = None \<longleftrightarrow> is_name_char c \<or> CHR ''>'' \<notin> set (c # rest)"
      by (cases "is_name_char c") (simp_all only: if_True if_False readLiteral_close simp_thms)
    then have "readThinkingTag s \<noteq> None \<longleftrightarrow> \<not> is_name_char c \<and> CHR ''>'' \<in> set (c # rest)"
      by simp
    moreover have "(\<exists>d r. Some (c # rest) = Some (d # r) \<and> \<not> is_name_char d \<and>
        CHR ''>'' \<in> set (d # r)) \<longleftrightarrow> \<not> is_name_char c \<and> CHR ''>'' \<in> set (c # rest)"
      by simp
    ultimately show ?thesis unfolding Some Cons by (simp only:)
  qed
qed

lemma readThinkingTag_append:
  assumes "readThinkingTag s \<noteq> None"
  shows "readThinkingTag (s @ v) \<noteq> None"
proof -
  obtain c after where "readLiteral ''<thinking'' s = Some (c # after)"
    and "\<not> is_name_char c" "CHR ''>'' \<in> set (c # after)"
    using assms unfolding readThinkingTag_iff by blast
  then show ?thesis unfolding readThinkingTag_iff
    using readLiteral_append [of "''<thinking''" s "c # after" v] by auto
qed

lemma readThinkingTag_snoc:
  assumes "readThinkingTag (u @ '' '') \<noteq> None"
  shows "readThinkingTag u \<noteq> None"
proof -
  obtain c after where lit: "readLiteral ''<thinking'' (u @ '' '') = Some (c # after)"
    and c: "\<not> is_name_char c" "CHR ''>'' \<in> set (c # after)"
    using assms unfolding readThinkingTag_iff by blast
  have "lowerChar (CHR '' '') \<notin> set ''<thinking''" by (simp add: lowerChar_def)
  from readLiteral_snoc [OF lit this] obtain r where r: "readLiteral ''<thinking'' u = Some r"
      "c # after = r @ '' ''" by blast
  with c obtain r' where "r = c # r'" by (cases r) auto
  with r c show ?thesis unfolding readThinkingTag_iff by auto
qed

lemma replaceUnclosed_no_tag: "searchWith readThinkingTag (replaceUnclosed s) = None"
proof (cases "searchWith readThinkingTag s")
  case None
  then show ?thesis by (simp add: replaceUnclosed_def)
next
  case (Some found)
  obtain before r where found: "searchWith readThinkingTag s = Some (before, r)"
    using Some by (cases found) auto
  obtain behind where s: "s = before @ behind"
    using searchWith_Some [OF found] by blast
  have "readThinkingTag rest = None" if "before @ '' '' = b @ rest" for b rest
  proof (cases "rest = [] \<or> rest = '' ''")
    case True
    then show ?thesis by (auto simp: readThinkingTag_def lowerChar_def)
  next
    case False
    then obtain b' y where y: "rest = b' @ [y]" by (cases rest rule: rev_cases) auto
    with that have "before @ '' '' = (b @ b') @ [y]" by simp
    then have "before = b @ b'" and "y = CHR '' ''" by (metis append1_eq_conv)+
    with y False have rest: "rest = b' @ '' ''" "before = b @ b'" "b' \<noteq> []" by auto
    then obtain c b'' where b': "b' = c # b''" by (cases b') auto
    have "readThinkingTag (b' @ behind) = None"
      using searchWith_first [OF found _ s, of b c b''] rest b' by simp
    then have "readThinkingTag b' = None"
      using readThinkingTag_append by blast
    then show ?thesis using readThinkingTag_snoc rest by blast
  qed
  then have "searchWith readThinkingTag (before @ '' '') = None"
    unfolding searchWith_None by blast
  then show ?thesis by (simp add: replaceUnclosed_def found)
qed

text \<open>Nothing the judge thinks aloud is read as its answer: the text the verdict is looked for
  in holds no opening thinking tag, closed or not, anywhere.\<close>

theorem withoutThinking_no_tag: "searchWith readThinkingTag (withoutThinking s) = None"
  by (simp add: withoutThinking_def replaceUnclosed_no_tag)



end
