(* ===== verification/Before_Tool.thy ===== *)
theory Before_Tool
  imports Events
begin

text \<open>
  \<open>policy/before-tool.ts\<close>: what the hooks consulted before a tool call say, and how their outcomes
  resolve: the first denial wins, then the first question, then the last input allowed.
\<close>

section \<open>Definitions\<close>

datatype e_before_tool_decision = BT_Allow | BT_Ask | BT_Deny

fun decisionText :: "e_before_tool_decision \<Rightarrow> string" where
  "decisionText BT_Allow = ''allow''"
| "decisionText BT_Ask = ''ask''"
| "decisionText BT_Deny = ''deny''"

datatype before_tool_outcome =
    AllowWith (bo_input: json) (bo_drafts: "event_body list option")
  | AskWith (bo_reason: string) (bo_drafts: "event_body list option")
  | DenyWith (bo_reason: string) (bo_drafts: "event_body list option")

fun decisionOf :: "before_tool_outcome \<Rightarrow> e_before_tool_decision" where
  "decisionOf (AllowWith _ _) = BT_Allow"
| "decisionOf (AskWith _ _) = BT_Ask"
| "decisionOf (DenyWith _ _) = BT_Deny"

record hook_dissent =
  hd_hookName :: string
  hd_decision :: e_before_tool_decision
  hd_reason :: string

record before_tool_resolution =
  br_outcome :: before_tool_outcome
  br_dissenters :: "hook_dissent list"
  br_drafts :: "event_body list"

record consulted_hook =
  ch_hookName :: string
  ch_outcome :: before_tool_outcome

definition dissentsAmong :: "consulted_hook list \<Rightarrow> hook_dissent list" where
  "dissentsAmong outcomes =
     concat (map (\<lambda>hook.
       (if decisionOf (ch_outcome hook) = BT_Allow then []
        else [\<lparr>hd_hookName = ch_hookName hook, hd_decision = decisionOf (ch_outcome hook),
               hd_reason = bo_reason (ch_outcome hook)\<rparr>])) outcomes)"

definition firstDissentFor ::
  "hook_dissent list \<Rightarrow> e_before_tool_decision \<Rightarrow> hook_dissent option" where
  "firstDissentFor dissenters decision =
     List.find (\<lambda>dissent. hd_decision dissent = decision) dissenters"

definition reasonOf :: "hook_dissent \<Rightarrow> string" where
  "reasonOf dissent =
     (if hd_reason dissent \<noteq> '''' then hd_reason dissent
      else ''the '' @ hd_hookName dissent @ '' hook returned '' @
        decisionText (hd_decision dissent) @ '' without a reason'')"

definition lastAllowedInput :: "consulted_hook list \<Rightarrow> json \<Rightarrow> json" where
  "lastAllowedInput outcomes fallback =
     (case filter (\<lambda>outcome. decisionOf outcome = BT_Allow) (map ch_outcome outcomes) of
        [] \<Rightarrow> fallback
      | allowed \<Rightarrow> bo_input (last allowed))"

definition draftsAmong :: "consulted_hook list \<Rightarrow> event_body list" where
  "draftsAmong outcomes =
     concat (map (\<lambda>hook. case bo_drafts (ch_outcome hook) of None \<Rightarrow> [] | Some drafts \<Rightarrow> drafts)
       outcomes)"

definition resolveBeforeTool :: "tool_call \<Rightarrow> consulted_hook list \<Rightarrow> before_tool_resolution" where
  "resolveBeforeTool call outcomes =
     (let dissenters = dissentsAmong outcomes; drafts = draftsAmong outcomes;
          resolved = (\<lambda>outcome. \<lparr>br_outcome = outcome, br_dissenters = dissenters,
            br_drafts = drafts\<rparr>)
      in case firstDissentFor dissenters BT_Deny of
           Some denial \<Rightarrow> resolved (DenyWith (reasonOf denial) None)
         | None \<Rightarrow> (case firstDissentFor dissenters BT_Ask of
               Some question \<Rightarrow> resolved (AskWith (reasonOf question) None)
             | None \<Rightarrow> resolved (AllowWith (lastAllowedInput outcomes (tc_input call)) None)))"

section \<open>Lemmas\<close>

lemma dissent_iff:
  "(\<exists>dissent \<in> set (dissentsAmong outcomes). hd_decision dissent = decision) \<longleftrightarrow>
     decision \<noteq> BT_Allow \<and> (\<exists>hook \<in> set outcomes. decisionOf (ch_outcome hook) = decision)"
  by (induction outcomes) (auto simp: dissentsAmong_def)

lemma firstDissent_None:
  "decision \<noteq> BT_Allow \<Longrightarrow> firstDissentFor (dissentsAmong outcomes) decision = None \<longleftrightarrow>
     (\<forall>hook \<in> set outcomes. decisionOf (ch_outcome hook) \<noteq> decision)"
  using dissent_iff [of outcomes decision] by (auto simp: firstDissentFor_def find_None_iff)

lemma resolve_decision:
  "decisionOf (br_outcome (resolveBeforeTool call outcomes)) =
     (if \<exists>hook \<in> set outcomes. decisionOf (ch_outcome hook) = BT_Deny then BT_Deny
      else if \<exists>hook \<in> set outcomes. decisionOf (ch_outcome hook) = BT_Ask then BT_Ask
      else BT_Allow)"
proof (cases "firstDissentFor (dissentsAmong outcomes) BT_Deny")
  case Some
  then have "\<not> (\<forall>hook \<in> set outcomes. decisionOf (ch_outcome hook) \<noteq> BT_Deny)"
    using firstDissent_None [of BT_Deny outcomes] by simp
  with Some show ?thesis by (simp add: resolveBeforeTool_def Let_def)
next
  case None
  then have no_deny: "\<forall>hook \<in> set outcomes. decisionOf (ch_outcome hook) \<noteq> BT_Deny"
    using firstDissent_None [of BT_Deny outcomes] by simp
  show ?thesis
  proof (cases "firstDissentFor (dissentsAmong outcomes) BT_Ask")
    case (Some question)
    then have "\<not> (\<forall>hook \<in> set outcomes. decisionOf (ch_outcome hook) \<noteq> BT_Ask)"
      using firstDissent_None [of BT_Ask outcomes] by simp
    with None Some no_deny show ?thesis by (simp add: resolveBeforeTool_def Let_def)
  next
    case None
    then have "\<forall>hook \<in> set outcomes. decisionOf (ch_outcome hook) \<noteq> BT_Ask"
      using firstDissent_None [of BT_Ask outcomes] by simp
    with \<open>firstDissentFor (dissentsAmong outcomes) BT_Deny = None\<close> None no_deny
    show ?thesis by (simp add: resolveBeforeTool_def Let_def)
  qed
qed

lemma resolve_drafts: "br_drafts (resolveBeforeTool call outcomes) = draftsAmong outcomes"
  by (simp add: resolveBeforeTool_def Let_def split: option.splits)

text \<open>Several hooks speak with one voice. A denial by any hook denies the call, otherwise a question by any
  hook asks, otherwise the call is allowed; and the drafts of all hooks are kept, in order.\<close>

theorem resolveBeforeTool_priority:
  "decisionOf (br_outcome (resolveBeforeTool call outcomes)) =
     (if \<exists>hook \<in> set outcomes. decisionOf (ch_outcome hook) = BT_Deny then BT_Deny
      else if \<exists>hook \<in> set outcomes. decisionOf (ch_outcome hook) = BT_Ask then BT_Ask
      else BT_Allow) \<and>
   br_drafts (resolveBeforeTool call outcomes) = draftsAmong outcomes"
  by (simp add: resolve_decision resolve_drafts)

end
