(* ===== verification/Adjudicate.thy ===== *)
theory Adjudicate
  imports Verdict Remedy Before_Tool
begin

text \<open>
  \<open>policy/classifier/adjudicate.ts\<close>: from the triage and the consultation of the judge to the outcome
  of the hook and the event it records.
\<close>

section \<open>Definitions\<close>

datatype consultation =
    Judged (co_verdict: verdict) (co_elapsedMs: nat) (co_verdictFault: "e_verdict_fault option")
  | Unreachable (co_fault: string)
  | Budgeted (co_calls: nat)

definition ADJUDICATE_REASON_LIMIT :: nat where "ADJUDICATE_REASON_LIMIT = 400"

definition detailsOf :: "risk_signal list \<Rightarrow> string" where
  "detailsOf standing = join ''; '' (map rs_detail standing)"

definition unconsultedReason :: "triage \<Rightarrow> string" where
  "unconsultedReason tr =
     (let fatigue = (if tr_fatigued tr then '' (this thread has spent its interruptions)'' else '''') in
      if length (tr_standing tr) > 0 then detailsOf (tr_standing tr) @ fatigue
      else if length (tr_cleared tr) > 0 then
        let subjects = uniq (map (\<lambda>cleared. rs_subject (cl_signal cleared)) (tr_cleared tr)) in
        ''a standing grant covers '' @ join '', '' subjects
      else ''nothing the probes watch for fired'')"

definition reasonFor :: "triage \<Rightarrow> consultation option \<Rightarrow> string" where
  "reasonFor tr consultation =
     (case consultation of
        None \<Rightarrow> unconsultedReason tr
      | Some (Judged verdict _ _) \<Rightarrow> vd_reason verdict
      | Some (Budgeted calls) \<Rightarrow> ''the judge budget for this turn is spent after '' @ show_nat calls @
          '' calls; '' @ detailsOf (tr_standing tr)
      | Some (Unreachable fault) \<Rightarrow> ''could not check this: '' @ fault @ ''; '' @
          detailsOf (tr_standing tr))"

definition judgedOf :: "consultation option \<Rightarrow> verdict option" where
  "judgedOf consultation =
     (case consultation of Some (Judged verdict _ _) \<Rightarrow> Some verdict | _ \<Rightarrow> None)"

definition worthAskingUnreached :: "risk_signal list \<Rightarrow> classifier_policy \<Rightarrow> bool" where
  "worthAskingUnreached standing policy \<longleftrightarrow>
     (\<exists>signal \<in> set standing. \<not> rs_unverified signal \<and>
        (rs_ungrantable signal \<or>
         reachesSeverity (rs_severity signal) (cp_askWhenUnreachableAtOrAbove policy)))"

definition wouldAsk :: "triage \<Rightarrow> consultation option \<Rightarrow> classifier_policy \<Rightarrow> bool" where
  "wouldAsk tr consultation policy \<longleftrightarrow>
     (if cp_mode policy = Off then False
      else if tr_triage tr \<noteq> Consult then False
      else (case consultation of
          Some (Budgeted _) \<Rightarrow> False
        | Some (Judged verdict _ _) \<Rightarrow> vd_judgment verdict = Check
        | _ \<Rightarrow> worthAskingUnreached (tr_standing tr) policy))"

text \<open>An optional key that the draft leaves out, or gives the value \<open>undefined\<close>, is \<open>None\<close>.\<close>

definition draftFor ::
  "tool_call \<Rightarrow> triage \<Rightarrow> consultation option \<Rightarrow> classifier_policy \<Rightarrow> nat \<Rightarrow> bool \<Rightarrow> event_body" where
  "draftFor call tr consultation policy elapsedMs asks =
     (let verdict = judgedOf consultation;
          budgeted = (case consultation of Some (Budgeted _) \<Rightarrow> True | _ \<Rightarrow> False);
          standing = tr_standing tr;
          reason = clippedTo ADJUDICATE_REASON_LIMIT (reasonFor tr consultation)
      in ClassifierJudged
           (tc_callId call)
           (cp_mode policy)
           (if budgeted then Clear else tr_triage tr)
           (case verdict of None \<Rightarrow> Proceed | Some v \<Rightarrow> vd_judgment v)
           (uniq (map rs_dimension standing))
           (if map_option vd_judgment verdict = Some Check then dimensionCitedIn reason standing
            else None)
           (case consultation of Some (Judged _ _ fault) \<Rightarrow> fault | _ \<Rightarrow> None)
           (map rs_id standing)
           (Some (map rs_detail standing))
           (if length standing = 0 then None else Some (grantOffersOf standing))
           reason
           (verdict \<noteq> None)
           (Some asks)
           (Some (tr_fatigued tr))
           elapsedMs)"

definition adjudicate ::
  "tool_call \<Rightarrow> triage \<Rightarrow> consultation option \<Rightarrow> classifier_policy \<Rightarrow> nat \<Rightarrow> before_tool_outcome" where
  "adjudicate call tr consultation policy elapsedMs =
     (let asks = wouldAsk tr consultation policy;
          draft = draftFor call tr consultation policy elapsedMs asks
      in if asks \<and> cp_mode policy = Nudge then
           DenyWith (refusalFor (eb_reason draft) (tr_standing tr)) (Some [draft])
         else AllowWith (tc_input call) (Some [draft]))"

section \<open>Lemmas\<close>

lemma adjudicate_decision:
  "decisionOf (adjudicate call tr consultation policy elapsedMs) =
     (if wouldAsk tr consultation policy \<and> cp_mode policy = Nudge then BT_Deny else BT_Allow)"
  by (simp add: adjudicate_def Let_def)

lemma adjudicate_draft:
  "bo_drafts (adjudicate call tr consultation policy elapsedMs) =
     Some [draftFor call tr consultation policy elapsedMs (wouldAsk tr consultation policy)]"
  by (simp add: adjudicate_def Let_def)

lemma wouldAsk_consults: "wouldAsk tr consultation policy \<Longrightarrow> tr_triage tr = Consult"
  by (simp add: wouldAsk_def split: if_split_asm)

lemma wouldAsk_standing:
  assumes "wouldAsk (triageOf evidence signals policy asks) consultation policy"
  shows "tr_standing (triageOf evidence signals policy asks) \<noteq> []"
  using wouldAsk_consults [OF assms] by (simp add: triageOf_consults)

lemma clippedTo_length: "0 < limit \<Longrightarrow> length (clippedTo limit s) \<le> limit"
  by (simp add: clippedTo_def)

lemma draftFor_reason:
  "eb_reason (draftFor call tr consultation policy elapsedMs asks) =
     clippedTo ADJUDICATE_REASON_LIMIT (reasonFor tr consultation)"
  by (simp add: draftFor_def Let_def)

section \<open>Properties\<close>

lemma adjudicate_allowed:
  "decisionOf (adjudicate call tr consultation policy elapsedMs) \<noteq> BT_Deny \<Longrightarrow>
     bo_input (adjudicate call tr consultation policy elapsedMs) = tc_input call"
  by (auto simp: adjudicate_def Let_def)


text \<open>C38: every adjudicated call is recorded once, with its own id, the signals that stood, whether it would
  be asked about, and a reason of at most 400 characters.\<close>

theorem adjudicate_records:
  "\<exists>draft. bo_drafts (adjudicate call tr consultation policy elapsedMs) = Some [draft] \<and>
     is_ClassifierJudged draft \<and> eb_callId draft = tc_callId call \<and>
     length (eb_reason draft) \<le> 400 \<and>
     eb_signalIds draft = map rs_id (tr_standing tr) \<and>
     eb_wouldAsk draft = Some (wouldAsk tr consultation policy)"
  by (simp add: adjudicate_draft draftFor_def Let_def ADJUDICATE_REASON_LIMIT_def clippedTo_length)


end
