(* ===== verification/Lex_Facts.thy ===== *)
theory Lex_Facts
  imports Lex
begin

text \<open>
  Correctness of the lexer: single-quoted text is read back exactly, whatever it holds; and the
  expansions a token still carries are those the resolver does not know.
\<close>

section \<open>Quoting is read back\<close>

declare lexLoop.simps(2) [simp del]

text \<open>POSIX quoting of a word: inside single quotes, each quote becomes \<open>'\''\<close>.\<close>

fun quoteBody :: "string \<Rightarrow> string" where
  "quoteBody [] = []"
| "quoteBody (c # cs) =
     (if c = squote then [squote, backslash, squote, squote] else [c]) @ quoteBody cs"

definition quoteWord :: "string \<Rightarrow> string" where
  "quoteWord w = squote # quoteBody w @ [squote]"

definition wordToken :: "string \<Rightarrow> lexed_token" where
  "wordToken w = \<lparr>tok_kind = KWord, tok_text = w, tok_expansions = [], tok_isHeredocBody = False\<rparr>"

lemma quoteBody_append: "quoteBody (u @ v) = quoteBody u @ quoteBody v"
  by (induction u) auto

lemma quoteBody_plain: "squote \<notin> set u \<Longrightarrow> quoteBody u = u"
  by (induction u) auto

lemma draft_accumulates [simp]:
  "draftText b (openDraft (draftText a (openDraft st))) = draftText (a @ b) (openDraft st)"
  "draftText b (draftText a st) = draftText (a @ b) st"
  by (simp_all add: draftText_def openDraft_def addText_def)

lemma lexLoop_single_quoted:
  "squote \<notin> set u \<Longrightarrow>
     lexLoop resolve (squote # u @ squote # after) st
       = lexLoop resolve after (draftText u (openDraft st))"
  by (simp add: lexLoop.simps(2) lexStep.simps readSingleQuoted_def char_defs)

lemma lexLoop_escaped_quote:
  "lexLoop resolve (backslash # squote # after) st
     = lexLoop resolve after (draftText [squote] (openDraft st))"
  by (simp add: lexLoop.simps(2) lexStep.simps char_defs)

lemma lexLoop_quoteBody:
  "lexLoop resolve (squote # quoteBody w @ squote # after) st
     = lexLoop resolve after (draftText w (openDraft st))"
proof (induction w arbitrary: st rule: length_induct)
  case (1 w)
  show ?case
  proof (cases "squote \<in> set w")
    case False
    then show ?thesis by (simp add: quoteBody_plain lexLoop_single_quoted)
  next
    case True
    then obtain u v where w: "w = u @ squote # v" and u: "squote \<notin> set u"
      by (meson split_list_first)
    have "lexLoop resolve (squote # quoteBody w @ squote # after) st
        = lexLoop resolve (squote # u @ squote # backslash # squote # squote # quoteBody v @ squote # after) st"
      using u by (simp add: w quoteBody_append quoteBody_plain)
    also have "\<dots> = lexLoop resolve (squote # quoteBody v @ squote # after)
        (draftText (u @ [squote]) (openDraft st))"
      using u by (simp add: lexLoop_single_quoted lexLoop_escaped_quote)
    also have "\<dots> = lexLoop resolve after (draftText w (openDraft st))"
      using 1 w by simp
    finally show ?thesis .
  qed
qed

lemma lexLoop_blank: "lexLoop resolve (CHR '' '' # after) st = lexLoop resolve after (flush st)"
  by (simp add: lexLoop.simps(2) lexStep.simps lexPlain_def isBlank_def char_defs)

lemma flush_quoted:
  "st_draft st = freshDraft \<Longrightarrow>
     flush (draftText w (openDraft st)) = st\<lparr>st_tokens := st_tokens st @ [wordToken w]\<rparr>"
  by (simp add: flush_def draftText_def openDraft_def addText_def emit_def wordToken_def freshDraft_def)

lemma flush_fresh: "st_draft st = freshDraft \<Longrightarrow> flush st = st"
  by (simp add: flush_def freshDraft_def)

lemma lexLoop_quoted_words:
  "st_draft st = freshDraft \<Longrightarrow>
     flush (lexLoop resolve (join '' '' (map quoteWord ws)) st)
       = st\<lparr>st_tokens := st_tokens st @ map wordToken ws\<rparr>"
proof (induction ws arbitrary: st)
  case Nil
  then show ?case by (simp add: flush_fresh)
next
  case (Cons w ws)
  show ?case
  proof (cases ws)
    case Nil
    then show ?thesis
      using lexLoop_quoteBody [of resolve w "[]" st] Cons.prems
      by (simp add: quoteWord_def flush_quoted)
  next
    case (Cons w' ws')
    have "join '' '' (map quoteWord (w # ws))
        = squote # quoteBody w @ squote # CHR '' '' # join '' '' (map quoteWord ws)"
      using Cons by (simp add: join_Cons quoteWord_def)
    then show ?thesis
      using Cons.IH Cons.prems by (simp add: lexLoop_quoteBody lexLoop_blank flush_quoted)
  qed
qed

lemma lexCommand_quotedWords:
  "lexCommand resolve (join '' '' (map quoteWord ws))
     = \<lparr>lex_tokens = map wordToken ws, lex_unterminated = False\<rparr>"
  using lexLoop_quoted_words [of initialState resolve ws]
  by (simp add: lexCommand_def initialState_def Let_def)

text \<open>C20: quoting round trip. A command line built from any words, each quoted for the shell with
  single quotes and the words joined by blanks, is lexed to exactly those words: one word token per
  word with its exact text, no operator, no expansion, and nothing left unterminated.\<close>

theorem lexCommand_quoted:
  "lexCommand resolve (join '' '' (map quoteWord ws))
     = \<lparr>lex_tokens = map wordToken ws, lex_unterminated = False\<rparr>"
  by (rule lexCommand_quotedWords)

section \<open>What the resolver knows is never left as an expansion\<close>

definition unresolved :: "variable_resolver option \<Rightarrow> expansion \<Rightarrow> bool" where
  "unresolved resolve e \<longleftrightarrow>
     (exp_kind e = Variable \<longrightarrow> Option.bind resolve (\<lambda>r. r (exp_text e)) = None)"

definition sinkOk :: "variable_resolver option \<Rightarrow> 'a expansion_sink_scheme \<Rightarrow> bool" where
  "sinkOk resolve sink \<longleftrightarrow> (\<forall>e \<in> set (sink_expansions sink). unresolved resolve e)"

definition lexOk :: "variable_resolver option \<Rightarrow> lex_state \<Rightarrow> bool" where
  "lexOk resolve st \<longleftrightarrow> sinkOk resolve (st_draft st) \<and>
     (\<forall>t \<in> set (st_tokens st). \<forall>e \<in> set (tok_expansions t). unresolved resolve e)"

lemma sinkOk_addText [simp]: "sinkOk resolve (addText t sink) = sinkOk resolve sink"
  by (simp add: sinkOk_def addText_def)

lemma sinkOk_addExpansion [simp]:
  "sinkOk resolve (addExpansion e sink) \<longleftrightarrow> sinkOk resolve sink \<and> unresolved resolve e"
  by (auto simp: sinkOk_def addExpansion_def)

lemma takeExpansion_ok:
  "takeExpansion resolve sink s = Some (sink', r) \<Longrightarrow> sinkOk resolve sink \<Longrightarrow> sinkOk resolve sink'"
  by (auto simp: takeExpansion_def unresolved_def split: if_splits option.splits prod.splits)

lemma expandPlainText_ok: "sinkOk resolve sink \<Longrightarrow> sinkOk resolve (expandPlainText resolve s sink)"
proof (induction resolve s sink rule: expandPlainText.induct)
  case (2 resolve char cs sink)
  then show ?case
    using takeExpansion_ok [of resolve sink "char # cs"]
    by (cases "takeExpansion resolve sink (char # cs)") auto
qed simp

lemma lexOk_simps [simp]:
  "lexOk resolve (markUnterminated st) = lexOk resolve st"
  "lexOk resolve (openDraft st) = lexOk resolve st"
  "lexOk resolve (draftText t st) = lexOk resolve st"
  "lexOk resolve (emit KOperator op [] st) = lexOk resolve st"
  "lexOk resolve (st\<lparr>st_heredocs := hs\<rparr>) = lexOk resolve st"
  by (auto simp: lexOk_def markUnterminated_def openDraft_def draftText_def emit_def sinkOk_def
      addText_def)

lemma lexOk_taken:
  "takeExpansion resolve (st_draft st) s = Some (sink, r) \<Longrightarrow> lexOk resolve st \<Longrightarrow>
     lexOk resolve (st\<lparr>st_draft := sink\<rparr>)"
  using takeExpansion_ok by (auto simp: lexOk_def)

lemma lexOk_flush: "lexOk resolve st \<Longrightarrow> lexOk resolve (flush st)"
  by (auto simp: lexOk_def flush_def emit_def sinkOk_def freshDraft_def)

lemma lexOk_doubleQuoted: "lexOk resolve st \<Longrightarrow> lexOk resolve (snd (doubleQuotedLoop resolve s st))"
proof (induction resolve s st rule: doubleQuotedLoop.induct)
  case (2 resolve char cs st)
  show ?case
    using "2.IH" "2.prems" lexOk_taken [of resolve st "char # cs"]
    by (subst doubleQuotedLoop.simps(2)) (auto split: list.split option.split)
qed simp

lemma lexOk_heredocBody: "lexOk resolve st \<Longrightarrow> lexOk resolve (snd (heredocBody resolve doc s st))"
proof -
  assume ok: "lexOk resolve st"
  obtain ls closed rest where lines: "heredocLines doc s = (ls, closed, rest)"
    by (cases "heredocLines doc s") auto
  have "sinkOk resolve (expandPlainText resolve (join [newline] ls) \<lparr>sink_text = '''', sink_expansions = []\<rparr>)"
    by (rule expandPlainText_ok) (simp add: sinkOk_def)
  with ok show ?thesis
    by (auto simp: heredocBody_def lines Let_def lexOk_def sinkOk_def markUnterminated_def)
qed

lemma lexOk_heredocBodies:
  "lexOk resolve st \<Longrightarrow> lexOk resolve (snd (heredocBodies resolve docs s st))"
  by (induction docs arbitrary: s st)
    (auto simp: case_prod_beta dest: lexOk_heredocBody)

lemma lexOk_operator:
  "lexOk resolve st \<Longrightarrow> lexOk resolve (snd (lexOperator resolve op after st))"
  using lexOk_heredocBodies [of resolve st "st_heredocs st" after]
  by (auto simp: lexOperator_def consumeHeredocBodies_def case_prod_beta split: option.split)

lemma lexOk_plain: "lexOk resolve st \<Longrightarrow> lexOk resolve (snd (lexPlain resolve char cs st))"
  by (auto simp: lexPlain_def lexOk_flush lexOk_operator split: option.split)

lemma lexOk_single: "lexOk resolve st \<Longrightarrow> lexOk resolve (snd (readSingleQuoted s st))"
  by (simp add: readSingleQuoted_def split: option.split)

lemma lexOk_step: "lexOk resolve st \<Longrightarrow> lexOk resolve (snd (lexStep resolve char cs st))"
  using lexOk_taken [of resolve st "char # cs"] lexOk_plain [of resolve st char cs]
    lexOk_single [of resolve st cs] lexOk_doubleQuoted [of resolve "openDraft st" cs]
  by (cases "takeExpansion resolve (st_draft st) (char # cs)")
    (auto simp: lexStep.simps readDoubleQuoted_def split: list.split)

lemma lexOk_loop: "lexOk resolve st \<Longrightarrow> lexOk resolve (lexLoop resolve s st)"
proof (induction resolve s st rule: lexLoop.induct)
  case (2 resolve char cs st)
  then show ?case
    using lexOk_step [of resolve st char cs]
    by (cases "lexStep resolve char cs st") (auto simp: lexLoop.simps(2))
qed simp

lemma lexCommand_expansions_unresolved:
  assumes "t \<in> set (lex_tokens (lexCommand resolve command))" and "e \<in> set (tok_expansions t)"
  shows "unresolved resolve e"
proof -
  have "lexOk resolve initialState"
    by (simp add: lexOk_def initialState_def sinkOk_def freshDraft_def)
  then have "lexOk resolve (flush (lexLoop resolve command initialState))"
    by (intro lexOk_flush lexOk_loop)
  with assms show ?thesis by (auto simp: lexCommand_def Let_def lexOk_def)
qed

end
