(* ===== verification/Read_Facts.thy ===== *)
theory Read_Facts
  imports Read_Command Lex_Facts
begin

text \<open>
  Correctness of the command reader: what a confident reading guarantees, that tracked directories
  stay absolute and normal through nested scripts and subshells, and that a quoted simple command is
  read as exactly that command.
\<close>

section \<open>Invariants of a reading\<close>

text \<open>The interface for properties of every segment of a reading: \<open>Dir\<close> holds of the directories
  the reader carries, \<open>Seg\<close> of the segments it builds.\<close>

locale reading_invariant =
  fixes Dir :: "string option \<Rightarrow> bool" and Seg :: "built_segment \<Rightarrow> bool"
  assumes build: "Dir incoming \<Longrightarrow> buildSegment incoming segment = Some e \<Longrightarrow> Seg e"
    and after: "Dir incoming \<Longrightarrow> Dir (cwdAfterSegment incoming program operands literal)"
    and inner: "Seg e \<Longrightarrow> Dir (cs_cwd (bs_segment e))"
    and mark: "Seg e \<Longrightarrow> Seg (e\<lparr>bs_segment := (bs_segment e)\<lparr>cs_pipesIntoInterpreter := True\<rparr>\<rparr>)"
begin

lemma markInterpreterPipes_all:
  "\<forall>e \<in> set built. Seg e \<Longrightarrow> \<forall>e \<in> set (markInterpreterPipes built). Seg e"
  by (induction built) (auto intro: mark)

lemma adjustScopes_all:
  assumes "scopes \<noteq> []" and "\<forall>d \<in> set scopes. Dir d"
  shows "adjustScopes depth scopes \<noteq> [] \<and> (\<forall>d \<in> set (adjustScopes depth scopes). Dir d)"
proof -
  let ?kept = "take (depth + 1) scopes"
  have "?kept \<noteq> []" "\<forall>d \<in> set ?kept. Dir d"
    using assms by (auto dest: in_set_takeD)
  then show ?thesis by (auto simp: adjustScopes_def Let_def)
qed

lemma scopesAfter_all:
  assumes "scopes \<noteq> []" and "\<forall>d \<in> set scopes. Dir d"
  shows "scopesAfter segment scopes \<noteq> [] \<and> (\<forall>d \<in> set (scopesAfter segment scopes). Dir d)"
  using assms by (auto simp: scopesAfter_def intro: after dest: in_set_butlastD split: list.split)

lemma read_all:
  "Dir cwd \<Longrightarrow> \<forall>e \<in> set (fst (readWithin command cwd depth)). Seg e"
  "scopes \<noteq> [] \<Longrightarrow> \<forall>d \<in> set scopes. Dir d \<Longrightarrow>
     \<forall>e \<in> set (fst (readSegments scopes segments depth)). Seg e"
proof (induction command cwd depth and scopes segments depth rule: readWithin_readSegments.induct)
  case (1 command cwd depth)
  then show ?case
    using markInterpreterPipes_all by (simp add: readWithin.simps Let_def case_prod_beta)
next
  case (2 scopes depth)
  then show ?case by (simp add: readSegments.simps)
next
  case (3 scopes segment segments depth)
  let ?here = "adjustScopes (seg_depth segment) scopes"
  let ?entry = "buildSegment (last ?here) segment"
  let ?nested = "Option.bind ?entry (\<lambda>e. inlineScriptOf e depth)"
  have here: "?here \<noteq> []" "\<forall>d \<in> set ?here. Dir d"
    using adjustScopes_all 3 by blast+
  then have entry: "\<forall>e \<in> set (option_list ?entry). Seg e"
    by (cases ?entry) (auto intro: build)
  have later: "\<forall>e \<in> set (fst (readSegments (scopesAfter segment ?here) segments depth)). Seg e"
    using "3.IH"(2) scopesAfter_all here by blast
  have nested: "\<forall>e \<in> set (fst (readWithin script (cs_cwd (bs_segment (the ?entry))) (depth + 1))). Seg e"
    if n: "?nested = Some script" for script
  proof -
    from n obtain e where "?entry = Some e" by (cases ?entry) auto
    then have "Dir (cs_cwd (bs_segment (the ?entry)))" using entry inner by simp
    then show ?thesis using "3.IH"(1) [OF refl refl refl n] by simp
  qed
  show ?case
    unfolding readSegments.simps Let_def
    using entry later nested by (auto split: option.splits)
qed

end

section \<open>A confident reading\<close>

definition readable_ok :: "built_segment \<Rightarrow> bool" where
  "readable_ok e \<longleftrightarrow> (bs_readable e \<longrightarrow>
     cs_cwd (bs_segment e) \<noteq> None \<and> cs_unresolvedExpansions (bs_segment e) = [] \<and>
     cs_program (bs_segment e) \<notin> set shellKeywords)"

interpretation readable: reading_invariant "\<lambda>_. True" readable_ok
  by unfold_locales
    (auto simp: readable_ok_def buildSegment_def keywordSegment_def draftSegment_def Let_def
      split: list.splits if_splits)

text \<open>The verb of a segment exists only for programs that have verbs.\<close>

definition verb_ok :: "built_segment \<Rightarrow> bool" where
  "verb_ok e \<longleftrightarrow> (cs_verb (bs_segment e) \<noteq> None \<longrightarrow> hasVerbs (cs_program (bs_segment e)))"

interpretation verbs: reading_invariant "\<lambda>_. True" verb_ok
  by unfold_locales
    (auto dest: splitArguments_verb simp: verb_ok_def buildSegment_def keywordSegment_def draftSegment_def Let_def
      split: list.splits if_splits)

interpretation directories: reading_invariant goodCwd "\<lambda>e. goodCwd (cs_cwd (bs_segment e))"
  using cwdForSegment_good cwdAfterSegment_good
  by unfold_locales
    (auto simp: buildSegment_def keywordSegment_def draftSegment_def Let_def
      split: list.splits if_splits)

lemma readCommand_segments:
  "s \<in> set (cr_segments (readCommand command workdir project)) \<longleftrightarrow>
     (\<exists>e \<in> set (fst (readWithin command
        (Some (case workdir of None \<Rightarrow> normalisePath project
               | Some w \<Rightarrow> resolveAgainst (normalisePath project) w)) 0)). s = bs_segment e)"
  by (auto simp: readCommand_def Let_def case_prod_beta)

lemma decideConfidence_Read:
  "decideConfidence built u = Conf_Read \<Longrightarrow>
     \<not> u \<and> (\<forall>e \<in> set built. bs_readable e \<and> cs_program (bs_segment e) \<noteq> ''eval'')"
  by (auto simp: decideConfidence_def split: if_splits)





text \<open>A wrapper other than \<open>sudo\<close> is opaque to the reader. A command that starts with \<open>env\<close>,
  \<open>xargs\<close>, \<open>nice\<close>, \<open>timeout\<close> or \<open>doas\<close> is its own effective program, so a script handed to an
  interpreter behind it is never recognised as an inline script.\<close>

theorem readCommand_wrappers:
  assumes "s \<in> set (cr_segments (readCommand command workdir project))"
    and "cs_program s \<in> set wrappers" and "cs_program s \<noteq> ''sudo''"
  shows "effectiveProgram s = cs_program s \<and> \<not> runsAnInlineScript s"
proof -
  from assms(1) obtain e where e: "s = bs_segment e" and "verb_ok e"
    using verbs.read_all(1) by (auto simp: readCommand_segments)
  moreover have "\<not> hasVerbs (cs_program s)"
    using assms(2,3) by (auto simp: wrappers_def hasVerbs_def programsWithVerbs_def)
  ultimately have verb: "cs_verb s = None" by (auto simp: verb_ok_def)
  then have "effectiveProgram s = cs_program s" by (simp add: effectiveProgram_def)
  moreover have "cs_program s \<notin> set interpreters"
    using assms(2) by (auto simp: wrappers_def interpreters_def)
  ultimately show ?thesis by (simp add: runsAnInlineScript_def)
qed

lemma readCommand_wrappers_witness:
  "\<not> runsAnInlineScript (cr_segments (readCommand ''env bash -c x'' None ''/w/p'') ! 0)"
proof -
  let ?reading = "readCommand ''env bash -c x'' None ''/w/p''"
  have one: "length (cr_segments ?reading) = 1"
    and program: "cs_program (cr_segments ?reading ! 0) = ''env''"
    by code_simp+
  have "cr_segments ?reading ! 0 \<in> set (cr_segments ?reading)"
    by (rule nth_mem) (simp only: one)
  from readCommand_wrappers [OF this] program show ?thesis by (simp add: wrappers_def)
qed

section \<open>A quoted simple command\<close>

definition simpleProgram :: "string \<Rightarrow> bool" where
  "simpleProgram p \<longleftrightarrow> \<not> isAssignment p \<and>
     p \<notin> set segmentIntroducers \<union> set blockTerminators \<union> set shellKeywords \<union> set interpreters \<union>
         set wrappers"

lemma splitSegments_words_only:
  "ws \<noteq> [] \<Longrightarrow> splitSegments (map wordToken ws) =
     [\<lparr>seg_words = map wordToken ws, seg_redirectTargets = [], seg_joinToNext = None, seg_depth = 0\<rparr>]"
proof -
  have loop: "foldl splitStep st (map wordToken ws) =
      st\<lparr>sp_open := (sp_open st)\<lparr>open_words := open_words (sp_open st) @ map wordToken ws\<rparr>\<rparr>"
    if "sp_pendingRedirect st = None" "\<not> sp_pendingInput st" for st
    using that
    by (induction ws arbitrary: st)
      (simp_all add: splitStep_def wordToken_def splitWord_def pushWord_def)
  show "ws \<noteq> [] \<Longrightarrow> ?thesis"
    using loop [of splitStart]
    by (simp add: splitSegments_def splitStart_def closeSegment_def freshOpen_def)
qed

lemma wordToken_simps [simp]:
  "tok_text (wordToken w) = w" "tok_expansions (wordToken w) = []"
  "\<not> tok_isHeredocBody (wordToken w)"
  by (simp_all add: wordToken_def)

lemma expansionsOf_quoted [simp]: "expansionsOf (map wordToken ws) = []"
  by (simp add: expansionsOf_def)

lemma quoted_operands: "t \<in> set (arg_operands (splitArguments p (map wordToken ws))) \<Longrightarrow> tok_expansions t = []"
  using splitArguments_operands [of p "map wordToken ws"] by auto

text \<open>The segment a quoted command is read as.\<close>

definition quotedSegment :: "string \<Rightarrow> string list \<Rightarrow> string \<Rightarrow> command_segment" where
  "quotedSegment program args directory =
     (let split = splitArguments program (map wordToken args) in
      draftSegment program split (cwdForSegment (Some directory) program (arg_flagValues split)) [] [])"

lemma buildSegment_quoted:
  assumes "simpleProgram program"
  shows "buildSegment (Some directory) \<lparr>seg_words = map wordToken (program # args),
      seg_redirectTargets = [], seg_joinToNext = None, seg_depth = 0\<rparr> =
    Some \<lparr>bs_segment = quotedSegment program args directory, bs_join = None,
          bs_readable = (cs_cwd (quotedSegment program args directory) \<noteq> None),
          bs_unresolvedOperand = False\<rparr>"
proof -
  have "meaningfulWords (map wordToken (program # args)) = map wordToken (program # args)"
    using assms by (simp add: simpleProgram_def)
  moreover have "\<not> runsAnInlineScript (quotedSegment program args directory)"
    using assms
    by (simp add: runsAnInlineScript_def effectiveProgram_def quotedSegment_def draftSegment_def
        simpleProgram_def Let_def)
  moreover have "expansionsOf (wordToken program # map wordToken args) = []"
    using expansionsOf_quoted [of "program # args"] by simp
  ultimately show ?thesis
    using assms quoted_operands [of _ program args]
    by (simp add: buildSegment_def simpleProgram_def quotedSegment_def Let_def draftSegment_def)
qed

lemma readWithin_quoted:
  assumes "simpleProgram program"
  shows "readWithin (join '' '' (map quoteWord (program # args))) (Some directory) depth =
    ([\<lparr>bs_segment = quotedSegment program args directory, bs_join = None,
       bs_readable = (cs_cwd (quotedSegment program args directory) \<noteq> None),
       bs_unresolvedOperand = False\<rparr>], False)"
proof -
  let ?seg = "\<lparr>seg_words = map wordToken (program # args), seg_redirectTargets = [],
    seg_joinToNext = None, seg_depth = 0\<rparr>"
  let ?e = "\<lparr>bs_segment = quotedSegment program args directory, bs_join = None,
       bs_readable = (cs_cwd (quotedSegment program args directory) \<noteq> None),
       bs_unresolvedOperand = False\<rparr>"
  have lexed: "lexResolved (join '' '' (map quoteWord (program # args))) =
      \<lparr>lex_tokens = map wordToken (program # args), lex_unterminated = False\<rparr>"
    unfolding lexResolved_def by (rule lexCommand_quotedWords)
  have "\<not> runsAnInlineScript (quotedSegment program args directory)"
    using assms
    by (simp add: runsAnInlineScript_def effectiveProgram_def quotedSegment_def draftSegment_def
        simpleProgram_def Let_def)
  then have "inlineScriptOf ?e depth = None" by (simp add: inlineScriptOf_def)
  moreover have "adjustScopes 0 [Some directory] = [Some directory]"
    by (simp add: adjustScopes_def)
  ultimately have "readSegments [Some directory] [?seg] depth = ([?e], False)"
    using buildSegment_quoted [OF assms, of directory args]
    by (simp add: readSegments.simps Let_def del: list.map)
  then show ?thesis
    by (simp add: readWithin.simps lexed Let_def splitSegments_words_only pipesFetched_def del: list.map)
qed

lemma readCommand_quotedSegment:
  assumes "simpleProgram program"
  shows "cr_segments (readCommand (join '' '' (map quoteWord (program # args))) None project)
      = [quotedSegment program args (normalisePath project)] \<and>
    (program \<noteq> ''eval'' \<and> cs_cwd (quotedSegment program args (normalisePath project)) \<noteq> None \<longrightarrow>
      cr_confidence (readCommand (join '' '' (map quoteWord (program # args))) None project) = Conf_Read)"
proof -
  have "cs_program (quotedSegment program args d) = program" for d
    by (simp add: quotedSegment_def draftSegment_def Let_def)
  then show ?thesis
    using readWithin_quoted [OF assms, of args "normalisePath project" 0]
    by (simp add: readCommand_def decideConfidence_def)
qed

text \<open>C19: reading inverts quoting. A simple command whose words are quoted for the shell, whatever
  characters its arguments hold, is read as exactly one segment: the program's flags, verb and
  operands as \<open>splitArguments\<close> gives them on the original words, in the directory of the command,
  with no redirect and nothing unresolved; and the reading is confident unless the program is
  \<open>eval\<close> or its directory is unknown.\<close>

theorem readCommand_quoted:
  assumes "simpleProgram program"
  shows "cr_segments (readCommand (join '' '' (map quoteWord (program # args))) None project)
      = [quotedSegment program args (normalisePath project)] \<and>
    (program \<noteq> ''eval'' \<and> cs_cwd (quotedSegment program args (normalisePath project)) \<noteq> None \<longrightarrow>
      cr_confidence (readCommand (join '' '' (map quoteWord (program # args))) None project) = Conf_Read)"
  using assms by (rule readCommand_quotedSegment)

lemma readCommand_quoted_witness:
  "cr_confidence (readCommand (join '' '' (map quoteWord [''rm'', ''-rf'', ''a; b $c''])) None ''/w'')
     = Conf_Read"
proof -
  have "simpleProgram ''rm''" by code_simp
  moreover have "cs_cwd (quotedSegment ''rm'' [''-rf'', ''a; b $c''] (normalisePath ''/w'')) \<noteq> None"
    by code_simp
  ultimately show ?thesis
    using readCommand_quoted [of "''rm''" "[''-rf'', ''a; b $c'']" "''/w''"] by simp
qed

section \<open>The end of flags\<close>

text \<open>Two dashes end the flags. For a program without verbs, whatever follows \<open>--\<close> is an operand, even
  what looks like a flag, and no further flag is recorded.\<close>

theorem splitArguments_end_of_flags:
  assumes "\<not> hasVerbs program" and "\<forall>t \<in> set plain. plainWord t" and "tok_text dash = ''--''"
  shows "arg_operands (splitArguments program (plain @ dash # words)) = plain @ words \<and>
    arg_flags (splitArguments program (plain @ dash # words)) = [''--'']"
  using assms
  by (simp add: splitArguments_def argumentLoop_plain argumentLoop_dashes noArguments_def
     argument_split.truncate_def)

lemma splitArguments_end_of_flags_witness:
  "map tok_text (arg_operands (splitArguments ''rm'' (map wordToken [''a'', ''--'', ''-rf'', ''b'']))) =
     [''a'', ''-rf'', ''b'']"
  using splitArguments_end_of_flags [of "''rm''" "[wordToken ''a'']" "wordToken ''--''"
      "[wordToken ''-rf'', wordToken ''b'']"]
  by (simp add: wordToken_def plainWord_def isFlagToken_def hasVerbs_def programsWithVerbs_def)

end
