(* ===== verification/Call_Outcome.thy ===== *)
theory Call_Outcome
  imports Signal_Facts Adjudicate Read_Facts
begin

text \<open>
  From the text of a command to the outcome of the call: what shell-quoted commands are read as, and
  which signals are bound to interrupt a call that no judge could be asked about.
\<close>

section \<open>Commands as deeds\<close>

text \<open>A quoted command yields one deed, sketched from its one segment.\<close>

lemma absolute_cases: "isAbsolute path \<Longrightarrow> \<exists>cs. path = separator # cs"
  by (cases path) (auto simp: isAbsolute_def)

lemma absolute_word:
  assumes "isAbsolute path"
  shows "\<not> isFlagToken path" and "resolveOperand (Some dir) (wordToken path) = normalisePath path"
proof -
  obtain cs where cs: "path = separator # cs" using absolute_cases [OF assms] by blast
  then show "\<not> isFlagToken path" by (auto simp: isFlagToken_def separator_def)
  have "\<not> isUri path" "\<not> startsWith path ''-''" "\<not> isHomeRooted path"
    using cs by (auto simp: isUri_def isHomeRooted_def separator_def is_alpha_def is_lower_def is_upper_def)
  then show "resolveOperand (Some dir) (wordToken path) = normalisePath path"
    using assms cs by (simp add: resolveOperand_def resolveAgainst_def)
qed

lemma rm_arguments:
  assumes "\<forall>p \<in> set paths. isAbsolute p"
  shows "splitArguments ''rm'' (map wordToken (''-rf'' # paths)) =
    \<lparr>arg_verb = None, arg_flags = [''-r'', ''-f''], arg_flagValues = Map.empty,
     arg_operands = map wordToken paths\<rparr>"
proof -
  have rm: "\<not> hasVerbs ''rm''" "isFlagToken ''-rf''" by code_simp+
  have "awaitsValue ''rm'' ''-rf'' = None" "decomposeFlag ''-rf'' (Some ''rm'') = [''-r'', ''-f'']"
    "equalsOf ''-rf'' = None"
    by code_simp+
  then have "argumentLoop ''rm'' (map wordToken (''-rf'' # paths)) noArguments =
    argumentLoop ''rm'' (map wordToken paths @ []) (noArguments\<lparr>arg_flags := [''-r'', ''-f'']\<rparr>)"
    using rm by (simp add: argumentLoop.simps(2) takeFlag_def noArguments_def)
  also have "\<dots> = noArguments\<lparr>arg_flags := [''-r'', ''-f''], arg_operands := map wordToken paths\<rparr>"
    using assms rm absolute_word(1)
    by (subst argumentLoop_plain) (auto simp: plainWord_def noArguments_def)
  finally show ?thesis
    by (simp add: splitArguments_def argument_split.truncate_def noArguments_def)
qed

lemma quoted_deeds:
  assumes "simpleProgram program" and "program \<noteq> ''eval''"
    and "cs_cwd (quotedSegment program args (normalisePath project)) \<noteq> None" and "declaration \<noteq> Unregistered"
  shows "deedsOf call declaration
      (Some (readCommand (join '' '' (map quoteWord (program # args))) None project)) project =
    [deedOf call (cs_cwd (quotedSegment program args (normalisePath project)))
       (sketchOf (quotedSegment program args (normalisePath project)))]"
proof -
  let ?r = "readCommand (join '' '' (map quoteWord (program # args))) None project"
  have "cr_segments ?r = [quotedSegment program args (normalisePath project)]" "cr_confidence ?r = Conf_Read"
    using readCommand_quotedSegment [OF assms(1), of args project] assms(2,3) by simp_all
  then show ?thesis using assms(4) by (simp add: deedsOf_def bashDeeds_def)
qed

text \<open>The words of a view, each with the path at its index.\<close>

lemma map_enumerate_zip: "length ys = length xs \<Longrightarrow>
  map (\<lambda>(index, raw). \<lparr>cw_raw = raw, cw_path = (case at ys index of None \<Rightarrow> raw | Some p \<Rightarrow> p)\<rparr>) (enumerate 0 xs)
   = map (\<lambda>(raw, p). \<lparr>cw_raw = raw, cw_path = p\<rparr>) (zip xs ys)"
  by (rule nth_equalityI) (auto simp: nth_enumerate_eq at_def)

text \<open>\<open>rm -rf\<close> over absolute paths removes exactly those paths.\<close>

lemma rm_sketch:
  assumes "\<forall>p \<in> set paths. isAbsolute p"
  shows "sketchOf (quotedSegment ''rm'' (''-rf'' # paths) dir) =
      sketch RemovePath (map (\<lambda>p. target RPath (normalisePath p)) paths) ''removes files''"
    and "cs_cwd (quotedSegment ''rm'' (''-rf'' # paths) dir) = Some dir"
proof -
  let ?s = "quotedSegment ''rm'' (''-rf'' # paths) dir"
  have seg: "?s = \<lparr>cs_program = ''rm'', cs_verb = None, cs_flags = [''-r'', ''-f''],
     cs_operands = map normalisePath paths, cs_rawOperands = paths, cs_cwd = Some dir, cs_redirectsInto = [],
     cs_pipesIntoInterpreter = False, cs_unresolvedExpansions = []\<rparr>"
    using assms absolute_word(2) rm_arguments [OF assms]
    by (simp add: quotedSegment_def draftSegment_def Let_def cwdForSegment_def comp_def)
  then show "cs_cwd ?s = Some dir" by simp
  have wr: "''rm'' \<notin> set wrappers" by code_simp
  have view: "viewOf ?s = \<lparr>v_program = ''rm'', v_words = map (\<lambda>p. \<lparr>cw_raw = p, cw_path = normalisePath p\<rparr>) paths,
     v_flags = {''-r'', ''-f''}, v_cwd = Some dir, v_redirectsInto = []\<rparr>"
    by (simp add: seg viewOf_def wordsOfSegment_def unwrap_plain [OF wr] map_enumerate_zip zip_map2 zip_same_conv_map comp_def)
  have "firstDraft VERB_TABLES (viewOf ?s) = Some (sketch RemovePath (map (\<lambda>p. target RPath (normalisePath p)) paths) ''removes files'')"
    by (simp add: view VERB_TABLES_def gitVerbs_def filesystemVerbs_removing removingPrograms_def pathTargets_def comp_def)
  then show "sketchOf ?s = sketch RemovePath (map (\<lambda>p. target RPath (normalisePath p)) paths) ''removes files''"
    by (simp add: sketchOf_eq withRedirects_def redirectTargets_def view)
qed

lemma push_arguments:
  assumes "\<not> isFlagToken remoteName" and "\<not> isFlagToken ref"
  shows "splitArguments ''git'' (map wordToken [''push'', ''--force'', remoteName, ref]) =
    \<lparr>arg_verb = Some ''push'', arg_flags = [''--force''], arg_flagValues = Map.empty,
     arg_operands = map wordToken [remoteName, ref]\<rparr>"
proof -
  have git: "hasVerbs ''git''" "\<not> isFlagToken ''push''" "isFlagToken ''--force''" by code_simp+
  have "awaitsValue ''git'' ''--force'' = None" "decomposeFlag ''--force'' (Some ''git'') = [''--force'']"
    "equalsOf ''--force'' = None"
    by code_simp+
  with git assms show ?thesis
    by (simp add: splitArguments_def argumentLoop.simps(2) takeFlag_def takeOperand_def noArguments_def
        argument_split.truncate_def)
qed

text \<open>\<open>git push --force\<close> overwrites exactly the ref it names.\<close>

lemma push_sketch:
  assumes "\<not> isFlagToken remoteName" and "\<not> isFlagToken ref"
  shows "sketchOf (quotedSegment ''git'' [''push'', ''--force'', remoteName, ref] dir) =
      sketch ForcePush [target RRemote remoteName, target RGitRef ref] ''overwrites a branch on the remote''"
    and "cs_cwd (quotedSegment ''git'' [''push'', ''--force'', remoteName, ref] dir) = Some dir"
proof -
  let ?s = "quotedSegment ''git'' [''push'', ''--force'', remoteName, ref] dir"
  let ?o = "\<lambda>w. resolveOperand (Some dir) (wordToken w)"
  have seg: "?s = \<lparr>cs_program = ''git'', cs_verb = Some ''push'', cs_flags = [''--force''],
     cs_operands = [?o remoteName, ?o ref], cs_rawOperands = [remoteName, ref], cs_cwd = Some dir,
     cs_redirectsInto = [], cs_pipesIntoInterpreter = False, cs_unresolvedExpansions = []\<rparr>"
    using push_arguments [OF assms]
    by (simp add: quotedSegment_def draftSegment_def Let_def cwdForSegment_def)
  then show "cs_cwd ?s = Some dir" by simp
  have wr: "''git'' \<notin> set wrappers" by code_simp
  have view: "viewOf ?s = \<lparr>v_program = ''git'',
     v_words = [\<lparr>cw_raw = ''push'', cw_path = ''push''\<rparr>, \<lparr>cw_raw = remoteName, cw_path = ?o remoteName\<rparr>,
       \<lparr>cw_raw = ref, cw_path = ?o ref\<rparr>],
     v_flags = {''--force''}, v_cwd = Some dir, v_redirectsInto = []\<rparr>"
    by (simp add: seg viewOf_def wordsOfSegment_def unwrap_plain [OF wr] at_def)
  have "''push'' \<notin> set gitReadOnlyVerbs" "gitHandlers ''push'' = Some push"
    by (code_simp, simp add: gitHandlers_def)
  then have "gitVerbs (viewOf ?s) = Some (sketch ForcePush [target RRemote remoteName, target RGitRef ref]
      ''overwrites a branch on the remote'')"
    by (simp add: view gitVerbs_def verbOf_def restOf_def push_def pushTargets_def anyFlag_def hasFlag_def
        forceFlags_def refTargets_def)
  then have "firstDraft VERB_TABLES (viewOf ?s) = Some (sketch ForcePush
      [target RRemote remoteName, target RGitRef ref] ''overwrites a branch on the remote'')"
    by (simp add: VERB_TABLES_def)
  then show "sketchOf ?s = sketch ForcePush [target RRemote remoteName, target RGitRef ref]
      ''overwrites a branch on the remote''"
    by (simp add: sketchOf_eq withRedirects_def redirectTargets_def view)
qed

section \<open>Signals that interrupt\<close>

lemma asked_unreached:
  assumes "s \<in> set (signalsFor evidence None)" and "rs_severity s = Grave" and "\<not> rs_unverified s"
    and "rs_dimension s \<notin> set (cp_muted policy)" and "grantCovering s (ce_grants evidence) = None"
    and "asks < cp_asksPerThread policy" and "cp_mode policy \<noteq> Off"
  shows "wouldAsk (triageOf evidence (signalsFor evidence None) policy asks) (Some (Unreachable fault)) policy"
proof -
  let ?tr = "triageOf evidence (signalsFor evidence None) policy asks"
  have "s \<in> set (tr_standing ?tr)"
    using assms by (simp add: triageOf_standing concerns_iff severity_bounds)
  moreover from this have "tr_triage ?tr = Consult"
    using assms(6) by (auto simp: triageOf_consults)
  ultimately show ?thesis
    using assms by (auto simp: wouldAsk_def worthAskingUnreached_def reachesSeverity_iff severity_bounds)
qed

lemma probe_raised:
  "s \<in> set (irreversibilityProbe evidence) \<Longrightarrow> s \<in> set (raisedBy evidence RISK_PROBES)"
  "s \<in> set (reachProbe evidence) \<Longrightarrow> s \<in> set (raisedBy evidence RISK_PROBES)"
  "s \<in> set (contentionProbe evidence) \<Longrightarrow> s \<in> set (raisedBy evidence RISK_PROBES)"
  "s \<in> set (sharedHistoryProbe evidence) \<Longrightarrow> s \<in> set (raisedBy evidence RISK_PROBES)"
  "s \<in> set (exposureProbe evidence) \<Longrightarrow> s \<in> set (raisedBy evidence RISK_PROBES)"
  "s \<in> set (blastProbe evidence) \<Longrightarrow> s \<in> set (raisedBy evidence RISK_PROBES)"
  by (simp_all add: raisedBy_RISK_PROBES)

text \<open>A grave catalogued signal that is raised, verified, not muted and not granted refuses the call
  when no judge can be reached, as long as the thread has interruptions left.\<close>

lemma refused_unreached:
  assumes "s \<in> set (raisedBy evidence RISK_PROBES)"
    and "rs_id s \<in> set ALWAYS_GRAVE" and "rs_id s \<notin> set NEVER_VERIFIED"
    and granted: "rs_id s \<notin> set NEVER_GRANTABLE \<Longrightarrow> grantCovering s (ce_grants evidence) = None"
    and "rs_dimension s \<notin> set (cp_muted policy)"
    and "asks < cp_asksPerThread policy" and "cp_mode policy = Nudge"
  shows "decisionOf (adjudicate call (triageOf evidence (signalsFor evidence None) policy asks)
      (Some (Unreachable fault)) policy elapsedMs) = BT_Deny"
proof -
  obtain t where t: "t \<in> set (signalsFor evidence None)" "rs_id t = rs_id s"
      "rs_subject t = rs_subject s" "rs_dimension t = rs_dimension s"
    using raised_kept [OF assms(1)] by blast
  have cat: "catalogued t" "catalogued s"
    using signals_catalogued [OF t(1)] raised_catalogued [OF assms(1)] .
  then have "grantCovering t (ce_grants evidence) = None"
    using granted t(2-4) unfolding grantCovering_None catalogued_def entry_def by auto
  moreover have "rs_severity t = Grave" "\<not> rs_unverified t"
    using cat assms(2,3) t(2) by (simp_all add: catalogued_def entry_def)
  ultimately have "wouldAsk (triageOf evidence (signalsFor evidence None) policy asks)
      (Some (Unreachable fault)) policy"
    using t(1,4) assms(5-7) by (intro asked_unreached) simp_all
  then show ?thesis using assms(7) by (simp add: adjudicate_decision)
qed

end
