(* ===== verification/Projections.thy ===== *)
theory Projections
  imports Events
begin

text \<open>
  \<open>events/projections.ts\<close>, \<open>ownership.ts\<close>, \<open>nudges.ts\<close>, \<open>tree-mutations.ts\<close>: what the log says is
  still open. \<open>pendingCalls\<close> keeps a map from call ids to stacks of open calls and a set of settled
  events; an event is identified by its position in the log. The reference definition \<open>unsettled\<close>
  matches calls and settlements the way brackets match, one call id at a time.
\<close>

section \<open>Definitions\<close>

record pending_call =
  pc_callId :: string
  pc_name :: string
  pc_input :: "json option"
  pc_ordinal :: nat
  pc_runId :: string
  pc_threadId :: string

text \<open>\<open>eventsOfType\<close>, with the type as the discriminator of its constructor.\<close>

definition eventsOfType :: "(event_body \<Rightarrow> bool) \<Rightarrow> event list \<Rightarrow> event list" where
  "eventsOfType is_type events = filter (\<lambda>event. is_type (ev_body event)) events"

definition pendingCallOf :: "event \<Rightarrow> pending_call" where
  "pendingCallOf event =
     \<lparr>pc_callId = eb_callId (ev_body event), pc_name = eb_name (ev_body event),
      pc_input = eb_input (ev_body event), pc_ordinal = eb_ordinal (ev_body event),
      pc_runId = ev_runId event, pc_threadId = ev_threadId event\<rparr>"

record open_calls =
  oc_open :: "string \<Rightarrow> nat list"
  oc_settled :: "nat set"

definition settleStep :: "open_calls \<Rightarrow> nat \<times> event \<Rightarrow> open_calls" where
  "settleStep st = (\<lambda>(position, event).
     (let callId = eb_callId (ev_body event) in
      if is_ToolCalled (ev_body event) then
        st\<lparr>oc_open := (oc_open st)(callId := oc_open st callId @ [position])\<rparr>
      else if \<not> settlesCall (ev_body event) then st
      else if oc_open st callId = [] then st
      else st\<lparr>oc_open := (oc_open st)(callId := butlast (oc_open st callId)),
              oc_settled := insert (last (oc_open st callId)) (oc_settled st)\<rparr>))"

definition noCalls :: open_calls where
  "noCalls = \<lparr>oc_open = (\<lambda>_. []), oc_settled = {}\<rparr>"

definition pendingCalls :: "event list \<Rightarrow> pending_call list" where
  "pendingCalls events =
     (let st = foldl settleStep noCalls (enumerate 0 events) in
      map (pendingCallOf \<circ> snd)
        (filter (\<lambda>(position, event). is_ToolCalled (ev_body event) \<and> position \<notin> oc_settled st)
          (enumerate 0 events)))"

definition answerStep :: "string \<Rightarrow> event option \<Rightarrow> event \<Rightarrow> event option" where
  "answerStep callId answered event =
     (if is_ToolCalled (ev_body event) \<and> eb_callId (ev_body event) = callId then None
      else if is_ApprovalAnswered (ev_body event) \<and> eb_callId (ev_body event) = callId then Some event
      else answered)"

definition answeredApproval :: "event list \<Rightarrow> string \<Rightarrow> event option" where
  "answeredApproval events callId = foldl (answerStep callId) None events"

definition approvalWrite :: "event \<Rightarrow> (string, nat) map_write" where
  "approvalWrite event =
     (if is_ApprovalRequested (ev_body event) then Put (eb_callId (ev_body event)) (ev_seq event)
      else if is_ApprovalAnswered (ev_body event) then Del (eb_callId (ev_body event))
      else Keep)"

definition earlier :: "(string \<times> nat) option \<Rightarrow> string \<times> nat \<Rightarrow> (string \<times> nat) option" where
  "earlier earliest entry =
     (case earliest of
        None \<Rightarrow> Some entry
      | Some e \<Rightarrow> if snd entry < snd e then Some entry else Some e)"

definition unansweredApprovals :: "event list \<Rightarrow> (string \<times> nat) list" where
  "unansweredApprovals events = js_map.run (map approvalWrite events)"

definition outstandingApproval :: "event list \<Rightarrow> string option" where
  "outstandingApproval events =
     map_option fst (foldl earlier None (unansweredApprovals events))"

definition inputForCall :: "event list \<Rightarrow> string \<Rightarrow> json option" where
  "inputForCall events callId =
     (let answer = answeredApproval events callId;
          called = Option.bind
            (findLast (\<lambda>event. eb_callId (ev_body event) = callId) (eventsOfType is_ToolCalled events))
            (\<lambda>event. eb_input (ev_body event))
      in case answer of
           None \<Rightarrow> called
         | Some a \<Rightarrow>
             if eb_decision (ev_body a) = Allow \<and> eb_editedInput (ev_body a) \<noteq> None
             then eb_editedInput (ev_body a) else called)"

definition takesTurn :: "event_body \<Rightarrow> bool" where
  "takesTurn body \<longleftrightarrow>
     is_UserSaid body \<or> is_AssistantSaid body \<or> is_ToolResult body \<or> is_ToolDenied body \<or>
     is_NudgeSent body \<or> is_BackgroundShellEnded body \<or> is_BackgroundShellAwaitingInput body \<or>
     is_BackgroundShellMatched body \<or> is_BackgroundShellStillRunning body \<or>
     is_ServiceEnded body \<or> is_AgentEnded body"

definition awaitsReply :: "event list \<Rightarrow> bool" where
  "awaitsReply events \<longleftrightarrow>
     (let turns = filter (\<lambda>event. takesTurn (ev_body event)) events in
      turns \<noteq> [] \<and> \<not> is_AssistantSaid (ev_body (last turns)))"

definition rowsOwnedBy :: "event list \<Rightarrow> string \<Rightarrow> event list" where
  "rowsOwnedBy events threadId = filter (\<lambda>event. ev_threadId event = threadId) events"

definition treeMutationsOf :: "event list \<Rightarrow> (string \<Rightarrow> e_tool_effect option) \<Rightarrow> nat" where
  "treeMutationsOf events effects =
     length (filter (\<lambda>settled. effects (eb_name (ev_body settled)) \<noteq> Some EffRead)
       (eventsOfType is_ToolResult events))"

text \<open>The loop of \<open>liveNudges\<close> runs from the last event to the first; \<open>live\<close> is reversed at its end.\<close>

fun liveNudgesFrom :: "nat \<Rightarrow> event list \<Rightarrow> event list \<Rightarrow> event list" where
  "liveNudgesFrom stepsSince live [] = rev live"
| "liveNudgesFrom stepsSince live (event # earlierOnes) =
     (if is_AssistantSaid (ev_body event) then liveNudgesFrom (stepsSince + 1) live earlierOnes
      else if is_NudgeSent (ev_body event) \<and> stepsSince < eb_lifetimeSteps (ev_body event)
      then liveNudgesFrom stepsSince (live @ [event]) earlierOnes
      else liveNudgesFrom stepsSince live earlierOnes)"

definition liveNudges :: "event list \<Rightarrow> event list" where
  "liveNudges events = liveNudgesFrom 0 [] (rev events)"

section \<open>Which calls are pending\<close>

text \<open>The reference: reading on from a call, a settlement of its id settles the latest open call with
  that id; \<open>later\<close> counts the calls with the id that were opened since and are still open.\<close>

fun settledBy :: "string \<Rightarrow> nat \<Rightarrow> event list \<Rightarrow> bool" where
  "settledBy callId later [] \<longleftrightarrow> False"
| "settledBy callId later (event # events) \<longleftrightarrow>
     (if is_ToolCalled (ev_body event) \<and> eb_callId (ev_body event) = callId
      then settledBy callId (later + 1) events
      else if settlesCall (ev_body event) \<and> eb_callId (ev_body event) = callId
      then later = 0 \<or> settledBy callId (later - 1) events
      else settledBy callId later events)"

fun unsettled :: "event list \<Rightarrow> event list" where
  "unsettled [] = []"
| "unsettled (event # events) =
     (if is_ToolCalled (ev_body event) \<and> \<not> settledBy (eb_callId (ev_body event)) 0 events
      then event # unsettled events else unsettled events)"

text \<open>Positions held by a state lie below the next one.\<close>

definition below :: "open_calls \<Rightarrow> nat \<Rightarrow> bool" where
  "below st n \<longleftrightarrow> (\<forall>k. \<forall>p \<in> set (oc_open st k). p < n) \<and> (\<forall>p \<in> oc_settled st. p < n)"

lemma not_call_and_settlement: "is_ToolCalled b \<Longrightarrow> \<not> settlesCall b"
  by (cases b) (auto simp: settlesCall_def)

lemma below_step:
  assumes "below st n"
  shows "below (settleStep st (n, event)) (Suc n)"
proof -
  let ?stack = "oc_open st (eb_callId (ev_body event))"
  have "last ?stack < n" if "?stack \<noteq> []"
    using that last_in_set [of ?stack] assms unfolding below_def by blast
  with assms show ?thesis
    unfolding below_def settleStep_def Let_def
    by (auto simp: less_Suc_eq dest: in_set_butlastD)
qed

lemma settleStep_other [simp]:
  "\<not> is_ToolCalled (ev_body event) \<Longrightarrow> \<not> settlesCall (ev_body event) \<Longrightarrow> settleStep st (n, event) = st"
  by (simp add: settleStep_def Let_def)

lemma settled_stays: "p \<in> oc_settled st \<Longrightarrow> p \<in> oc_settled (foldl settleStep st es)"
proof (induction es arbitrary: st)
  case (Cons e es)
  have "p \<in> oc_settled (settleStep st e)"
    using Cons.prems by (cases e) (simp add: settleStep_def Let_def)
  with Cons.IH show ?case by simp
qed simp

text \<open>A call at depth \<open>length post\<close> of the stack of its id is settled exactly as \<open>settledBy\<close> says.\<close>

lemma settled_from_stack:
  assumes "oc_open st k = pre @ p # post" and "p \<notin> set pre \<union> set post"
    and "\<forall>k'. k' \<noteq> k \<longrightarrow> p \<notin> set (oc_open st k')" and "p \<notin> oc_settled st" and "p < n"
  shows "p \<in> oc_settled (foldl settleStep st (enumerate n events)) \<longleftrightarrow>
    settledBy k (length post) events"
  using assms
proof (induction events arbitrary: st post n)
  case (Cons event events)
  let ?id = "eb_callId (ev_body event)"
  let ?st = "settleStep st (n, event)"
  show ?case
  proof (cases "is_ToolCalled (ev_body event)")
    case call: True
    show ?thesis
    proof (cases "?id = k")
      case True
      have "oc_open ?st k = pre @ p # (post @ [n])" and "oc_settled ?st = oc_settled st"
        and "\<forall>k'. k' \<noteq> k \<longrightarrow> oc_open ?st k' = oc_open st k'"
        using call True Cons.prems(1) by (simp_all add: settleStep_def Let_def)
      then show ?thesis using Cons.IH [of ?st "post @ [n]" "Suc n"] Cons.prems call True by simp
    next
      case False
      have "oc_open ?st k = pre @ p # post" and "oc_settled ?st = oc_settled st"
        and "\<forall>k'. k' \<noteq> k \<longrightarrow> set (oc_open ?st k') \<subseteq> insert n (set (oc_open st k'))"
        using call False Cons.prems(1) by (auto simp: settleStep_def Let_def)
      then show ?thesis
        using Cons.IH [of ?st post "Suc n"] Cons.prems call False not_call_and_settlement [OF call]
        by auto
    qed
  next
    case no_call: False
    show ?thesis
    proof (cases "settlesCall (ev_body event) \<and> oc_open st ?id \<noteq> []")
      case False
      then have "?st = st" and "\<not> (settlesCall (ev_body event) \<and> ?id = k)"
        using no_call Cons.prems(1) by (auto simp: settleStep_def Let_def)
      then show ?thesis using Cons.IH [of st post "Suc n"] Cons.prems no_call by auto
    next
      case settles: True
      show ?thesis
      proof (cases "?id = k")
        case False
        have "last (oc_open st ?id) \<in> set (oc_open st ?id)" using settles by simp
        with False have "last (oc_open st ?id) \<noteq> p" using Cons.prems(3) by metis
        then have "p \<notin> oc_settled ?st" and "oc_open ?st k = pre @ p # post"
          and "\<forall>k'. k' \<noteq> k \<longrightarrow> p \<notin> set (oc_open ?st k')"
          using settles no_call False Cons.prems
          by (auto simp: settleStep_def Let_def dest: in_set_butlastD)
        then show ?thesis
          using Cons.IH [of ?st post "Suc n"] Cons.prems no_call settles False by simp
      next
        case same: True
        show ?thesis
        proof (cases post rule: rev_cases)
          case Nil
          then have "p \<in> oc_settled ?st"
            using settles no_call same Cons.prems(1) by (simp add: settleStep_def Let_def)
          then show ?thesis using settled_stays Nil no_call settles same by simp
        next
          case (snoc rest final)
          then have "final \<noteq> p" using Cons.prems(2) by auto
          with snoc have "p \<notin> oc_settled ?st" and "oc_open ?st k = pre @ p # rest"
            and "\<forall>k'. k' \<noteq> k \<longrightarrow> oc_open ?st k' = oc_open st k'"
            using settles no_call same Cons.prems
            by (auto simp: settleStep_def Let_def butlast_append)
          then show ?thesis
            using Cons.IH [of ?st rest "Suc n"] Cons.prems snoc no_call settles same by simp
        qed
      qed
    qed
  qed
qed simp

lemma pending_from:
  assumes "below st n"
  shows "map snd (filter (\<lambda>(position, event). is_ToolCalled (ev_body event) \<and>
      position \<notin> oc_settled (foldl settleStep st (enumerate n events))) (enumerate n events))
    = unsettled events"
  using assms
proof (induction events arbitrary: st n)
  case (Cons event events)
  let ?k = "eb_callId (ev_body event)"
  let ?st = "settleStep st (n, event)"
  have "n \<in> oc_settled (foldl settleStep ?st (enumerate (Suc n) events)) \<longleftrightarrow> settledBy ?k 0 events"
    if call: "is_ToolCalled (ev_body event)"
  proof -
    have "oc_open ?st ?k = oc_open st ?k @ n # []" and "oc_settled ?st = oc_settled st"
      and "\<forall>k'. k' \<noteq> ?k \<longrightarrow> oc_open ?st k' = oc_open st k'"
      using call by (simp_all add: settleStep_def Let_def)
    then show ?thesis
      using settled_from_stack [of ?st ?k "oc_open st ?k" n "[]" "Suc n" events] Cons.prems
      unfolding below_def by fastforce
  qed
  with Cons.IH [OF below_step [OF Cons.prems, of event]] show ?case by auto
qed simp

lemma below_noCalls: "below noCalls 0"
  by (simp add: below_def noCalls_def)

lemma pendingCalls_eq: "pendingCalls events = map pendingCallOf (unsettled events)"
proof -
  have "pendingCalls events = map pendingCallOf (map snd (filter (\<lambda>(position, event).
      is_ToolCalled (ev_body event) \<and>
      position \<notin> oc_settled (foldl settleStep noCalls (enumerate 0 events))) (enumerate 0 events)))"
    by (simp add: pendingCalls_def Let_def)
  then show ?thesis by (simp only: pending_from [OF below_noCalls])
qed

text \<open>C21: the loop over stacks and sets finds exactly the calls that bracket matching leaves open: a
  tool call is pending if and only if no later result or denial closes it, where each result or denial
  closes the latest open call carrying its id.\<close>

theorem pendingCalls_matching: "pendingCalls events = map pendingCallOf (unsettled events)"
  by (rule pendingCalls_eq)

lemma pendingCalls_Nil_iff: "pendingCalls events = [] \<longleftrightarrow> unsettled events = []"
  by (simp add: pendingCalls_eq)

section \<open>Which approval is outstanding\<close>

lemma earlier_simps [simp]:
  "earlier None entry = Some entry"
  "earlier (Some e) entry = Some (if snd entry < snd e then entry else e)"
  by (simp_all add: earlier_def)

lemma earlier_least:
  "foldl earlier (Some e) entries = Some found \<Longrightarrow>
     found \<in> set (e # entries) \<and> (\<forall>entry \<in> set (e # entries). snd found \<le> snd entry)"
proof (induction entries arbitrary: e)
  case (Cons entry entries)
  let ?e = "if snd entry < snd e then entry else e"
  from Cons.prems have "foldl earlier (Some ?e) entries = Some found" by simp
  from Cons.IH [OF this] show ?case by (auto split: if_split_asm)
qed simp

lemma earlier_total: "foldl earlier (Some e) entries \<noteq> None"
  by (induction entries arbitrary: e) simp_all

lemma foldl_earlier_None: "foldl earlier None entries = None \<longleftrightarrow> entries = []"
  by (cases entries) (simp_all add: earlier_total)

lemma foldl_earlier_Some:
  "foldl earlier None entries = Some found \<Longrightarrow>
     found \<in> set entries \<and> (\<forall>entry \<in> set entries. snd found \<le> snd entry)"
  using earlier_least [of "hd entries" "tl entries" found] by (cases entries) simp_all

text \<open>The last event about the approval of a call asks for it: it is unanswered, since \<open>seq\<close>.\<close>

definition asksSince :: "event list \<Rightarrow> string \<Rightarrow> nat \<Rightarrow> bool" where
  "asksSince events callId seq \<longleftrightarrow>
     (\<exists>event. findLast (\<lambda>e. (is_ApprovalRequested (ev_body e) \<or> is_ApprovalAnswered (ev_body e)) \<and>
          eb_callId (ev_body e) = callId) events = Some event \<and>
        is_ApprovalRequested (ev_body event) \<and> ev_seq event = seq)"

lemma approvalWrite_Put: "approvalWrite event = Put k seq \<longleftrightarrow>
    is_ApprovalRequested (ev_body event) \<and> k = eb_callId (ev_body event) \<and> seq = ev_seq event"
  by (cases "ev_body event") (auto simp: approvalWrite_def)

lemma approvalWrite_writes: "writesTo k (approvalWrite event) \<longleftrightarrow>
    (is_ApprovalRequested (ev_body event) \<or> is_ApprovalAnswered (ev_body event)) \<and>
    eb_callId (ev_body event) = k"
  by (cases "ev_body event") (auto simp: approvalWrite_def)

lemma unanswered_iff: "(k, seq) \<in> set (unansweredApprovals events) \<longleftrightarrow> asksSince events k seq"
proof -
  have key: "k = eb_callId (ev_body event)"
    if "findLast (writesTo k \<circ> approvalWrite) events = Some event" for event
    using findLast_Some [OF that] by (simp add: approvalWrite_writes)
  have "(k, seq) \<in> set (unansweredApprovals events) \<longleftrightarrow>
      findLast (writesTo k) (map approvalWrite events) = Some (Put k seq)"
    by (simp add: unansweredApprovals_def js_map.run_entries)
  also have "\<dots> \<longleftrightarrow> (\<exists>event. findLast (writesTo k \<circ> approvalWrite) events = Some event \<and>
      is_ApprovalRequested (ev_body event) \<and> seq = ev_seq event)"
    by (auto simp: findLast_map approvalWrite_Put dest: key)
  finally show ?thesis by (auto simp: asksSince_def approvalWrite_writes comp_def)
qed

lemma outstandingApproval_None:
  "outstandingApproval events = None \<longleftrightarrow> (\<forall>k seq. \<not> asksSince events k seq)"
proof -
  have "outstandingApproval events = None \<longleftrightarrow> unansweredApprovals events = []"
    by (simp add: outstandingApproval_def foldl_earlier_None)
  also have "\<dots> \<longleftrightarrow> (\<forall>k seq. (k, seq) \<notin> set (unansweredApprovals events))"
    by (cases "unansweredApprovals events") auto
  finally show ?thesis by (simp add: unanswered_iff)
qed

text \<open>C32: the approval the thread waits for is the one asked for first among those whose last word is a
  question; and the thread waits for none exactly when no call's last word is a question.\<close>

theorem outstandingApproval_earliest:
  "(case outstandingApproval events of
      None \<Rightarrow> (\<forall>k seq. \<not> asksSince events k seq)
    | Some callId \<Rightarrow> (\<exists>seq. asksSince events callId seq \<and>
        \<not> (\<exists>k seq'. asksSince events k seq' \<and> seq' < seq)))"
proof (cases "outstandingApproval events")
  case None
  then show ?thesis using outstandingApproval_None [of events] by simp
next
  case (Some callId)
  then obtain seq where found: "foldl earlier None (unansweredApprovals events) = Some (callId, seq)"
    by (auto simp: outstandingApproval_def)
  from foldl_earlier_Some [OF this] show ?thesis
    unfolding Some by (force simp: unanswered_iff [symmetric] not_less)
qed

section \<open>Which nudges are live\<close>

text \<open>The reference: a nudge lives while fewer assistant messages than its lifetime follow it; \<open>k\<close>
  counts the messages behind the list.\<close>

fun liveWithin :: "nat \<Rightarrow> event list \<Rightarrow> event list" where
  "liveWithin k [] = []"
| "liveWithin k (event # events) =
     (if is_NudgeSent (ev_body event) \<and>
         length (eventsOfType is_AssistantSaid events) + k < eb_lifetimeSteps (ev_body event)
      then event # liveWithin k events else liveWithin k events)"

lemma liveWithin_snoc:
  "liveWithin k (events @ [event]) =
     (if is_AssistantSaid (ev_body event) then liveWithin (Suc k) events
      else liveWithin k events @
        (if is_NudgeSent (ev_body event) \<and> k < eb_lifetimeSteps (ev_body event) then [event] else []))"
proof -
  have "is_AssistantSaid b \<Longrightarrow> \<not> is_NudgeSent b" for b by (cases b) auto
  then show ?thesis by (induction events) (auto simp: eventsOfType_def)
qed

lemma liveNudgesFrom_eq: "liveNudgesFrom k live (rev events) = liveWithin k events @ rev live"
  by (induction events arbitrary: k live rule: rev_induct) (auto simp: liveWithin_snoc)

text \<open>A nudge is live exactly while fewer assistant messages than its lifetime have followed it,
  and live nudges keep the order of the log.\<close>

theorem liveNudges_lifetime: "liveNudges events = liveWithin 0 events"
  by (simp add: liveNudges_def liveNudgesFrom_eq)

section \<open>Appending to the log\<close>

lemma awaitsReply_snoc:
  "awaitsReply (events @ [event]) \<longleftrightarrow>
     (if takesTurn (ev_body event) then \<not> is_AssistantSaid (ev_body event) else awaitsReply events)"
  by (simp add: awaitsReply_def Let_def)

lemma answeredApproval_snoc:
  "answeredApproval (events @ [event]) callId = answerStep callId (answeredApproval events callId) event"
  by (simp add: answeredApproval_def)

end
