(* ===== verification/Watermark.thy ===== *)
theory Watermark
  imports Projections
begin

text \<open>
  \<open>compaction/watermark.ts\<close>: how far the summaries of a thread speak for its rows. The reductions over
  watermarks are folds.
\<close>

definition compactionWatermarks :: "event list \<Rightarrow> event list" where
  "compactionWatermarks events = eventsOfType is_HistoryCompacted events"

definition deeper :: "event option \<Rightarrow> event \<Rightarrow> event option" where
  "deeper deepest event =
     (case deepest of
        None \<Rightarrow> Some event
      | Some d \<Rightarrow>
          if eb_throughSeq (ev_body event) > eb_throughSeq (ev_body d) then Some event else Some d)"

definition compactionWatermark :: "event list \<Rightarrow> event option" where
  "compactionWatermark events = foldl deeper None (compactionWatermarks events)"

definition rowsSurviveBelow :: "event list \<Rightarrow> event \<Rightarrow> bool" where
  "rowsSurviveBelow events watermark \<longleftrightarrow>
     (\<exists>event \<in> set events.
        ev_seq event \<ge> eb_fromSeq (ev_body watermark) \<and>
        ev_seq event \<le> eb_throughSeq (ev_body watermark) \<and>
        ev_seq event \<noteq> ev_seq watermark \<and> \<not> survivesSummary (ev_body event))"

definition prefixWatermarks :: "event list \<Rightarrow> event list" where
  "prefixWatermarks events =
     filter (\<lambda>event. eb_anchor (ev_body event) = Prefix) (compactionWatermarks events)"

definition furthest :: "event list \<Rightarrow> nat" where
  "furthest watermarks =
     foldl (\<lambda>deepest event. max deepest (eb_throughSeq (ev_body event))) 0 watermarks"

definition compactedThrough :: "event list \<Rightarrow> nat" where
  "compactedThrough events = furthest (prefixWatermarks events)"

definition replacedThrough :: "event list \<Rightarrow> nat" where
  "replacedThrough events =
     furthest (filter (\<lambda>event. \<not> rowsSurviveBelow events event) (prefixWatermarks events))"

definition replacedRanges :: "event list \<Rightarrow> (nat \<times> nat) list" where
  "replacedRanges events =
     map (\<lambda>w. (eb_fromSeq (ev_body w), eb_throughSeq (ev_body w)))
       (filter (\<lambda>w. \<not> rowsSurviveBelow events w) (compactionWatermarks events))"

text \<open>A furthest sequence is the least bound of the sequences it was taken over.\<close>

lemma furthest_le: "furthest ws \<le> n \<longleftrightarrow> (\<forall>w \<in> set ws. eb_throughSeq (ev_body w) \<le> n)"
proof -
  have "foldl (\<lambda>d w. max d (eb_throughSeq (ev_body w))) k ws \<le> n \<longleftrightarrow>
      k \<le> n \<and> (\<forall>w \<in> set ws. eb_throughSeq (ev_body w) \<le> n)" for k
    by (induction ws arbitrary: k) auto
  then show ?thesis by (simp add: furthest_def)
qed

text \<open>What was genuinely replaced was compacted.\<close>

lemma replacedThrough_le: "replacedThrough events \<le> compactedThrough events"
  using furthest_le [of "prefixWatermarks events" "compactedThrough events"]
  by (auto simp: replacedThrough_def compactedThrough_def furthest_le)

text \<open>The lowest sequence a rewind may name: above every prefix summary whose rows are gone.\<close>

lemma replacedThrough_bound:
  "replacedThrough events \<le> n \<longleftrightarrow>
     (\<forall>w \<in> set events. is_HistoryCompacted (ev_body w) \<and> eb_anchor (ev_body w) = Prefix \<and>
        \<not> rowsSurviveBelow events w \<longrightarrow> eb_throughSeq (ev_body w) \<le> n)"
  by (auto simp: replacedThrough_def furthest_le prefixWatermarks_def compactionWatermarks_def
      eventsOfType_def)

end
