(* ===== verification/Roster.thy ===== *)
theory Roster
  imports Projections
begin

text \<open>\<open>agents/roster.ts\<close>: the sub-agents a thread has spawned and how they ended.\<close>

section \<open>Definitions\<close>

record rostered_agent =
  ag_agentId :: string
  ag_agentType :: string
  ag_intent :: string
  ag_status :: e_agent_status
  ag_turns :: nat
  ag_toolCalls :: nat
  ag_prose :: string
  ag_killedBy :: "e_killed_by option"
  ag_spawnedAt :: "string option"
  ag_endedAt :: "string option"

text \<open>The body of the loop over the owned rows, with the map \<open>held\<close> as its state.\<close>

definition rosterStep ::
  "(string \<times> rostered_agent) list \<Rightarrow> event \<Rightarrow> (string \<times> rostered_agent) list" where
  "rosterStep held event =
     (let body = ev_body event in
      if is_AgentSpawned body then
        map_put (eb_agentId body)
          \<lparr>ag_agentId = eb_agentId body, ag_agentType = eb_agentType body,
           ag_intent = eb_intent body, ag_status = AgentStopped, ag_turns = 0, ag_toolCalls = 0,
           ag_prose = '''', ag_killedBy = None, ag_spawnedAt = Some (ev_at event),
           ag_endedAt = None\<rparr> held
      else if \<not> is_AgentEnded body then held
      else map_put (eb_agentId body)
        \<lparr>ag_agentId = eb_agentId body, ag_agentType = eb_agentType body,
         ag_intent = eb_intent body,
         ag_status = (if eb_agentStatus body = AgentRunning then AgentStopped
                      else eb_agentStatus body),
         ag_turns = eb_turns body, ag_toolCalls = eb_toolCalls body, ag_prose = eb_prose body,
         ag_killedBy = eb_killedBy body,
         ag_spawnedAt = Option.bind (map_of held (eb_agentId body)) ag_spawnedAt,
         ag_endedAt = Some (ev_at event)\<rparr> held)"

definition agentRoster :: "event list \<Rightarrow> string \<Rightarrow> rostered_agent list" where
  "agentRoster events threadId = map snd (foldl rosterStep [] (rowsOwnedBy events threadId))"

definition unendedSpawns :: "event list \<Rightarrow> event list" where
  "unendedSpawns events =
     (let ended = set (map (\<lambda>event. eb_agentId (ev_body event)) (eventsOfType is_AgentEnded events)) in
      filter (\<lambda>event. eb_agentId (ev_body event) \<notin> ended) (eventsOfType is_AgentSpawned events))"

definition isLost :: "rostered_agent \<Rightarrow> bool" where
  "isLost agent \<longleftrightarrow> ag_endedAt agent = None"

section \<open>Lemmas\<close>

text \<open>One entry per agent, and none of them is reported as still running.\<close>

lemma rosterStep_ok:
  assumes "distinct (map fst held)"
    and "\<forall>(k, agent) \<in> set held. ag_agentId agent = k \<and> ag_status agent \<noteq> AgentRunning"
  shows "distinct (map fst (rosterStep held event)) \<and>
    (\<forall>(k, agent) \<in> set (rosterStep held event).
       ag_agentId agent = k \<and> ag_status agent \<noteq> AgentRunning)"
  using assms
  by (auto simp: rosterStep_def Let_def map_put_distinct map_put_entries split: if_split_asm)

lemma roster_ok:
  "distinct (map fst (foldl rosterStep [] rows)) \<and>
   (\<forall>(k, agent) \<in> set (foldl rosterStep [] rows).
      ag_agentId agent = k \<and> ag_status agent \<noteq> AgentRunning)"
proof (induction rows rule: rev_induct)
  case (snoc event rows)
  then show ?case using rosterStep_ok [of "foldl rosterStep [] rows" event] by simp
qed simp

lemma agentRoster_ids: "distinct (map ag_agentId (agentRoster events threadId))"
proof -
  let ?held = "foldl rosterStep [] (rowsOwnedBy events threadId)"
  have "map ag_agentId (map snd ?held) = map fst ?held"
    using roster_ok [of "rowsOwnedBy events threadId"] by (auto intro!: map_cong)
  then show ?thesis
    unfolding agentRoster_def using roster_ok [of "rowsOwnedBy events threadId"] by argo
qed

text \<open>An agent is rostered exactly when the thread owns a row about it.\<close>

lemma roster_keys:
  "fst ` set (foldl rosterStep [] rows) =
     (\<lambda>event. eb_agentId (ev_body event)) `
       {event \<in> set rows. is_AgentSpawned (ev_body event) \<or> is_AgentEnded (ev_body event)}"
proof (induction rows rule: rev_induct)
  case (snoc event rows)
  have "is_AgentSpawned b \<Longrightarrow> \<not> is_AgentEnded b" for b by (cases b) auto
  then show ?case
    using snoc by (auto simp: rosterStep_def Let_def map_put_fst image_iff)
qed simp

text \<open>C40: the roster of a thread. It holds one entry per agent, exactly the agents some row the thread owns
  speaks of, and never reports one as still running.\<close>

theorem agentRoster_current:
  "distinct (map ag_agentId (agentRoster events threadId)) \<and>
   AgentRunning \<notin> ag_status ` set (agentRoster events threadId) \<and>
   ag_agentId ` set (agentRoster events threadId) =
     {eb_agentId (ev_body event) | event. event \<in> set (rowsOwnedBy events threadId) \<and>
        (is_AgentSpawned (ev_body event) \<or> is_AgentEnded (ev_body event))}"
proof -
  let ?held = "foldl rosterStep [] (rowsOwnedBy events threadId)"
  have ok: "\<forall>(k, agent) \<in> set ?held. ag_agentId agent = k \<and> ag_status agent \<noteq> AgentRunning"
    using roster_ok by blast
  then have "ag_agentId ` set (agentRoster events threadId) = fst ` set ?held"
    unfolding agentRoster_def by force
  moreover have "AgentRunning \<notin> ag_status ` set (agentRoster events threadId)"
    using ok unfolding agentRoster_def by force
  ultimately show ?thesis
    using agentRoster_ids [of events threadId] roster_keys [of "rowsOwnedBy events threadId"]
    by (auto simp: image_def)
qed

end
