(* ===== verification/Rewind_Fork.thy ===== *)
theory Rewind_Fork
  imports Watermark Roster
begin

text \<open>
  \<open>events/rewind-target.ts\<close>, \<open>events/fork-target.ts\<close> and \<open>events/fork.ts\<close>: where a thread may be cut
  back to, and where another may start from it. A sequence is an \<open>int\<close>, as the check for negative
  numbers is part of the code; one that is not an integer is refused before anything else and has no
  value here.
\<close>

section \<open>Definitions\<close>

datatype e_rewind_refusal = NoSuchRewind | UnsettledRewind | UnansweredRewind | UnendedSubAgent
  | BelowInheritedPrefix | BelowCompaction

datatype rewind_target = RewindAllowed | RewindRefused e_rewind_refusal string

datatype e_fork_mode = ForkReference | ForkCopy

fun forkModeText :: "e_fork_mode \<Rightarrow> string" where
  "forkModeText ForkReference = ''reference''"
| "forkModeText ForkCopy = ''copy''"

datatype e_fork_refusal = NoSuchFork | UnsettledFork | UnansweredFork

datatype fork_target = ForkAllowed | ForkRefused e_fork_refusal string

definition lastSeq :: "event list \<Rightarrow> nat" where
  "lastSeq events = (if events = [] then 0 else ev_seq (last events))"

definition firstSeq :: "event list \<Rightarrow> nat" where
  "firstSeq events = (if events = [] then 0 else ev_seq (hd events))"

definition rowsThrough :: "event list \<Rightarrow> int \<Rightarrow> event list" where
  "rowsThrough events seq = filter (\<lambda>event. int (ev_seq event) \<le> seq) events"

definition rewindTarget :: "event list \<Rightarrow> int \<Rightarrow> nat \<Rightarrow> rewind_target" where
  "rewindTarget events toSeq floorSeq =
     (if toSeq < 0 \<or> toSeq > int (lastSeq events) then
        RewindRefused NoSuchRewind
          (show_int toSeq @ '' is not a rewind target on a thread holding sequences 0 through '' @
           show_nat (lastSeq events))
      else let compactedFloor = replacedThrough events in
      if toSeq < int compactedFloor then
        RewindRefused BelowCompaction
          (''rewinding to '' @ show_int toSeq @
           '' is not possible on a thread compacted through '' @ show_nat compactedFloor @ '' '' @
           [em_dash] @ '' those turns were replaced by a summary and the rows are gone'')
      else if toSeq < int floorSeq then
        RewindRefused BelowInheritedPrefix
          (''rewinding to '' @ show_int toSeq @ '' would cut into the '' @ show_nat floorSeq @
           '' sequences this thread inherited rather than owns, and the rows below '' @
           show_nat floorSeq @ '' belong to its parent'')
      else (case List.find (\<lambda>spawn. int (ev_seq spawn) > toSeq) (unendedSpawns events) of
          Some cutSpawn \<Rightarrow>
            RewindRefused UnendedSubAgent
              (''rewinding to '' @ show_int toSeq @ '' would cut below the spawn of '' @
               eb_agentType (ev_body cutSpawn) @ '' sub-agent '' @ eb_agentId (ev_body cutSpawn) @
               '', which has no ending behind it, and the child would go on stepping into a thread '' @
               ''its parent no longer records'')
        | None \<Rightarrow>
            let surviving = rowsThrough events toSeq in
            (case at (pendingCalls surviving) 0 of
               Some unsettledCall \<Rightarrow>
                 RewindRefused UnsettledRewind
                   (''rewinding to '' @ show_int toSeq @ '' would leave '' @ pc_name unsettledCall @
                    '' ('' @ pc_callId unsettledCall @
                    '') dispatched but unsettled, so the next turn would run it again'')
             | None \<Rightarrow>
                 (case outstandingApproval surviving of
                    Some unanswered \<Rightarrow>
                      RewindRefused UnansweredRewind
                        (''rewinding to '' @ show_int toSeq @ '' would leave the approval for '' @
                         unanswered @ '' unanswered'')
                  | None \<Rightarrow> RewindAllowed))))"

definition forkTarget :: "event list \<Rightarrow> int \<Rightarrow> e_fork_mode \<Rightarrow> fork_target" where
  "forkTarget events seq mode =
     (if seq < int (firstSeq events) \<or> seq > int (lastSeq events) then
        ForkRefused NoSuchFork
          (show_int seq @ '' is not a fork target on a thread holding sequences '' @
           show_nat (firstSeq events) @ '' through '' @ show_nat (lastSeq events))
      else let kept = rowsThrough events seq in
      (case at (pendingCalls kept) 0 of
         Some unsettledCall \<Rightarrow>
           ForkRefused UnsettledFork
             (''a '' @ forkModeText mode @ '' fork at '' @ show_int seq @
              '' would hand the new thread '' @ pc_name unsettledCall @ '' ('' @
              pc_callId unsettledCall @
              '') dispatched but unsettled, so its first turn would run it a second time'')
       | None \<Rightarrow>
           (case outstandingApproval kept of
              Some unanswered \<Rightarrow>
                ForkRefused UnansweredFork
                  (''a '' @ forkModeText mode @ '' fork at '' @ show_int seq @
                   '' would start the new thread paused on the approval for '' @ unanswered @
                   '', which was asked of the original thread'')
            | None \<Rightarrow> ForkAllowed)))"

section \<open>What an allowed cut guarantees\<close>

text \<open>A log is settled when no tool call in it is open and no approval in it is unanswered.\<close>

definition settledLog :: "event list \<Rightarrow> bool" where
  "settledLog events \<longleftrightarrow> unsettled events = [] \<and> (\<forall>k seq. \<not> asksSince events k seq)"

lemma at_0_None [simp]: "at xs 0 = None \<longleftrightarrow> xs = []"
  by (simp add: at_def)

lemma settledLog_iff:
  "settledLog events \<longleftrightarrow> at (pendingCalls events) 0 = None \<and> outstandingApproval events = None"
  by (simp add: settledLog_def pendingCalls_Nil_iff outstandingApproval_None)

lemma rewindTarget_iff:
  "rewindTarget events toSeq floorSeq = RewindAllowed \<longleftrightarrow>
     0 \<le> toSeq \<and> toSeq \<le> int (lastSeq events) \<and> int (replacedThrough events) \<le> toSeq \<and>
     int floorSeq \<le> toSeq \<and>
     (\<forall>spawn \<in> set (unendedSpawns events). int (ev_seq spawn) \<le> toSeq) \<and>
     settledLog (rowsThrough events toSeq)"
proof -
  have "List.find (\<lambda>spawn. int (ev_seq spawn) > toSeq) (unendedSpawns events) = None \<longleftrightarrow>
      (\<forall>spawn \<in> set (unendedSpawns events). int (ev_seq spawn) \<le> toSeq)"
    by (auto simp: find_None_iff)
  then show ?thesis
    by (auto simp: rewindTarget_def settledLog_iff Let_def not_less
        simp del: at_0_None append_Cons split: option.splits if_split_asm)
qed

lemma forkTarget_iff:
  "forkTarget events seq mode = ForkAllowed \<longleftrightarrow>
     int (firstSeq events) \<le> seq \<and> seq \<le> int (lastSeq events) \<and>
     settledLog (rowsThrough events seq)"
  by (auto simp: forkTarget_def settledLog_iff Let_def not_less
      simp del: at_0_None append_Cons split: option.splits)

section \<open>Properties\<close>


text \<open>When a fork is allowed: at a sequence the log holds, when the rows up to it leave no tool call open
  and no approval unanswered, whatever the mode.\<close>

theorem forkTarget_allowed:
  "forkTarget events seq mode = ForkAllowed \<longleftrightarrow>
     int (firstSeq events) \<le> seq \<and> seq \<le> int (lastSeq events) \<and>
     pendingCalls (rowsThrough events seq) = [] \<and>
     outstandingApproval (rowsThrough events seq) = None"
  by (simp add: forkTarget_iff settledLog_iff)

end
