(* ===== verification/Message.thy ===== *)
theory Message
  imports Events
begin

text \<open>
  \<open>message/parts.ts\<close>, \<open>message/message.ts\<close>, \<open>assembly/assembled.ts\<close>, \<open>assembly/rule.ts\<close> and
  \<open>assembly/trace.ts\<close>: the request that is assembled for a model, and the interface of the rules that
  build it. Provider options are a JSON object. A rule may throw, with the error's message as \<open>Inl\<close>.
\<close>

section \<open>Messages\<close>

record tool_call_part =
  tcp_toolCallId :: string
  tcp_toolName :: string
  tcp_input :: "json option"
  tcp_providerOptions :: "json option"

datatype tool_result_output =
    OutText string
  | OutJson json
  | OutErrorText string
  | OutErrorJson json
  | OutContent "model_part list"

record tool_result_part =
  trp_toolCallId :: string
  trp_toolName :: string
  trp_output :: tool_result_output
  trp_providerOptions :: "json option"

datatype said_part =
    SaidText text_part
  | SaidReasoning reasoning_part
  | SaidCall (callOf: tool_call_part)

datatype message =
    UserMessage (userContent: "model_part list") (msg_providerOptions: "json option")
  | AssistantMessage (saidContent: "said_part list") (msg_providerOptions: "json option")
  | ToolMessage (toolContent: "tool_result_part list") (msg_providerOptions: "json option")

text \<open>A part of whichever message: what \<open>message.content\<close> holds when the role is not known.\<close>

datatype message_part =
    is_PartText: PartText text_part
  | is_PartImage: PartImage image_part
  | is_PartReasoning: PartReasoning reasoning_part
  | is_PartCall: PartCall tool_call_part
  | is_PartResult: PartResult tool_result_part

fun partOfModel :: "model_part \<Rightarrow> message_part" where
  "partOfModel (ModelText part) = PartText part"
| "partOfModel (ModelImage part) = PartImage part"

fun partOfSaid :: "said_part \<Rightarrow> message_part" where
  "partOfSaid (SaidText part) = PartText part"
| "partOfSaid (SaidReasoning part) = PartReasoning part"
| "partOfSaid (SaidCall part) = PartCall part"

fun partsOf :: "message \<Rightarrow> message_part list" where
  "partsOf (UserMessage content _) = map partOfModel content"
| "partsOf (AssistantMessage content _) = map partOfSaid content"
| "partsOf (ToolMessage content _) = map PartResult content"

fun roleText :: "message \<Rightarrow> string" where
  "roleText (UserMessage _ _) = ''user''"
| "roleText (AssistantMessage _ _) = ''assistant''"
| "roleText (ToolMessage _ _) = ''tool''"

definition plainText :: "string \<Rightarrow> text_part" where
  "plainText s = \<lparr>tp_text = s, tp_providerOptions = None\<rparr>"

text \<open>\<open>{ role: 'user', content: [{ type: 'text', text }] }\<close>.\<close>

definition userText :: "string \<Rightarrow> message" where
  "userText s = UserMessage [ModelText (plainText s)] None"

section \<open>What is assembled\<close>

record event_ref =
  er_eventId :: string
  er_seq :: nat

record system_block =
  sb_text :: string
  sb_providerOptions :: "json option"

record assembled_message =
  am_message :: message
  am_origin :: event_ref

record assembled =
  as_system :: "system_block list"
  as_messages :: "assembled_message list"

definition originOf :: "event \<Rightarrow> event_ref" where
  "originOf event = \<lparr>er_eventId = ev_id event, er_seq = ev_seq event\<rparr>"

definition plainBlock :: "string \<Rightarrow> system_block" where
  "plainBlock s = \<lparr>sb_text = s, sb_providerOptions = None\<rparr>"

abbreviation originSeq :: "assembled_message \<Rightarrow> nat" where
  "originSeq entry \<equiv> er_seq (am_origin entry)"

section \<open>Rules\<close>

record provider_identity =
  pv_id :: string
  pv_modelId :: string

record rule_context =
  rc_events :: "event list"
  rc_threadId :: string
  rc_step :: nat
  rc_provider :: provider_identity
  rc_countTokens :: "assembled \<Rightarrow> nat"
  rc_previous :: "assembled option"

record rule =
  rl_name :: string
  rl_apply :: "assembled \<Rightarrow> rule_context \<Rightarrow> string + assembled"

datatype e_rule_failure_policy = Throw | SkipRule

datatype e_assembly_stage = RuleStage | AnnotatorStage

record assembly_trace_step =
  ts_stage :: e_assembly_stage
  ts_name :: string
  ts_systemBlocks :: nat
  ts_messages :: nat
  ts_tokens :: nat
  ts_failure :: "string option"

record annotator =
  an_name :: string
  an_apply :: "assembled \<Rightarrow> assembly_trace_step list \<Rightarrow> rule_context \<Rightarrow> string + assembled"

text \<open>The calls a message makes and the results it carries, by call id.\<close>

fun callsMade :: "message \<Rightarrow> tool_call_part list" where
  "callsMade (AssistantMessage content _) =
     concat (map (\<lambda>part. case part of SaidCall call \<Rightarrow> [call] | _ \<Rightarrow> []) content)"
| "callsMade _ = []"

fun resultsCarried :: "message \<Rightarrow> tool_result_part list" where
  "resultsCarried (ToolMessage content _) = content"
| "resultsCarried _ = []"

abbreviation callIdsOf :: "message \<Rightarrow> string list" where
  "callIdsOf message \<equiv> map tcp_toolCallId (callsMade message)"

abbreviation resultIdsOf :: "message \<Rightarrow> string list" where
  "resultIdsOf message \<equiv> map trp_toolCallId (resultsCarried message)"

lemma userText_simps [simp]:
  "is_UserMessage (userText s)" "callsMade (userText s) = []" "resultsCarried (userText s) = []"
  "roleText (userText s) = ''user''" "partsOf (userText s) = [PartText (plainText s)]"
  by (simp_all add: userText_def)

end
