(* ===== verification/Compaction.thy ===== *)
theory Compaction
  imports Rewind_Fork Context_Blocks
begin

text \<open>
  \<open>compaction/compaction-target.ts\<close>, \<open>suffix-target.ts\<close>, \<open>compaction-plan.ts\<close>, \<open>preview.ts\<close> and
  \<open>render-range.ts\<close> with the estimate of \<open>models/usage.ts\<close>: how far a thread may be summarised, where a
  summary is planned and what the summariser is shown. A sequence that is asked for is an \<open>int\<close>; one
  that is not an integer is refused before anything else and has no value here.
\<close>

section \<open>Targets\<close>

datatype e_compaction_refusal = NoSuchTarget | AlreadyCompacted | SplitsToolCall | NothingToCompact

datatype compaction_target = CompactionAllowed | CompactionRefused e_compaction_refusal string

record settlement =
  st_callId :: string
  st_name :: string
  st_seq :: nat

definition settlements :: "event list \<Rightarrow> settlement list" where
  "settlements events =
     map (\<lambda>event. \<lparr>st_callId = eb_callId (ev_body event), st_name = eb_name (ev_body event),
         st_seq = ev_seq event\<rparr>)
       (filter (\<lambda>event. settlesCall (ev_body event)) events)"

definition orphanedSettlement :: "event list \<Rightarrow> int \<Rightarrow> settlement option" where
  "orphanedSettlement events throughSeq =
     (let compactedCalls = (\<lambda>event. eb_callId (ev_body event)) `
            set (filter (\<lambda>event. is_ToolCalled (ev_body event) \<and> int (ev_seq event) \<le> throughSeq) events)
      in List.find (\<lambda>settlement. int (st_seq settlement) > throughSeq \<and>
           st_callId settlement \<in> compactedCalls) (settlements events))"

definition compactionTarget :: "event list \<Rightarrow> int \<Rightarrow> compaction_target" where
  "compactionTarget events throughSeq =
     (if throughSeq < int (firstSeq events) \<or> throughSeq > int (lastSeq events) then
        CompactionRefused NoSuchTarget
          (show_int throughSeq @ '' is not a compaction target on a thread holding sequences '' @
           show_nat (firstSeq events) @ '' through '' @ show_nat (lastSeq events))
      else let already = compactedThrough events in
      if throughSeq \<le> int already then
        CompactionRefused AlreadyCompacted
          (''this thread is already compacted through '' @ show_nat already)
      else (case orphanedSettlement events throughSeq of
          Some orphaned \<Rightarrow>
            CompactionRefused SplitsToolCall
              (''compacting through '' @ show_int throughSeq @ '' would keep the result of '' @
               st_name orphaned @ '' ('' @ st_callId orphaned @
               '') after compacting the call it answers'')
        | None \<Rightarrow> CompactionAllowed))"

definition suffixCompactionTarget :: "event list \<Rightarrow> int \<Rightarrow> compaction_target" where
  "suffixCompactionTarget events fromSeq =
     (if fromSeq < int (firstSeq events) \<or> fromSeq > int (lastSeq events) then
        CompactionRefused NoSuchTarget
          (show_int fromSeq @ '' is not a compaction target on a thread holding sequences '' @
           show_nat (firstSeq events) @ '' through '' @ show_nat (lastSeq events))
      else let already = compactedThrough events in
      if fromSeq \<le> int already then
        CompactionRefused AlreadyCompacted
          (''this thread is already compacted through '' @ show_nat already)
      else if length (filter (\<lambda>event. int (ev_seq event) \<ge> fromSeq) events) < 2 then
        CompactionRefused NothingToCompact
          (''summarising from '' @ show_int fromSeq @
           '' would replace one event with a summary of it, which saves nothing'')
      else (case at (pendingCalls (filter (\<lambda>event. int (ev_seq event) < fromSeq) events)) 0 of
          Some stranded \<Rightarrow>
            CompactionRefused SplitsToolCall
              (''summarising from '' @ show_int fromSeq @ '' would leave '' @ pc_name stranded @ '' ('' @
               pc_callId stranded @
               '') dispatched with its result summarised away, so the next turn would run it '' @
               ''again'')
        | None \<Rightarrow> CompactionAllowed))"

section \<open>Estimates\<close>

text \<open>\<open>textTokens\<close> and \<open>partTokens\<close> of \<open>assembly/tokens.ts\<close> on the parts that \<open>messageOfEvent\<close> makes: texts,
  reasoning, calls and results that are text. No picture is among them. \<open>JSON.stringify\<close> leaves out a
  property whose value is \<open>undefined\<close>.\<close>

definition CHARS_PER_TOKEN :: nat where "CHARS_PER_TOKEN = 4"

definition textTokens :: "string \<Rightarrow> nat" where
  "textTokens s = (length s + CHARS_PER_TOKEN - 1) div CHARS_PER_TOKEN"

fun assistantPartTokens :: "assistant_part \<Rightarrow> nat" where
  "assistantPartTokens (AssistantText part) = textTokens (tp_text part)"
| "assistantPartTokens (AssistantReasoning part) = textTokens (rp_text part)"

definition resultTokens :: "json option \<Rightarrow> nat" where
  "resultTokens output =
     textTokens (stringify (JObject ((''type'', JString ''text'') #
       (case output of None \<Rightarrow> [] | Some value \<Rightarrow> [(''value'', JString (stringify value))]))))"

definition eventTokens :: "event_body \<Rightarrow> nat" where
  "eventTokens body =
     (case body of
        UserSaid _ _ _ \<Rightarrow> textTokens (eb_text body)
      | AssistantSaid parts _ \<Rightarrow> sum_list (map assistantPartTokens parts)
      | ToolCalled _ _ input _ \<Rightarrow>
          textTokens (stringify (case input of None \<Rightarrow> JNull | Some value \<Rightarrow> value))
      | ToolResult _ _ output _ _ _ _ \<Rightarrow> resultTokens output
      | ToolDenied _ _ reason _ \<Rightarrow> textTokens reason
      | ContextLoaded _ _ content _ \<Rightarrow> textTokens content
      | HistoryCompacted _ _ _ summary _ \<Rightarrow> textTokens summary
      | _ \<Rightarrow> 0)"

definition estimateEventTokens :: "event list \<Rightarrow> nat" where
  "estimateEventTokens events = sum_list (map (\<lambda>event. eventTokens (ev_body event)) events)"

section \<open>Plans\<close>

record compaction_plan =
  cpl_throughSeq :: nat
  cpl_compactedEvents :: nat
  cpl_keptEvents :: nat

definition tailTokensFrom :: "event list \<Rightarrow> nat \<Rightarrow> nat" where
  "tailTokensFrom events seq = estimateEventTokens (filter (\<lambda>event. ev_seq event \<ge> seq) events)"

definition turnStarts :: "event list \<Rightarrow> nat \<Rightarrow> nat list" where
  "turnStarts events keepRecentTokens =
     filter (\<lambda>seq. tailTokensFrom events seq \<ge> keepRecentTokens)
       (map ev_seq (filter (\<lambda>event. is_UserSaid (ev_body event) \<and>
         int (ev_seq event) - 1 > int (compactedThrough events)) events))"

definition candidateWatermarks :: "event list \<Rightarrow> nat \<Rightarrow> int list" where
  "candidateWatermarks events keepRecentTokens =
     rev (map (\<lambda>seq. int seq - 1) (turnStarts events keepRecentTokens))"

definition planCompaction :: "event list \<Rightarrow> nat \<Rightarrow> compaction_plan option" where
  "planCompaction events keepRecentTokens =
     (case List.find (\<lambda>candidate. compactionTarget events candidate = CompactionAllowed)
         (candidateWatermarks events keepRecentTokens) of
        None \<Rightarrow> None
      | Some throughSeq \<Rightarrow>
          let compactedEvents = length (filter (\<lambda>event. int (ev_seq event) \<le> throughSeq) events) in
          Some \<lparr>cpl_throughSeq = nat throughSeq, cpl_compactedEvents = compactedEvents,
            cpl_keptEvents = length events - compactedEvents\<rparr>)"

text \<open>The log as it would be after a compaction.\<close>

definition eventsWithCompaction :: "event list \<Rightarrow> nat \<Rightarrow> string \<Rightarrow> event list" where
  "eventsWithCompaction events throughSeq summary =
     (if events = [] then events
      else let final = last events; kept = filter (\<lambda>event. ev_seq event > throughSeq) events in
        \<lparr>ev_id = ''preview-compaction'', ev_seq = throughSeq, ev_threadId = ev_threadId final,
         ev_runId = ev_runId final, ev_parentRunId = None, ev_depth = ev_depth final,
         ev_at = ev_at final,
         ev_body = HistoryCompacted Prefix (firstSeq events) throughSeq summary
           (length events - length kept)\<rparr> # kept)"

section \<open>The transcript a summary is made from\<close>

definition PAYLOAD_CHARACTER_LIMIT :: nat where "PAYLOAD_CHARACTER_LIMIT = 600"

definition payloadClipped :: "string \<Rightarrow> nat \<Rightarrow> string" where
  "payloadClipped s limit = (if length s \<le> limit then s else take limit s @ [ellipsis])"

text \<open>\<open>String(undefined)\<close> is what a missing value is shown as.\<close>

definition jsonOrDescription :: "json option \<Rightarrow> nat \<Rightarrow> string" where
  "jsonOrDescription value limit =
     (case value of
        Some (JString s) \<Rightarrow> payloadClipped s limit
      | Some v \<Rightarrow> payloadClipped (stringify v) limit
      | None \<Rightarrow> payloadClipped ''undefined'' limit)"

fun agentStatusText :: "e_agent_status \<Rightarrow> string" where
  "agentStatusText AgentRunning = ''running''"
| "agentStatusText AgentFinished = ''finished''"
| "agentStatusText AgentFailed = ''failed''"
| "agentStatusText AgentStopped = ''stopped''"
| "agentStatusText AgentBlocked = ''blocked''"

fun shellStatusText :: "e_shell_status \<Rightarrow> string" where
  "shellStatusText ShellRunning = ''running''"
| "shellStatusText ShellExited = ''exited''"
| "shellStatusText ShellKilled = ''killed''"
| "shellStatusText ShellOverflowed = ''overflowed''"

fun serviceStatusText :: "e_service_status \<Rightarrow> string" where
  "serviceStatusText ServiceRunning = ''running''"
| "serviceStatusText ServiceExited = ''exited''"
| "serviceStatusText ServiceKilled = ''killed''"

fun worktreeExitText :: "e_worktree_exit \<Rightarrow> string" where
  "worktreeExitText KeepWorktree = ''keep''"
| "worktreeExitText RemoveTheWorktree = ''remove''"

definition spokenText :: "assistant_part list \<Rightarrow> string" where
  "spokenText parts =
     trim (join [newline] (concat (map (\<lambda>part. case part of
         AssistantText t \<Rightarrow> [tp_text t] | _ \<Rightarrow> []) parts)))"

definition lineOf :: "event_body \<Rightarrow> nat \<Rightarrow> string option" where
  "lineOf body limit =
     (case body of
        HistoryCompacted _ _ _ summary _ \<Rightarrow>
          Some (''Summary of the conversation before this: '' @ summary)
      | UserSaid _ _ _ \<Rightarrow> Some (''Operator: '' @ payloadClipped (eb_text body) limit)
      | AssistantSaid parts _ \<Rightarrow>
          (let spoken = spokenText parts in
           if spoken = [] then None else Some (''Atlas: '' @ payloadClipped spoken limit))
      | ToolCalled _ name input _ \<Rightarrow>
          Some (''Atlas called '' @ name @ '' with '' @ jsonOrDescription input limit)
      | ToolResult _ name output modelText _ failure _ \<Rightarrow>
          (case failure of
             Some message \<Rightarrow> Some (name @ '' failed: '' @ payloadClipped message limit)
           | None \<Rightarrow>
               Some (name @ '' returned '' @
                     jsonOrDescription (case modelText of Some s \<Rightarrow> Some (JString s) | None \<Rightarrow> output) limit))
      | ToolDenied _ name reason _ \<Rightarrow>
          Some (name @ '' was denied: '' @ payloadClipped reason limit)
      | AgentEnded _ agentType intent status _ prose _ _ \<Rightarrow>
          Some (''Sub-agent ('' @ agentType @ '', '' @ intent @ '') '' @ agentStatusText status @ '': '' @
                payloadClipped prose limit)
      | BackgroundShellEnded _ command _ status _ _ output _ _ \<Rightarrow>
          Some (''Background shell '' @ [dquote] @ command @ [dquote] @ '' '' @ shellStatusText status @
                '': '' @ payloadClipped output limit)
      | BackgroundShellStillRunning _ command _ runningForMs _ _ _ \<Rightarrow>
          Some (''Background shell '' @ [dquote] @ command @ [dquote] @ '' still running after '' @
                elapsedPhrase runningForMs)
      | ServiceEnded _ command _ status _ _ _ tail \<Rightarrow>
          Some (''Service '' @ [dquote] @ command @ [dquote] @ '' '' @ serviceStatusText status @ '': '' @
                payloadClipped tail limit)
      | WorktreeEntered path branchName _ _ \<Rightarrow>
          Some (''Atlas entered worktree '' @ path @ '' ('' @ branchName @ '')'')
      | WorktreeExited path action _ \<Rightarrow>
          Some (''Atlas left worktree '' @ path @ '' ('' @ worktreeExitText action @ '')'')
      | _ \<Rightarrow> None)"

definition isProse :: "event_body \<Rightarrow> bool" where
  "isProse body \<longleftrightarrow> is_HistoryCompacted body \<or> is_UserSaid body \<or> is_AssistantSaid body"

definition transcriptOfRange :: "event list \<Rightarrow> nat \<Rightarrow> nat \<Rightarrow> bool \<Rightarrow> nat \<Rightarrow> string" where
  "transcriptOfRange events fromSeq throughSeq proseOnly limit =
     join [newline] (concat (map (\<lambda>event. option_list (lineOf (ev_body event) limit))
       (filter (\<lambda>event. \<not> proseOnly \<or> isProse (ev_body event))
         (filter (\<lambda>event. ev_seq event \<ge> fromSeq \<and> ev_seq event \<le> throughSeq) events))))"

section \<open>What the targets guarantee\<close>

text \<open>A call and a settlement of its id on either side of a cut.\<close>

definition splitAt :: "event list \<Rightarrow> int \<Rightarrow> bool" where
  "splitAt events seq \<longleftrightarrow>
     (\<exists>call \<in> set events. \<exists>answer \<in> set events.
        is_ToolCalled (ev_body call) \<and> settlesCall (ev_body answer) \<and>
        eb_callId (ev_body call) = eb_callId (ev_body answer) \<and>
        int (ev_seq call) \<le> seq \<and> seq < int (ev_seq answer))"

lemma orphanedSettlement_none: "orphanedSettlement events seq = None \<longleftrightarrow> \<not> splitAt events seq"
proof -
  have "orphanedSettlement events seq = None \<longleftrightarrow>
      \<not> (\<exists>answer \<in> set events. settlesCall (ev_body answer) \<and> seq < int (ev_seq answer) \<and>
        eb_callId (ev_body answer) \<in> (\<lambda>event. eb_callId (ev_body event)) `
          set (filter (\<lambda>event. is_ToolCalled (ev_body event) \<and> int (ev_seq event) \<le> seq) events))"
    by (auto simp: orphanedSettlement_def settlements_def find_map find_None_iff)
  then show ?thesis by (auto simp: splitAt_def image_iff) metis+
qed

lemma compactionTarget_iff:
  "compactionTarget events throughSeq = CompactionAllowed \<longleftrightarrow>
     int (firstSeq events) \<le> throughSeq \<and> throughSeq \<le> int (lastSeq events) \<and>
     int (compactedThrough events) < throughSeq \<and> \<not> splitAt events throughSeq"
  by (auto simp: compactionTarget_def Let_def orphanedSettlement_none [symmetric] split: option.splits)

text \<open>C29: when history up to a sequence may be summarised: at a sequence the log holds, above what was
  summarised before, when no result behind it answers a call before it.\<close>

theorem compactionTarget_allowed:
  "compactionTarget events throughSeq = CompactionAllowed \<longleftrightarrow>
     int (firstSeq events) \<le> throughSeq \<and> throughSeq \<le> int (lastSeq events) \<and>
     int (compactedThrough events) < throughSeq \<and>
     \<not> (\<exists>call \<in> set events. \<exists>answer \<in> set events.
        is_ToolCalled (ev_body call) \<and> settlesCall (ev_body answer) \<and>
        eb_callId (ev_body call) = eb_callId (ev_body answer) \<and>
        int (ev_seq call) \<le> throughSeq \<and> throughSeq < int (ev_seq answer))"
  unfolding compactionTarget_iff splitAt_def by (rule refl)

lemma suffixTarget_iff:
  "suffixCompactionTarget events fromSeq = CompactionAllowed \<longleftrightarrow>
     int (firstSeq events) \<le> fromSeq \<and> fromSeq \<le> int (lastSeq events) \<and>
     int (compactedThrough events) < fromSeq \<and>
     2 \<le> length (filter (\<lambda>event. fromSeq \<le> int (ev_seq event)) events) \<and>
     pendingCalls (filter (\<lambda>event. int (ev_seq event) < fromSeq) events) = []"
  by (auto simp: suffixCompactionTarget_def Let_def split: option.splits)

section \<open>What a plan is\<close>

lemma candidate_in:
  "candidate \<in> set (candidateWatermarks events keep) \<longleftrightarrow>
     (\<exists>start \<in> set events. is_UserSaid (ev_body start) \<and> candidate = int (ev_seq start) - 1 \<and>
        int (compactedThrough events) < candidate \<and> keep \<le> tailTokensFrom events (ev_seq start))"
  by (auto simp: candidateWatermarks_def turnStarts_def)

lemma planCompaction_Some:
  assumes "planCompaction events keep = Some plan"
  obtains start where "start \<in> set events" and "is_UserSaid (ev_body start)"
    and "int (cpl_throughSeq plan) = int (ev_seq start) - 1"
    and "keep \<le> tailTokensFrom events (ev_seq start)"
    and "compactionTarget events (int (cpl_throughSeq plan)) = CompactionAllowed"
    and "cpl_compactedEvents plan + cpl_keptEvents plan = length events"
proof -
  obtain candidate where found: "List.find (\<lambda>candidate. compactionTarget events candidate = CompactionAllowed)
      (candidateWatermarks events keep) = Some candidate"
    and plan: "plan = \<lparr>cpl_throughSeq = nat candidate,
      cpl_compactedEvents = length (filter (\<lambda>event. int (ev_seq event) \<le> candidate) events),
      cpl_keptEvents = length events - length (filter (\<lambda>event. int (ev_seq event) \<le> candidate) events)\<rparr>"
    using assms by (auto simp: planCompaction_def Let_def split: option.splits)
  then have "candidate \<in> set (candidateWatermarks events keep)"
    and allowed: "compactionTarget events candidate = CompactionAllowed"
    using find_Some_in [OF found] by auto
  then obtain start where "start \<in> set events" "is_UserSaid (ev_body start)"
      "candidate = int (ev_seq start) - 1" "keep \<le> tailTokensFrom events (ev_seq start)"
    by (auto simp: candidate_in)
  moreover have "0 \<le> candidate" using allowed by (simp add: compactionTarget_iff)
  moreover have "length (filter (\<lambda>event. int (ev_seq event) \<le> candidate) events) \<le> length events"
    by (rule length_filter_le)
  ultimately show thesis using that [of start] plan allowed by simp
qed

end
