(* ===== verification/Tail_Blocks.thy ===== *)
theory Tail_Blocks
  imports Context_Blocks
begin

text \<open>
  The rules that add to the request without touching its messages: \<open>assembly/rules/tail-block.ts\<close> with
  the reminders of what is still running and where (\<open>running-shells-block.ts\<close>,
  \<open>running-services-block.ts\<close>, \<open>running-agents-block.ts\<close>, \<open>execution-location-block.ts\<close>), and the system
  blocks of \<open>system-prompt.ts\<close> and \<open>worktree-block.ts\<close> with the functions of \<open>workspace/worktree.ts\<close>.
  The sources a rule asks are its arguments: what is running is known to the harness only.
\<close>

section \<open>At the tail\<close>

definition appendedAtTail :: "assembled \<Rightarrow> rule_context \<Rightarrow> string \<Rightarrow> assembled" where
  "appendedAtTail input ctx s =
     (if rc_events ctx = [] then input
      else input\<lparr>as_messages := as_messages input @
        [\<lparr>am_message = userText s, am_origin = originOf (last (rc_events ctx))\<rparr>]\<rparr>)"

section \<open>What is running\<close>

record running_shell =
  sh_shellId :: string
  sh_command :: string
  sh_description :: "string option"
  sh_awaitingInput :: bool
  sh_totalCharacters :: nat

definition AWAITING_INPUT :: "string" where
  "AWAITING_INPUT =
     ''awaiting input '' @ [em_dash] @
     '' its stdin is closed, so nothing can answer it and it will never end on its '' @
     ''own; kill it and re-run with the input piped in''"

definition printed :: "nat \<Rightarrow> string" where
  "printed characters =
     (if characters = 1 then ''1 character printed'' else show_nat characters @ '' characters printed'')"

definition shellLine :: "running_shell \<Rightarrow> string" where
  "shellLine shell =
     sh_shellId shell @ ''  '' @ shellLabel (sh_command shell) (sh_description shell) @ ''  '' @
     (if sh_awaitingInput shell then AWAITING_INPUT else printed (sh_totalCharacters shell))"

definition runningShellsReminder :: "running_shell list \<Rightarrow> string" where
  "runningShellsReminder shells =
     wrapInSystemReminder (join [newline, newline]
       [''These background shells are still running:'',
        join [newline] (map shellLine shells),
        ''Each outlives this turn and delivers its ending to you by itself, wherever '' @
        ''you are, so never poll one to find out whether it has finished. Use '' @
        ''shell_output({ shellId }) only to read a shell that will not end on its own, '' @
        ''and shell_kill({ shellId }) to stop one.''])"

definition runningShellsBlock :: "(string \<Rightarrow> running_shell list) \<Rightarrow> rule" where
  "runningShellsBlock runningShells =
     \<lparr>rl_name = ''runningShellsBlock'',
      rl_apply = (\<lambda>input ctx. Inr
        (let shells = runningShells (rc_threadId ctx) in
         if shells = [] then input else appendedAtTail input ctx (runningShellsReminder shells)))\<rparr>"

record running_service =
  sv_serviceId :: string
  sv_command :: string
  sv_description :: "string option"
  sv_logPath :: string

definition serviceLine :: "running_service \<Rightarrow> string" where
  "serviceLine service =
     sv_serviceId service @ ''  '' @ shellLabel (sv_command service) (sv_description service) @
     ''  log: '' @ sv_logPath service"

definition runningServicesReminder :: "running_service list \<Rightarrow> string" where
  "runningServicesReminder services =
     wrapInSystemReminder (join [newline, newline]
       [''These services are running:'',
        join [newline] (map serviceLine services),
        ''They are infrastructure you work against, not work you are waiting on: no '' @
        ''completion is coming, and if one dies you will be told. Health-check one by '' @
        ''reading its log file (or piping it: '' @ [backtick] @
        ''atlas-svc logs <id> | grep ...'' @ [backtick] @
        '') or hitting its endpoint, never by polling service_list. service_stop({ id '' @
        ''}) stops one.''])"

definition runningServicesBlock :: "(unit \<Rightarrow> running_service list) \<Rightarrow> rule" where
  "runningServicesBlock runningServices =
     \<lparr>rl_name = ''runningServicesBlock'',
      rl_apply = (\<lambda>input ctx. Inr
        (let services = runningServices () in
         if services = [] then input else appendedAtTail input ctx (runningServicesReminder services)))\<rparr>"

record running_agent =
  ra_agentId :: string
  ra_agentType :: string
  ra_intent :: string

definition HOW_TO_WAIT :: string where
  "HOW_TO_WAIT =
     join '' ''
       [''Each one outlives this turn and hands you its report by itself, wherever you '' @
        ''are, so never poll to find out whether one has finished: agent_list can tell '' @
        ''you nothing about these that is not already written here.'',
        ''Ending your turn is how you wait '' @ [em_dash] @
        '' a sub-agent that ends while nothing is running opens a turn of its own to '' @
        ''deliver what it found.'',
        ''So if you have work that does not depend on them, do that work; if you are '' @
        ''only waiting, say what you are waiting for and end your turn, rather than '' @
        ''saying it and taking another step.'',
        ''Steer one with agent_say({ agentId, text }) and end one early with '' @
        ''agent_stop({ agentId }).'']"

definition agentLine :: "running_agent \<Rightarrow> string" where
  "agentLine agent = ra_agentId agent @ ''  '' @ agentLabel (ra_agentType agent) (ra_intent agent)"

definition runningAgentsReminder :: "running_agent list \<Rightarrow> string" where
  "runningAgentsReminder agents =
     wrapInSystemReminder (join [newline, newline]
       [''These sub-agents you spawned are still running:'',
        join [newline] (map agentLine agents),
        HOW_TO_WAIT])"

definition runningAgentsBlock :: "(string \<Rightarrow> running_agent list) \<Rightarrow> rule" where
  "runningAgentsBlock runningAgents =
     \<lparr>rl_name = ''runningAgentsBlock'',
      rl_apply = (\<lambda>input ctx. Inr
        (let agents = runningAgents (rc_threadId ctx) in
         if agents = [] then input else appendedAtTail input ctx (runningAgentsReminder agents)))\<rparr>"

section \<open>Where it runs\<close>

datatype e_execution_location = Host | Docker

record execution_environment =
  ee_location :: e_execution_location
  ee_mounts :: "string list"

definition surroundingsOf :: "e_execution_location \<Rightarrow> string" where
  "surroundingsOf location = (if location = Docker then ''a Docker container'' else ''a sandbox'')"

definition mountedNote :: "string list \<Rightarrow> string" where
  "mountedNote mounts =
     (if mounts = [] then
        ''A path outside the project is not mounted, so reading it will fail '' @ [em_dash] @
        '' that is the sandbox boundary, not a missing file.''
      else
        ''Also mounted: '' @ join '', '' mounts @
        ''. A path outside those and the project is not mounted, so reading it will '' @
        ''fail.'')"

definition executionLocationNote :: "execution_environment \<Rightarrow> string option" where
  "executionLocationNote environment =
     (if ee_location environment = Host then None
      else Some (wrapInSystemReminder (join '' ''
        [''You are executing inside '' @ surroundingsOf (ee_location environment) @
         '', not on the host.'',
         ''The project directory is mounted at its usual path, so paths inside it work '' @
         ''unchanged.'',
         mountedNote (ee_mounts environment),
         ''git config --global fails here because the mounted ~/.gitconfig is read-only '' @
         ''by design '' @ [em_dash] @
         '' git configuration is fixed in the sandbox launch environment, never by you '' @
         ''editing it.''])))"

definition executionLocationBlock :: "(string \<Rightarrow> execution_environment) \<Rightarrow> rule" where
  "executionLocationBlock executionLocation =
     \<lparr>rl_name = ''executionLocationBlock'',
      rl_apply = (\<lambda>input ctx. Inr
        (case executionLocationNote (executionLocation (rc_threadId ctx)) of
           None \<Rightarrow> input
         | Some note \<Rightarrow> appendedAtTail input ctx note))\<rparr>"

section \<open>The worktree\<close>

record active_worktree =
  aw_path :: string
  aw_branch :: string
  aw_base :: "string option"
  aw_adopted :: bool

definition activeFrom :: "event_body \<Rightarrow> active_worktree" where
  "activeFrom body =
     \<lparr>aw_path = eb_path body, aw_branch = eb_branch body, aw_base = eb_base body,
      aw_adopted = (eb_adopted body = Some True)\<rparr>"

text \<open>The loops from the last entry to the first, on the reversed bodies; \<open>active\<close> is what held before.\<close>

fun activeFromLast :: "active_worktree option \<Rightarrow> event_body list \<Rightarrow> active_worktree option" where
  "activeFromLast active [] = active"
| "activeFromLast active (body # earlier_ones) =
     (if is_WorktreeExited body then None
      else if is_WorktreeEntered body then Some (activeFrom body)
      else activeFromLast active earlier_ones)"

definition activeWorktreeOf :: "event list \<Rightarrow> active_worktree option" where
  "activeWorktreeOf events = activeFromLast None (rev (map ev_body events))"

definition activeWorktreeAfter ::
  "event_body list \<Rightarrow> active_worktree option \<Rightarrow> active_worktree option" where
  "activeWorktreeAfter drafts active = activeFromLast active (rev drafts)"

definition homeStep :: "string \<Rightarrow> event_body \<Rightarrow> string" where
  "homeStep home body =
     (if is_WorktreeExited body
      then (case eb_returnTo body of None \<Rightarrow> home | Some returnTo \<Rightarrow> returnTo) else home)"

definition homeDirectoryOf :: "event list \<Rightarrow> string \<Rightarrow> string" where
  "homeDirectoryOf events launchDirectory = foldl homeStep launchDirectory (map ev_body events)"

definition homeDirectoryAfter :: "event_body list \<Rightarrow> string \<Rightarrow> string" where
  "homeDirectoryAfter drafts home = foldl homeStep home drafts"

definition projectDirectoryOf :: "event list \<Rightarrow> string \<Rightarrow> string" where
  "projectDirectoryOf events launchDirectory =
     (case activeWorktreeOf events of
        Some tree \<Rightarrow> aw_path tree
      | None \<Rightarrow> homeDirectoryOf events launchDirectory)"

definition branchLineOf :: "active_worktree \<Rightarrow> string" where
  "branchLineOf tree =
     (if \<not> aw_adopted tree then
        ''on branch '' @ aw_branch tree @ '', branched from '' @
        (case aw_base tree of None \<Rightarrow> ''the default branch'' | Some base \<Rightarrow> base) @ ''.''
      else
        ''on branch '' @ aw_branch tree @ '', '' @
        (case aw_base tree of
           None \<Rightarrow> ''which has no upstream'' | Some base \<Rightarrow> ''which tracks '' @ base) @
        ''. It already existed before this session and Atlas did not create it.'')"

definition leavingLineOf :: "active_worktree \<Rightarrow> string" where
  "leavingLineOf tree =
     (if aw_adopted tree then
        ''Commit and push on this branch. exit_worktree returns the session to the '' @
        ''repository'' @ [squote] @
        ''s main checkout and leaves this worktree exactly where it is; it will not '' @
        ''remove a worktree Atlas did not create.''
      else
        ''Commit and push on this branch. exit_worktree returns the session to the '' @
        ''repository'' @ [squote] @
        ''s main checkout, keeping or removing this worktree as the developer asks.'')"

definition worktreeNote :: "active_worktree \<Rightarrow> string \<Rightarrow> string" where
  "worktreeNote tree mainCheckout =
     join '' ''
       [''You are working in a git worktree at '' @ aw_path tree @ '', '' @ branchLineOf tree,
        ''That worktree is the project directory: paths you pass to a tool resolve '' @
        ''against it and a bash command starts there.'',
        ''The repository this worktree belongs to is checked out at '' @ mainCheckout @
        ''; leave that checkout alone and reach it only with absolute paths.'',
        leavingLineOf tree]"

definition worktreeBlock :: "string \<Rightarrow> string option \<Rightarrow> rule" where
  "worktreeBlock launchDirectory repoRoot =
     \<lparr>rl_name = ''worktreeBlock'',
      rl_apply = (\<lambda>input ctx. Inr
        (case activeWorktreeOf (rc_events ctx) of
           None \<Rightarrow> input
         | Some tree \<Rightarrow>
             let mainCheckout = (case repoRoot of
                   Some root \<Rightarrow> root | None \<Rightarrow> homeDirectoryOf (rc_events ctx) launchDirectory)
             in input\<lparr>as_system := as_system input @ [plainBlock (worktreeNote tree mainCheckout)]\<rparr>))\<rparr>"

section \<open>The prompt\<close>

text \<open>The blocks a prompt source compiles for a project directory; compiling may throw.\<close>

type_synonym prompt_source = "string \<Rightarrow> string + system_block list"

definition systemPrompt :: "prompt_source \<Rightarrow> string \<Rightarrow> rule" where
  "systemPrompt prompt launchDirectory =
     \<lparr>rl_name = ''systemPrompt'',
      rl_apply = (\<lambda>input ctx.
        case prompt (projectDirectoryOf (rc_events ctx) launchDirectory) of
          Inl failure \<Rightarrow> Inl failure
        | Inr blocks \<Rightarrow> Inr (input\<lparr>as_system := as_system input @ blocks\<rparr>))\<rparr>"

section \<open>Reading the log in two parts\<close>

text \<open>What held before a batch of drafts and the batch give what holds after it.\<close>

lemma activeFromLast_append:
  "activeFromLast active (later @ earlier_ones) =
     activeFromLast (activeFromLast active earlier_ones) later"
  by (induction later) auto

lemma activeWorktree_parts:
  "activeWorktreeOf (events @ batch) = activeWorktreeAfter (map ev_body batch) (activeWorktreeOf events)"
  by (simp add: activeWorktreeOf_def activeWorktreeAfter_def activeFromLast_append)

lemma homeDirectory_parts:
  "homeDirectoryOf (events @ batch) launchDirectory =
     homeDirectoryAfter (map ev_body batch) (homeDirectoryOf events launchDirectory)"
  by (simp add: homeDirectoryOf_def homeDirectoryAfter_def)

text \<open>Following the worktree batch by batch is reading the whole log. The worktree a session stands in and
  the directory it goes home to, kept up to date with each batch of stamped drafts, are those read from
  the log that holds the batch.\<close>

theorem worktree_incremental:
  "activeWorktreeOf (events @ batch) = activeWorktreeAfter (map ev_body batch) (activeWorktreeOf events) \<and>
   homeDirectoryOf (events @ batch) launchDirectory =
     homeDirectoryAfter (map ev_body batch) (homeDirectoryOf events launchDirectory)"
  by (simp add: activeWorktree_parts homeDirectory_parts)

end
