(* ===== verification/Cache_Breakpoints.thy ===== *)
theory Cache_Breakpoints
  imports Message Ordered_Map
begin

text \<open>
  \<open>assembly/annotators/cache-breakpoints.ts\<close>: where a request is marked for the provider's prompt
  cache. The variables of \<open>cacheablePositions\<close> are the record \<open>positions\<close>; its two loops are one fold
  over all parts with their places. Spreading \<open>...options\<close> and then setting a key is \<open>map_put\<close>.
\<close>

section \<open>Definitions\<close>

definition ANTHROPIC_PROVIDER_ID :: string where "ANTHROPIC_PROVIDER_ID = ''anthropic''"

datatype e_cache_ttl = FiveMinutes | OneHour

fun ttlText :: "e_cache_ttl \<Rightarrow> string" where
  "ttlText FiveMinutes = ''5m''"
| "ttlText OneHour = ''1h''"

definition CACHE_BREAKPOINT_BUDGET :: int where "CACHE_BREAKPOINT_BUDGET = 4"

definition CACHE_ANCHOR_STRIDE_BLOCKS :: nat where "CACHE_ANCHOR_STRIDE_BLOCKS = 15"

definition CACHE_CONTROL_KEY :: string where "CACHE_CONTROL_KEY = ''cacheControl''"

record cache_breakpoint_options =
  cb_providerId :: string
  cb_systemTtl :: e_cache_ttl
  cb_messageTtl :: e_cache_ttl

definition DEFAULT_CACHE_OPTIONS :: cache_breakpoint_options where
  "DEFAULT_CACHE_OPTIONS =
     \<lparr>cb_providerId = ANTHROPIC_PROVIDER_ID, cb_systemTtl = OneHour, cb_messageTtl = FiveMinutes\<rparr>"

text \<open>The properties of an object, none where there is no object.\<close>

definition fieldsOf :: "json option \<Rightarrow> (string \<times> json) list" where
  "fieldsOf value = (case value of Some (JObject properties) \<Rightarrow> properties | _ \<Rightarrow> [])"

definition withCacheControl :: "json option \<Rightarrow> e_cache_ttl \<Rightarrow> json" where
  "withCacheControl options ttl =
     (let existing = fieldsOf (map_of (fieldsOf options) ANTHROPIC_PROVIDER_ID) in
      JObject (map_put ANTHROPIC_PROVIDER_ID
        (JObject (map_put CACHE_CONTROL_KEY
          (JObject [(''type'', JString ''ephemeral''), (''ttl'', JString (ttlText ttl))]) existing))
        (fieldsOf options)))"

definition markLastSystemBlock :: "system_block list \<Rightarrow> e_cache_ttl \<Rightarrow> system_block list" where
  "markLastSystemBlock blocks ttl =
     (if blocks = [] then blocks
      else butlast blocks @
        [(last blocks)\<lparr>sb_providerOptions :=
           Some (withCacheControl (sb_providerOptions (last blocks)) ttl)\<rparr>])"

type_synonym block_position = "nat \<times> nat"

record positions =
  cp_anchors :: "block_position list"
  cp_blocks :: nat
  cp_strideDue :: bool
  cp_tail :: "block_position option"

definition positionStep :: "positions \<Rightarrow> block_position \<times> message_part \<Rightarrow> positions" where
  "positionStep st = (\<lambda>(position, part).
     (let blocks = cp_blocks st + 1;
          strideDue = (cp_strideDue st \<or> blocks mod CACHE_ANCHOR_STRIDE_BLOCKS = 0)
      in if is_PartReasoning part then st\<lparr>cp_blocks := blocks, cp_strideDue := strideDue\<rparr>
         else if \<not> strideDue then
           st\<lparr>cp_blocks := blocks, cp_strideDue := False, cp_tail := Some position\<rparr>
         else \<lparr>cp_anchors = cp_anchors st @ [position], cp_blocks = blocks, cp_strideDue = False,
               cp_tail = Some position\<rparr>))"

definition partPositions :: "assembled_message list \<Rightarrow> (block_position \<times> message_part) list" where
  "partPositions messages =
     concat (map (\<lambda>(messageIndex, entry).
         map (\<lambda>(partIndex, part). ((messageIndex, partIndex), part))
           (enumerate 0 (partsOf (am_message entry))))
       (enumerate 0 messages))"

definition cacheablePositions :: "assembled_message list \<Rightarrow> positions" where
  "cacheablePositions messages =
     foldl positionStep \<lparr>cp_anchors = [], cp_blocks = 0, cp_strideDue = False, cp_tail = None\<rparr>
       (partPositions messages)"

definition breakpointPositions :: "assembled_message list \<Rightarrow> int \<Rightarrow> block_position list" where
  "breakpointPositions messages budget =
     (let found = cacheablePositions messages in
      case cp_tail found of
        None \<Rightarrow> []
      | Some tail \<Rightarrow>
          if budget < 1 then []
          else let upstream = filter (\<lambda>anchor. anchor \<noteq> tail) (cp_anchors found) in
            drop (nat (max 0 (int (length upstream) - (budget - 1)))) upstream @ [tail])"

definition marksByMessage :: "block_position list \<Rightarrow> nat \<rightharpoonup> nat set" where
  "marksByMessage positions =
     foldl (\<lambda>marks (messageIndex, partIndex).
         case marks messageIndex of
           None \<Rightarrow> marks(messageIndex \<mapsto> {partIndex})
         | Some parts \<Rightarrow> marks(messageIndex \<mapsto> insert partIndex parts))
       Map.empty positions"

fun markModelPart :: "e_cache_ttl \<Rightarrow> model_part \<Rightarrow> model_part" where
  "markModelPart ttl (ModelText part) =
     ModelText (part\<lparr>tp_providerOptions := Some (withCacheControl (tp_providerOptions part) ttl)\<rparr>)"
| "markModelPart ttl (ModelImage part) =
     ModelImage (part\<lparr>ip_providerOptions := Some (withCacheControl (ip_providerOptions part) ttl)\<rparr>)"

fun markSaidPart :: "e_cache_ttl \<Rightarrow> said_part \<Rightarrow> said_part" where
  "markSaidPart ttl (SaidText part) =
     SaidText (part\<lparr>tp_providerOptions := Some (withCacheControl (tp_providerOptions part) ttl)\<rparr>)"
| "markSaidPart ttl (SaidReasoning part) =
     SaidReasoning (part\<lparr>rp_providerOptions := Some (withCacheControl (rp_providerOptions part) ttl)\<rparr>)"
| "markSaidPart ttl (SaidCall part) =
     SaidCall (part\<lparr>tcp_providerOptions := Some (withCacheControl (tcp_providerOptions part) ttl)\<rparr>)"

definition markResultPart :: "e_cache_ttl \<Rightarrow> tool_result_part \<Rightarrow> tool_result_part" where
  "markResultPart ttl part =
     part\<lparr>trp_providerOptions := Some (withCacheControl (trp_providerOptions part) ttl)\<rparr>"

text \<open>\<open>content.map((part, index) => parts.has(index) ? mark(part) : part)\<close>.\<close>

definition markAt :: "nat set \<Rightarrow> ('a \<Rightarrow> 'a) \<Rightarrow> 'a list \<Rightarrow> 'a list" where
  "markAt parts mark content =
     map (\<lambda>(index, part). if index \<in> parts then mark part else part) (enumerate 0 content)"

fun markMessage :: "nat set \<Rightarrow> e_cache_ttl \<Rightarrow> message \<Rightarrow> message" where
  "markMessage parts ttl (UserMessage content options) =
     UserMessage (markAt parts (markModelPart ttl) content) options"
| "markMessage parts ttl (ToolMessage content options) =
     ToolMessage (markAt parts (markResultPart ttl) content) options"
| "markMessage parts ttl (AssistantMessage content options) =
     AssistantMessage (markAt parts (markSaidPart ttl) content) options"

definition markedMessages ::
  "(nat \<rightharpoonup> nat set) \<Rightarrow> e_cache_ttl \<Rightarrow> assembled_message list \<Rightarrow> assembled_message list" where
  "markedMessages marks ttl messages =
     map (\<lambda>(index, entry).
         case marks index of
           None \<Rightarrow> entry
         | Some parts \<Rightarrow> entry\<lparr>am_message := markMessage parts ttl (am_message entry)\<rparr>)
       (enumerate 0 messages)"

definition cacheBreakpoints :: "cache_breakpoint_options \<Rightarrow> annotator" where
  "cacheBreakpoints options =
     \<lparr>an_name = ''cacheBreakpoints'',
      an_apply = (\<lambda>input trace ctx. Inr
        (if pv_id (rc_provider ctx) \<noteq> cb_providerId options then input
         else let spentOnSystem = (if as_system input \<noteq> [] then 1 else 0) in
           \<lparr>as_system = markLastSystemBlock (as_system input) (cb_systemTtl options),
            as_messages = markedMessages
              (marksByMessage
                (breakpointPositions (as_messages input) (CACHE_BREAKPOINT_BUDGET - spentOnSystem)))
              (cb_messageTtl options) (as_messages input)\<rparr>))\<rparr>"

section \<open>How many marks there are\<close>

text \<open>The provider options of a part, and whether they carry a mark.\<close>

fun optionsOf :: "message_part \<Rightarrow> json option" where
  "optionsOf (PartText part) = tp_providerOptions part"
| "optionsOf (PartImage part) = ip_providerOptions part"
| "optionsOf (PartReasoning part) = rp_providerOptions part"
| "optionsOf (PartCall part) = tcp_providerOptions part"
| "optionsOf (PartResult part) = trp_providerOptions part"

definition marked :: "json option \<Rightarrow> bool" where
  "marked options \<longleftrightarrow>
     map_of (fieldsOf (map_of (fieldsOf options) ANTHROPIC_PROVIDER_ID)) CACHE_CONTROL_KEY \<noteq> None"

definition cacheMarks :: "assembled \<Rightarrow> nat" where
  "cacheMarks assembled =
     length (filter (\<lambda>block. marked (sb_providerOptions block)) (as_system assembled)) +
     length (filter (\<lambda>part. marked (optionsOf part))
       (concat (map (partsOf \<circ> am_message) (as_messages assembled))))"

lemma marked_withCacheControl: "marked (Some (withCacheControl options ttl))"
  by (simp add: marked_def withCacheControl_def fieldsOf_def Let_def map_of_put)

lemma breakpointPositions_length: "length (breakpointPositions messages budget) \<le> nat budget"
  by (simp add: breakpointPositions_def Let_def split: option.splits) linarith

text \<open>The same mark on a part whose message is not looked at.\<close>

fun markPart :: "e_cache_ttl \<Rightarrow> message_part \<Rightarrow> message_part" where
  "markPart ttl (PartText part) =
     PartText (part\<lparr>tp_providerOptions := Some (withCacheControl (tp_providerOptions part) ttl)\<rparr>)"
| "markPart ttl (PartImage part) =
     PartImage (part\<lparr>ip_providerOptions := Some (withCacheControl (ip_providerOptions part) ttl)\<rparr>)"
| "markPart ttl (PartReasoning part) =
     PartReasoning (part\<lparr>rp_providerOptions := Some (withCacheControl (rp_providerOptions part) ttl)\<rparr>)"
| "markPart ttl (PartCall part) =
     PartCall (part\<lparr>tcp_providerOptions := Some (withCacheControl (tcp_providerOptions part) ttl)\<rparr>)"
| "markPart ttl (PartResult part) = PartResult (markResultPart ttl part)"

lemma markPart_of [simp]:
  "partOfModel (markModelPart ttl m) = markPart ttl (partOfModel m)"
  "partOfSaid (markSaidPart ttl s) = markPart ttl (partOfSaid s)"
  by (cases m; simp) (cases s; simp)

lemma markAt_map:
  assumes "\<And>x. f (mark x) = mark' (f x)"
  shows "map f (markAt parts mark content) = markAt parts mark' (map f content)"
proof -
  have "map f (map (\<lambda>(i, x). if i \<in> parts then mark x else x) (enumerate n content)) =
      map (\<lambda>(i, x). if i \<in> parts then mark' x else x) (enumerate n (map f content))" for n
    by (induction content arbitrary: n) (simp_all add: assms)
  then show ?thesis by (simp add: markAt_def)
qed

lemma partsOf_markMessage:
  "partsOf (markMessage parts ttl message) = markAt parts (markPart ttl) (partsOf message)"
  by (cases message) (simp_all add: markAt_map [where mark' = "markPart ttl"])

lemma marksByMessage_iff:
  "marksByMessage positions i =
     (if \<exists>j. (i, j) \<in> set positions then Some {j. (i, j) \<in> set positions} else None)"
proof (induction positions rule: rev_induct)
  case (snoc position positions)
  obtain m p where "position = (m, p)" by fastforce
  with snoc show ?case
    by (auto simp: marksByMessage_def split: option.splits if_split_asm)
qed (simp add: marksByMessage_def)

lemma markedMessages_parts:
  "concat (map (partsOf \<circ> am_message) (markedMessages (marksByMessage positions) ttl messages)) =
     map (\<lambda>(position, part). if position \<in> set positions then markPart ttl part else part)
       (partPositions messages)"
proof -
  have one: "partsOf (am_message (case marksByMessage positions i of
        None \<Rightarrow> entry
      | Some parts \<Rightarrow> entry\<lparr>am_message := markMessage parts ttl (am_message entry)\<rparr>)) =
    map (\<lambda>(position, part). if position \<in> set positions then markPart ttl part else part)
      (map (\<lambda>(j, part). ((i, j), part)) (enumerate 0 (partsOf (am_message entry))))" for i entry
  proof (cases "\<exists>j. (i, j) \<in> set positions")
    case True
    then show ?thesis
      by (simp add: marksByMessage_iff partsOf_markMessage markAt_def split_beta comp_def)
  next
    case False
    have "map (\<lambda>x. snd x) (enumerate 0 xs) = xs" for xs :: "message_part list" by simp
    with False show ?thesis by (simp add: marksByMessage_iff split_beta comp_def)
  qed
  show ?thesis
    unfolding markedMessages_def partPositions_def map_concat
    by (simp add: comp_def split_beta one [unfolded split_beta] cong: if_cong)
qed

lemma partPositions_fst:
  "map fst (concat (map (\<lambda>(i, entry). map (\<lambda>(j, part). ((i, j), part))
      (enumerate 0 (partsOf (am_message entry)))) (enumerate n messages))) =
   concat (map (\<lambda>(i, entry). map (Pair i) [0..<length (partsOf (am_message entry))])
     (enumerate n messages))"
proof -
  have "map fst (map (\<lambda>(j, part). ((i, j), part)) (enumerate 0 parts)) = map (Pair i) [0..<length parts]"
    for i :: nat and parts :: "message_part list"
  proof -
    have "map fst (map (\<lambda>(j, part). ((i, j), part)) (enumerate 0 parts)) =
        map (Pair i \<circ> fst) (enumerate 0 parts)"
      by (simp add: split_beta comp_def)
    then show ?thesis by (simp only: map_map [symmetric] map_fst_enumerate) simp
  qed
  then show ?thesis by (induction messages arbitrary: n) simp_all
qed

lemma partPositions_distinct: "distinct (map fst (partPositions messages))"
proof -
  have "distinct (concat (map (\<lambda>(i, entry). map (Pair i) [0..<length (partsOf (am_message entry))])
      (enumerate n messages))) \<and>
    (\<forall>position \<in> set (concat (map (\<lambda>(i, entry). map (Pair i) [0..<length (partsOf (am_message entry))])
      (enumerate n messages))). n \<le> fst position)" for n
  proof (induction messages arbitrary: n)
    case (Cons entry messages)
    from Cons [of "Suc n"] show ?case by (fastforce simp: distinct_map inj_on_def)
  qed simp
  then show ?thesis unfolding partPositions_def partPositions_fst by blast
qed

lemma marked_count:
  assumes "distinct (map fst ps)"
  shows "length (filter Q (map (\<lambda>(position, x). if position \<in> set chosen then g x else x) ps)) \<le>
    length (filter Q (map snd ps)) + length chosen"
proof -
  have "length (filter Q (map (\<lambda>(position, x). if position \<in> set chosen then g x else x) ps)) \<le>
      length (filter Q (map snd ps)) + card (set chosen \<inter> fst ` set ps)"
    using assms
  proof (induction ps)
    case (Cons p ps)
    have "card (set chosen \<inter> fst ` set (p # ps)) =
        card (set chosen \<inter> fst ` set ps) + (if fst p \<in> set chosen then 1 else 0)"
      using Cons.prems by (simp add: Int_insert_right)
    with Cons show ?case by (auto simp: split_beta)
  qed simp
  also have "card (set chosen \<inter> fst ` set ps) \<le> length chosen"
    by (meson card_length card_mono finite_set inf_le1 le_trans)
  finally show ?thesis by simp
qed

lemma partPositions_parts:
  "map snd (partPositions messages) = concat (map (partsOf \<circ> am_message) messages)"
proof -
  have "map snd (concat (map (\<lambda>(i, entry). map (\<lambda>(j, part). ((i, j), part))
      (enumerate 0 (partsOf (am_message entry)))) (enumerate n messages))) =
    concat (map (partsOf \<circ> am_message) messages)" for n
    by (induction messages arbitrary: n) (simp_all add: split_beta comp_def)
  then show ?thesis by (simp add: partPositions_def)
qed

lemma marked_system:
  "length (filter (\<lambda>block. marked (sb_providerOptions block)) (markLastSystemBlock blocks ttl)) \<le>
     length (filter (\<lambda>block. marked (sb_providerOptions block)) blocks) + (if blocks = [] then 0 else 1)"
  by (cases blocks rule: rev_cases) (simp_all add: markLastSystemBlock_def)

text \<open>C15: a request is marked for the cache in at most four more places than it was, which is what the provider
  accepts: one for the system blocks and the rest for the messages, whatever the length of the thread.\<close>

theorem cacheBreakpoints_budget:
  "\<exists>assembled. an_apply (cacheBreakpoints options) input trace ctx = Inr assembled \<and>
     cacheMarks assembled \<le> cacheMarks input + 4"
proof (cases "pv_id (rc_provider ctx) = cb_providerId options")
  case True
  let ?spent = "if as_system input \<noteq> [] then 1 else 0 :: int"
  let ?positions = "breakpointPositions (as_messages input) (CACHE_BREAKPOINT_BUDGET - ?spent)"
  let ?messages = "markedMessages (marksByMessage ?positions) (cb_messageTtl options) (as_messages input)"
  have "length (filter (\<lambda>part. marked (optionsOf part)) (concat (map (partsOf \<circ> am_message) ?messages))) \<le>
      length (filter (\<lambda>part. marked (optionsOf part))
        (concat (map (partsOf \<circ> am_message) (as_messages input)))) + length ?positions"
    using marked_count [OF partPositions_distinct]
    unfolding markedMessages_parts partPositions_parts by blast
  moreover have "length ?positions + (if as_system input = [] then 0 else 1) \<le> 4"
    using breakpointPositions_length [of "as_messages input" "CACHE_BREAKPOINT_BUDGET - ?spent"]
    by (simp add: CACHE_BREAKPOINT_BUDGET_def split: if_splits)
  ultimately show ?thesis
    using True marked_system [of "as_system input" "cb_systemTtl options"]
    by (simp add: cacheBreakpoints_def cacheMarks_def Let_def split: if_split_asm)
qed (simp add: cacheBreakpoints_def)

end
