(* ===== verification/Compacted_History.thy ===== *)
theory Compacted_History
  imports Context_Blocks Watermark
begin

text \<open>
  \<open>assembly/rules/compacted-history.ts\<close>: the messages a summary covers leave the request and the
  summary takes their place. Splicing before the first later message is cutting there.
\<close>

definition COMPACTION_PREFACE :: "string" where
  "COMPACTION_PREFACE =
     ''Earlier turns of this conversation, compacted to save context:''"

definition compactionBlock :: "string \<Rightarrow> string" where
  "compactionBlock summary =
     wrapInSystemReminder (COMPACTION_PREFACE @ [newline, newline] @ summary)"

definition summaryMessage :: "event \<Rightarrow> assembled_message" where
  "summaryMessage watermark =
     \<lparr>am_message = userText (compactionBlock (eb_summary (ev_body watermark))),
      am_origin = originOf watermark\<rparr>"

definition outlivesCompaction :: "event list \<Rightarrow> nat set" where
  "outlivesCompaction events = ev_seq ` set (eventsOfType is_ContextLoaded events)"

definition covered :: "event \<Rightarrow> nat \<Rightarrow> bool" where
  "covered watermark seq \<longleftrightarrow>
     seq \<ge> eb_fromSeq (ev_body watermark) \<and> seq \<le> eb_throughSeq (ev_body watermark) \<and>
     seq \<noteq> ev_seq watermark"

definition spliced :: "assembled_message list \<Rightarrow> assembled_message \<Rightarrow> assembled_message list" where
  "spliced messages summary =
     takeWhile (\<lambda>entry. \<not> originSeq entry > originSeq summary) messages @ [summary] @
     dropWhile (\<lambda>entry. \<not> originSeq entry > originSeq summary) messages"

text \<open>What one watermark does to the messages.\<close>

definition compactedBy ::
  "nat set \<Rightarrow> assembled_message list \<Rightarrow> event \<Rightarrow> assembled_message list" where
  "compactedBy spared messages watermark =
     spliced (filter (\<lambda>entry. originSeq entry \<in> spared \<or> \<not> covered watermark (originSeq entry)) messages)
       (summaryMessage watermark)"

definition compactedHistory :: rule where
  "compactedHistory =
     \<lparr>rl_name = ''compactedHistory'',
      rl_apply = (\<lambda>input ctx. Inr
        (let watermarks = compactionWatermarks (rc_events ctx) in
         if watermarks = [] then input
         else \<lparr>as_system = as_system input,
               as_messages = foldl (compactedBy (outlivesCompaction (rc_events ctx)))
                 (as_messages input) watermarks\<rparr>))\<rparr>"

section \<open>What is left out\<close>

lemma compactedBy_set:
  "set (compactedBy spared messages watermark) =
     insert (summaryMessage watermark)
       {entry \<in> set messages. originSeq entry \<in> spared \<or> \<not> covered watermark (originSeq entry)}"
proof -
  have "set (takeWhile P xs) \<union> set (dropWhile P xs) = set xs" for P and xs :: "assembled_message list"
    by (metis set_append takeWhile_dropWhile_id)
  from this [of "\<lambda>entry. \<not> originSeq entry > originSeq (summaryMessage watermark)"]
  show ?thesis unfolding compactedBy_def spliced_def by simp
qed

text \<open>A message survives the summaries exactly when no summary covers it or its context is spared.\<close>

definition outlives :: "nat set \<Rightarrow> event list \<Rightarrow> nat \<Rightarrow> bool" where
  "outlives spared watermarks seq \<longleftrightarrow> seq \<in> spared \<or> (\<forall>w \<in> set watermarks. \<not> covered w seq)"

lemma compacted_kept:
  "entry \<in> set messages \<Longrightarrow> outlives spared watermarks (originSeq entry) \<Longrightarrow>
     entry \<in> set (foldl (compactedBy spared) messages watermarks)"
  by (induction watermarks arbitrary: messages) (auto simp: compactedBy_set outlives_def)

lemma compacted_only:
  "entry \<in> set (foldl (compactedBy spared) messages watermarks) \<Longrightarrow>
     (\<exists>w \<in> set watermarks. entry = summaryMessage w) \<or>
     entry \<in> set messages \<and> outlives spared watermarks (originSeq entry)"
proof (induction watermarks arbitrary: messages)
  case (Cons w ws)
  from Cons.IH [of "compactedBy spared messages w"] Cons.prems show ?case
    by (auto simp: compactedBy_set outlives_def)
qed (simp add: outlives_def)

end
