(* ===== verification/Agent_Endings.thy ===== *)
theory Agent_Endings
  imports Context_Blocks
begin

text \<open>
  \<open>assembly/rules/agent-endings-block.ts\<close>: what ended sub-agents reported, one message for each run of
  endings in the log, merged into the messages by sequence.
\<close>

section \<open>Definitions\<close>

definition AGENT_USER_STOPPED :: "string" where
  "AGENT_USER_STOPPED =
     ''The user stopped this agent deliberately; you did not, and nothing went wrong '' @
     ''with it. Do not spawn it again to finish what it was doing unless the user '' @
     ''asks.''"

definition LOST_AGENT :: "string" where
  "LOST_AGENT =
     ''Nobody stopped this agent: the session it was running in went away before it '' @
     ''could report. What it says here is only what it had said by then, and '' @
     ''whatever it was doing may be half-applied. Its thread is intact, so check the '' @
     ''work before redoing any of it, and let the user decide whether to resume it.''"

definition NOT_YOUR_HISTORY :: "string" where
  "NOT_YOUR_HISTORY =
     ''None of their own steps are in your history and none are coming: what each '' @
     ''one reports here is all of it.''"

definition reportOf :: "event_body \<Rightarrow> string" where
  "reportOf e =
     (let prose = trim (eb_prose e) in if prose = [] then ''It reported nothing.'' else prose)"

definition advice :: "event_body \<Rightarrow> string list" where
  "advice e =
     (if eb_killedBy e = Some ByUser then [AGENT_USER_STOPPED]
      else if eb_killedBy e = Some ByUnrecorded then [LOST_AGENT]
      else [])"

definition sectionOf :: "event_body \<Rightarrow> string" where
  "sectionOf e =
     join [newline, newline]
       ([''Agent '' @ eb_agentId e @ '' '' @ agentLabel (eb_agentType e) (eb_intent e) @ '' '' @
         agentEnding (eb_agentStatus e) (eb_turns e) (eb_toolCalls e) (eb_killedBy e) @ ''.''] @
        advice e @ [reportOf e])"

definition agentEndingsText :: "event list \<Rightarrow> string" where
  "agentEndingsText endings =
     tagged ''agents-ended''
       ((countedNoun (length endings) ''agent'' @ '' you spawned ended. '' @ NOT_YOUR_HISTORY) #
        map (\<lambda>event. sectionOf (ev_body event)) endings)"

text \<open>The loop of \<open>waves\<close>: the open wave is the one pushed last.\<close>

definition waveStep :: "event list list \<times> bool \<Rightarrow> event \<Rightarrow> event list list \<times> bool" where
  "waveStep = (\<lambda>(grouped, opened) event.
     if \<not> is_AgentEnded (ev_body event) then (grouped, False)
     else if \<not> opened then (grouped @ [[event]], True)
     else (butlast grouped @ [last grouped @ [event]], True))"

definition waves :: "event list \<Rightarrow> event list list" where
  "waves events = fst (foldl waveStep ([], False) events)"

text \<open>The messages up to the sequence of the first block, that block, and so on.\<close>

fun mergeBySeq :: "assembled_message list \<Rightarrow> assembled_message list \<Rightarrow> assembled_message list" where
  "mergeBySeq messages [] = messages"
| "mergeBySeq messages (block # blocks) =
     takeWhile (\<lambda>next_entry. \<not> originSeq next_entry > originSeq block) messages @ block #
     mergeBySeq (dropWhile (\<lambda>next_entry. \<not> originSeq next_entry > originSeq block) messages) blocks"

definition blockFor :: "event list \<Rightarrow> assembled_message list" where
  "blockFor endings =
     (if endings = [] then []
      else [\<lparr>am_message = userText (agentEndingsText endings), am_origin = originOf (last endings)\<rparr>])"

definition endingBlocks :: "event list \<Rightarrow> assembled_message list" where
  "endingBlocks events = concat (map blockFor (waves events))"

definition agentEndingsBlock :: rule where
  "agentEndingsBlock =
     \<lparr>rl_name = ''agentEndingsBlock'',
      rl_apply = (\<lambda>input ctx. Inr
        (if waves (rc_events ctx) = [] then input
         else \<lparr>as_system = as_system input,
               as_messages = mergeBySeq (as_messages input) (endingBlocks (rc_events ctx))\<rparr>))\<rparr>"

section \<open>Waves\<close>

text \<open>The waves are the maximal runs of endings: together they hold every ending, in order.\<close>

lemma waveStep_ends:
  assumes "snd st \<longrightarrow> fst st \<noteq> []"
  shows "concat (fst (waveStep st event)) =
      concat (fst st) @ (if is_AgentEnded (ev_body event) then [event] else []) \<and>
    (snd (waveStep st event) \<longrightarrow> fst (waveStep st event) \<noteq> [])"
proof (cases "fst st" rule: rev_cases)
  case Nil
  with assms show ?thesis by (cases st) (simp add: waveStep_def)
next
  case (snoc front final)
  then show ?thesis by (cases st) (simp add: waveStep_def)
qed

lemma waves_fold:
  assumes "snd st \<longrightarrow> fst st \<noteq> []"
  shows "concat (fst (foldl waveStep st events)) =
    concat (fst st) @ filter (\<lambda>event. is_AgentEnded (ev_body event)) events"
  using assms
proof (induction events arbitrary: st)
  case (Cons event events)
  from Cons.IH [of "waveStep st event"] show ?case
    using waveStep_ends [OF Cons.prems, of event] by simp
qed simp

lemma waves_concat: "concat (waves events) = filter (\<lambda>event. is_AgentEnded (ev_body event)) events"
  using waves_fold [of "([], False)" events] by (simp add: waves_def)

lemma waves_nonempty: "[] \<notin> set (waves events)"
proof -
  have "[] \<notin> set (fst (foldl waveStep st events))" if "[] \<notin> set (fst st)" for st
    using that
  proof (induction events arbitrary: st)
    case (Cons event events)
    have "[] \<notin> set (fst (waveStep st event))"
      using Cons.prems by (cases st) (auto simp: waveStep_def dest: in_set_butlastD)
    with Cons.IH show ?case by simp
  qed simp
  then show ?thesis by (simp add: waves_def)
qed

section \<open>The merge\<close>

lemma mergeBySeq_messages:
  assumes "\<forall>entry \<in> set messages. \<not> P entry" and "\<forall>block \<in> set blocks. P block"
  shows "filter (\<lambda>entry. \<not> P entry) (mergeBySeq messages blocks) = messages \<and>
    filter P (mergeBySeq messages blocks) = blocks"
  using assms
proof (induction messages blocks rule: mergeBySeq.induct)
  case (2 messages block blocks)
  let ?upTo = "\<lambda>next_entry. \<not> originSeq next_entry > originSeq block"
  have rest: "\<forall>entry \<in> set (dropWhile ?upTo messages). \<not> P entry"
    using "2.prems" set_dropWhileD by fast
  have first: "\<forall>entry \<in> set (takeWhile ?upTo messages). \<not> P entry"
    using "2.prems" set_takeWhileD by fast
  then have "filter (\<lambda>entry. \<not> P entry) (takeWhile ?upTo messages) = takeWhile ?upTo messages"
    and "filter P (takeWhile ?upTo messages) = []"
    by simp_all
  then show ?case using "2.IH" [OF rest] "2.prems" by (simp del: not_less)
qed auto

lemma mergeBySeq_set: "set (mergeBySeq messages blocks) = set messages \<union> set blocks"
proof (induction messages blocks rule: mergeBySeq.induct)
  case (2 messages block blocks)
  have "set messages = set (takeWhile (\<lambda>e. \<not> originSeq e > originSeq block) messages) \<union>
      set (dropWhile (\<lambda>e. \<not> originSeq e > originSeq block) messages)"
    by (metis set_append takeWhile_dropWhile_id)
  with 2 show ?case by auto
qed simp

end
