(* ===== verification/Image_Limits.thy ===== *)
theory Image_Limits
  imports Message "HOL-Library.Word" "HOL-Library.Signed_Division"
begin

text \<open>
  \<open>images/limits.ts\<close> with the types of \<open>images/projection.ts\<close>, and the two functions of
  \<open>images/attached.ts\<close> the assembly uses: what an image may cost and how large it says it is. A byte is
  an \<open>8 word\<close>. JavaScript's bit operators work on 32-bit integers: they are those of \<open>32 word\<close>, read
  with \<open>sint\<close> where the result is used as a number. A typed array ignores a write behind its end, as
  list update does.
\<close>

unbundle bit_operations_syntax

section \<open>Sizes and delivery\<close>

record image_size =
  width :: int
  height :: int

record image_facts =
  if_byteLength :: nat
  if_width :: "nat option"
  if_height :: "nat option"

datatype e_image_delivery = Inline | PathOnly

record delivery_plan =
  dp_delivery :: e_image_delivery
  dp_reason :: "string option"

definition MAX_INLINE_BYTES :: nat where "MAX_INLINE_BYTES = 5 * 1024 * 1024"

definition MAX_API_EDGE :: nat where "MAX_API_EDGE = 8000"

text \<open>\<open>(bytes / 1024 / 1024).toFixed(1)\<close>: dividing by a power of two is exact, and a tie is rounded up.\<close>

definition megabytes :: "nat \<Rightarrow> string" where
  "megabytes bytes =
     (let tenths = (20 * bytes + 1024 * 1024) div (2 * 1024 * 1024) in
      show_nat (tenths div 10) @ ''.'' @ show_nat (tenths mod 10) @ '' MB'')"

definition orZero :: "nat option \<Rightarrow> nat" where
  "orZero x = (case x of None \<Rightarrow> 0 | Some n \<Rightarrow> n)"

definition planDelivery :: "image_facts \<Rightarrow> delivery_plan" where
  "planDelivery facts =
     (let longEdge = max (orZero (if_width facts)) (orZero (if_height facts)) in
      if longEdge > MAX_API_EDGE then
        \<lparr>dp_delivery = PathOnly,
         dp_reason = Some (''its '' @ show_nat longEdge @ '' pixel long edge is past the '' @
           show_nat MAX_API_EDGE @ '' the API accepts'')\<rparr>
      else if if_byteLength facts > MAX_INLINE_BYTES then
        \<lparr>dp_delivery = PathOnly,
         dp_reason = Some (megabytes (if_byteLength facts) @ '' is past the '' @
           megabytes MAX_INLINE_BYTES @ '' inline limit'')\<rparr>
      else \<lparr>dp_delivery = Inline, dp_reason = None\<rparr>)"

text \<open>\<open>base64Bytes\<close>, \<open>imagePathLine\<close> and \<open>inlinable\<close> of \<open>attached.ts\<close>.\<close>

definition base64Bytes :: "string \<Rightarrow> nat" where
  "base64Bytes data = length data * 3 div 4"

definition imagePathLine :: "said_image \<Rightarrow> string" where
  "imagePathLine picture =
     (case (si_width picture, si_height picture) of
        (Some w, Some h) \<Rightarrow>
          ''[image '' @ si_path picture @ '' '' @ [middle_dot] @ '' '' @ show_nat w @ [times_sign] @
          show_nat h @ '']''
      | _ \<Rightarrow> ''[image '' @ si_path picture @ '']'')"

definition inlinable :: "said_image \<Rightarrow> bool" where
  "inlinable picture \<longleftrightarrow>
     dp_delivery (planDelivery
       \<lparr>if_byteLength = base64Bytes (si_data picture), if_width = si_width picture,
        if_height = si_height picture\<rparr>) = Inline"

section \<open>Reading bytes\<close>

text \<open>\<open>bytes[i] ?? 0\<close>.\<close>

definition byteAt :: "8 word list \<Rightarrow> nat \<Rightarrow> 32 word" where
  "byteAt bytes i = (case at bytes i of None \<Rightarrow> 0 | Some b \<Rightarrow> ucast b)"

definition readUint32BE :: "8 word list \<Rightarrow> nat \<Rightarrow> 32 word" where
  "readUint32BE bytes offset =
     push_bit 24 (byteAt bytes offset) OR push_bit 16 (byteAt bytes (offset + 1)) OR
     push_bit 8 (byteAt bytes (offset + 2)) OR byteAt bytes (offset + 3)"

definition readUint16BE :: "8 word list \<Rightarrow> nat \<Rightarrow> 32 word" where
  "readUint16BE bytes offset =
     push_bit 8 (byteAt bytes offset) OR byteAt bytes (offset + 1)"

definition readUint16LE :: "8 word list \<Rightarrow> nat \<Rightarrow> 32 word" where
  "readUint16LE bytes offset =
     byteAt bytes offset OR push_bit 8 (byteAt bytes (offset + 1))"

definition readUint24LE :: "8 word list \<Rightarrow> nat \<Rightarrow> 32 word" where
  "readUint24LE bytes offset =
     byteAt bytes offset OR push_bit 8 (byteAt bytes (offset + 1)) OR
     push_bit 16 (byteAt bytes (offset + 2))"

definition startsWithBytes :: "8 word list \<Rightarrow> 8 word list \<Rightarrow> bool" where
  "startsWithBytes bytes signature \<longleftrightarrow> prefix signature bytes"

definition ascii :: "8 word list \<Rightarrow> nat \<Rightarrow> nat \<Rightarrow> string" where
  "ascii bytes offset number = map (\<lambda>b. char_of (unat b)) (take number (drop offset bytes))"

definition PNG_SIGNATURE :: "8 word list" where
  "PNG_SIGNATURE = [0x89, 0x50, 0x4e, 0x47, 0x0d, 0x0a, 0x1a, 0x0a]"

definition pngSize :: "8 word list \<Rightarrow> image_size option" where
  "pngSize bytes =
     (if length bytes < 24 then None
      else if \<not> startsWithBytes bytes PNG_SIGNATURE then None
      else if ascii bytes 12 4 \<noteq> ''IHDR'' then None
      else Some \<lparr>width = sint (readUint32BE bytes 16), height = sint (readUint32BE bytes 20)\<rparr>)"

definition JPEG_SIZE_MARKERS :: "32 word list" where
  "JPEG_SIZE_MARKERS =
     [0xc0, 0xc1, 0xc2, 0xc3, 0xc5, 0xc6, 0xc7, 0xc9, 0xca, 0xcb, 0xcd, 0xce, 0xcf]"

function jpegLoop :: "8 word list \<Rightarrow> nat \<Rightarrow> image_size option" where
  "jpegLoop bytes offset =
     (if \<not> offset + 9 < length bytes then None
      else if byteAt bytes offset \<noteq> 0xff then jpegLoop bytes (offset + 1)
      else let marker = byteAt bytes (offset + 1) in
      if marker = 0xd8 \<or> marker = 0x01 \<or> (marker \<ge> 0xd0 \<and> marker \<le> 0xd7)
      then jpegLoop bytes (offset + 2)
      else if marker = 0xd9 \<or> marker = 0xda then None
      else let segmentLength = readUint16BE bytes (offset + 2) in
      if segmentLength < 2 then None
      else if marker \<in> set JPEG_SIZE_MARKERS then
        Some \<lparr>width = sint (readUint16BE bytes (offset + 7)),
              height = sint (readUint16BE bytes (offset + 5))\<rparr>
      else jpegLoop bytes (offset + 2 + unat segmentLength))"
  by pat_completeness auto
termination
  by (relation "measure (\<lambda>(bytes, offset). length bytes - offset)") auto

declare jpegLoop.simps [simp del]

definition jpegSize :: "8 word list \<Rightarrow> image_size option" where
  "jpegSize bytes =
     (if length bytes < 4 then None
      else if byteAt bytes 0 \<noteq> 0xff \<or> byteAt bytes 1 \<noteq> 0xd8 then None
      else jpegLoop bytes 2)"

definition gifSize :: "8 word list \<Rightarrow> image_size option" where
  "gifSize bytes =
     (if length bytes < 10 then None
      else if ascii bytes 0 6 \<noteq> ''GIF87a'' \<and> ascii bytes 0 6 \<noteq> ''GIF89a'' then None
      else Some \<lparr>width = sint (readUint16LE bytes 6), height = sint (readUint16LE bytes 8)\<rparr>)"

text \<open>The bytes of a word in the opposite order, as the source writes it for lossless WebP.\<close>

definition swapped :: "32 word \<Rightarrow> 32 word" where
  "swapped packed =
     (drop_bit 24 packed AND 0xff) OR push_bit 8 (drop_bit 16 packed AND 0xff) OR
     push_bit 16 (drop_bit 8 packed AND 0xff) OR push_bit 24 (packed AND 0xff)"

definition webpSize :: "8 word list \<Rightarrow> image_size option" where
  "webpSize bytes =
     (if length bytes < 30 then None
      else if ascii bytes 0 4 \<noteq> ''RIFF'' \<or> ascii bytes 8 4 \<noteq> ''WEBP'' then None
      else let chunk = ascii bytes 12 4 in
      if chunk = ''VP8 '' then
        Some \<lparr>width = sint (readUint16LE bytes 26 AND 0x3fff),
              height = sint (readUint16LE bytes 28 AND 0x3fff)\<rparr>
      else if chunk = ''VP8L'' then
        (let bits = swapped (readUint32BE bytes 21) in
         Some \<lparr>width = sint (bits AND 0x3fff) + 1,
               height = sint (drop_bit 14 bits AND 0x3fff) + 1\<rparr>)
      else if chunk = ''VP8X'' then
        Some \<lparr>width = sint (readUint24LE bytes 24) + 1, height = sint (readUint24LE bytes 27) + 1\<rparr>
      else None)"

text \<open>\<open>SUPPORTED_IMAGE_MEDIA_TYPES\<close> in the order \<open>imageMediaType\<close> tries them.\<close>

definition SUPPORTED_IMAGE_MEDIA_TYPES :: "string list" where
  "SUPPORTED_IMAGE_MEDIA_TYPES = [''image/png'', ''image/jpeg'', ''image/gif'', ''image/webp'']"

definition imageMediaType :: "8 word list \<Rightarrow> string option" where
  "imageMediaType bytes =
     (if pngSize bytes \<noteq> None then Some ''image/png''
      else if jpegSize bytes \<noteq> None then Some ''image/jpeg''
      else if gifSize bytes \<noteq> None then Some ''image/gif''
      else if webpSize bytes \<noteq> None then Some ''image/webp''
      else None)"

definition imageSize :: "8 word list \<Rightarrow> string \<Rightarrow> image_size option" where
  "imageSize bytes mediaType =
     (if mediaType = ''image/png'' then pngSize bytes
      else if mediaType = ''image/jpeg'' then jpegSize bytes
      else if mediaType = ''image/gif'' then gifSize bytes
      else if mediaType = ''image/webp'' then webpSize bytes
      else None)"

section \<open>Base64\<close>

definition BASE64_ALPHABET :: string where
  "BASE64_ALPHABET = ''ABCDEFGHIJKLMNOPQRSTUVWXYZabcdefghijklmnopqrstuvwxyz0123456789+/''"

text \<open>\<open>BASE64_VALUES.get(character)\<close>.\<close>

definition base64Value :: "char \<Rightarrow> nat option" where
  "base64Value character = indexOf character BASE64_ALPHABET"

fun base64Digits :: "string \<Rightarrow> nat list" where
  "base64Digits [] = []"
| "base64Digits (character # rest) =
     (case base64Value character of
        None \<Rightarrow> base64Digits rest
      | Some digit \<Rightarrow> digit # base64Digits rest)"

record decode_state =
  ds_bytes :: "8 word list"
  ds_accumulator :: "32 word"
  ds_bitsHeld :: nat
  ds_written :: nat

definition decodeStep :: "decode_state \<Rightarrow> nat \<Rightarrow> decode_state" where
  "decodeStep st digit =
     (let accumulator = push_bit 6 (ds_accumulator st) OR of_nat digit;
          bitsHeld = ds_bitsHeld st + 6
      in if bitsHeld < 8 then
           st\<lparr>ds_accumulator := accumulator, ds_bitsHeld := bitsHeld\<rparr>
         else
           \<lparr>ds_bytes = (ds_bytes st)[ds_written st :=
              ucast (signed_drop_bit (bitsHeld - 8) accumulator AND 0xff)],
            ds_accumulator = accumulator, ds_bitsHeld = bitsHeld - 8,
            ds_written = ds_written st + 1\<rparr>)"

definition decodeBase64 :: "string \<Rightarrow> 8 word list" where
  "decodeBase64 s =
     (let digits = base64Digits s in
      ds_bytes (foldl decodeStep
        \<lparr>ds_bytes = replicate (length digits * 6 div 8) 0, ds_accumulator = 0, ds_bitsHeld = 0,
         ds_written = 0\<rparr> digits))"

section \<open>Decoding is reading a stream of bits\<close>

text \<open>The reference: the digits as one number, cut into bytes from its most significant end.\<close>

definition bitStream :: "nat list \<Rightarrow> nat" where
  "bitStream digits = foldl (\<lambda>n digit. 64 * n + digit) 0 digits"

text \<open>How many bits the digits hold.\<close>

definition bitCount :: "nat list \<Rightarrow> nat" where
  "bitCount digits = 6 * length digits"

definition streamByte :: "nat list \<Rightarrow> nat \<Rightarrow> 8 word" where
  "streamByte digits k = of_nat (bitStream digits div 2 ^ (bitCount digits - 8 * (k + 1)))"

lemma bitStream_snoc: "bitStream (digits @ [digit]) = 64 * bitStream digits + digit"
  by (simp add: bitStream_def)

lemma bitCount_snoc: "bitCount (digits @ [digit]) = bitCount digits + 6"
  by (simp add: bitCount_def)

lemma base64Digits_less: "digit \<in> set (base64Digits s) \<Longrightarrow> digit < 64"
proof (induction s rule: base64Digits.induct)
  case (2 character rest)
  have "length BASE64_ALPHABET = 64" by (simp add: BASE64_ALPHABET_def)
  with 2 show ?case
    by (auto simp: base64Value_def split: option.splits dest!: indexOf_Some)
qed simp

text \<open>Only the low 14 bits of the accumulator are ever read, so its wrap-around is harmless.\<close>

lemma push_digit:
  assumes "digit < 64"
  shows "push_bit 6 (of_nat n :: 32 word) OR of_nat digit = of_nat (64 * n + digit)"
proof -
  have "64 * n + digit = push_bit 6 n OR digit"
  proof -
    have high: "\<not> bit digit i" if "6 \<le> i" for i
      using that assms bit_take_bit_iff [of 6 digit i] by (simp add: take_bit_nat_eq_self)
    have "push_bit 6 n AND digit = 0" by (rule bit_eqI) (auto simp: bit_simps high)
    then show ?thesis using disjunctive_add_eq_or [of "push_bit 6 n" digit] by (simp add: push_bit_eq_mult mult.commute)
  qed
  then show ?thesis by (simp only: of_nat_or_eq push_bit_of_nat)
qed

lemma read_byte:
  assumes "m \<le> 6"
  shows "ucast (signed_drop_bit m (of_nat n :: 32 word) AND 0xff) = (of_nat (n div 2 ^ m) :: 8 word)"
proof (rule bit_word_eqI)
  fix i assume i: "i < LENGTH(8)"
  have "(0xff :: 32 word) = mask 8" by (simp add: mask_eq_exp_minus_1)
  moreover have "bit (mask 8 :: 32 word) i" using i unfolding bit_mask_iff by simp
  ultimately have "bit (0xff :: 32 word) i" by metis
  then show "bit (ucast (signed_drop_bit m (of_nat n :: 32 word) AND 0xff) :: 8 word) i =
      bit (of_nat (n div 2 ^ m) :: 8 word) i"
    using i assms by (auto simp: bit_simps min_def bit_drop_bit_eq simp flip: drop_bit_eq_div)
qed

text \<open>The loop invariant: what is held is the part of the stream not yet written.\<close>

definition decodes :: "nat list \<Rightarrow> nat \<Rightarrow> decode_state \<Rightarrow> bool" where
  "decodes digits room st \<longleftrightarrow>
     ds_accumulator st = of_nat (bitStream digits) \<and>
     ds_written st = bitCount digits div 8 \<and> ds_bitsHeld st = bitCount digits mod 8 \<and>
     length (ds_bytes st) = room \<and>
     (\<forall>k < ds_written st. k < room \<longrightarrow> ds_bytes st ! k = streamByte digits k)"

lemma streamByte_snoc:
  assumes "k < bitCount digits div 8" and "digit < 64"
  shows "streamByte (digits @ [digit]) k = streamByte digits k"
proof -
  have exponent: "bitCount (digits @ [digit]) - 8 * (k + 1) = 6 + (bitCount digits - 8 * (k + 1))"
    using assms(1) unfolding bitCount_snoc by simp
  have "(64 * n + digit) div 2 ^ (6 + e) = n div 2 ^ e" for n e :: nat
  proof -
    have "(64 * n + digit) div 2 ^ (6 + e) = ((64 * n + digit) div 64) div 2 ^ e"
      by (simp add: power_add div_mult2_eq)
    then show ?thesis using assms(2) by simp
  qed
  then show ?thesis unfolding streamByte_def bitStream_snoc exponent by simp
qed

lemma held_bits:
  fixes n :: nat
  obtains q r where "n = 8 * q + r" and "r < 8"
  by (metis mod_less_divisor mult_div_mod_eq zero_less_numeral)

lemma div_mod_8: "r < 8 \<Longrightarrow> (8 * q + r) div 8 = q \<and> (8 * q + r) mod 8 = r" for q r :: nat
  by (simp add: div_add1_eq)

lemma kept_bits:
  fixes n :: nat
  assumes "n mod 8 + 6 < 8"
  shows "(n + 6) div 8 = n div 8 \<and> (n + 6) mod 8 = n mod 8 + 6"
proof -
  obtain q r where "n = 8 * q + r" "r < 8" by (rule held_bits)
  with assms div_mod_8 [of r q] div_mod_8 [of "r + 6" q] show ?thesis by (simp add: add.assoc)
qed

lemma written_bits:
  fixes n :: nat
  assumes "\<not> n mod 8 + 6 < 8"
  shows "(n + 6) div 8 = n div 8 + 1 \<and> (n + 6) mod 8 = n mod 8 + 6 - 8 \<and>
    n mod 8 + 6 - 8 \<le> 6 \<and> n + 6 - 8 * (n div 8 + 1) = n mod 8 + 6 - 8"
proof -
  obtain q r where n: "n = 8 * q + r" "r < 8" by (rule held_bits)
  with assms div_mod_8 [of r q] have r: "2 \<le> r" by simp
  then have "n + 6 = 8 * (q + 1) + (r - 2)" using n by simp
  then have "(n + 6) div 8 = q + 1 \<and> (n + 6) mod 8 = r - 2"
    using n(2) div_mod_8 [of "r - 2" "q + 1"] by simp
  moreover have "n div 8 = q \<and> n mod 8 = r" using n div_mod_8 [of r q] by simp
  ultimately show ?thesis using n r by simp
qed

lemma decodes_step:
  assumes "decodes digits room st" and "digit < 64"
  shows "decodes (digits @ [digit]) room (decodeStep st digit)"
proof -
  let ?n = "bitCount digits"
  have acc: "push_bit 6 (ds_accumulator st) OR of_nat digit = of_nat (bitStream (digits @ [digit]))"
    using assms by (simp add: decodes_def push_digit bitStream_snoc)
  have old: "\<forall>k < ?n div 8. k < room \<longrightarrow> ds_bytes st ! k = streamByte (digits @ [digit]) k"
    using assms by (simp add: decodes_def streamByte_snoc)
  show ?thesis
  proof (cases "?n mod 8 + 6 < 8")
    case True
    from kept_bits [OF this]
    have "(?n + 6) div 8 = ?n div 8" and "(?n + 6) mod 8 = ?n mod 8 + 6" by blast+
    then show ?thesis
      using True assms(1) acc old by (simp add: decodes_def decodeStep_def Let_def bitCount_snoc)
  next
    case False
    from written_bits [OF this]
    have written: "(?n + 6) div 8 = ?n div 8 + 1"
      and held: "(?n + 6) mod 8 = ?n mod 8 + 6 - 8"
      and small: "?n mod 8 + 6 - 8 \<le> 6"
      and exponent: "?n + 6 - 8 * (?n div 8 + 1) = ?n mod 8 + 6 - 8" by blast+
    have byte: "ucast (signed_drop_bit (?n mod 8 + 6 - 8)
        (of_nat (bitStream (digits @ [digit])) :: 32 word) AND 0xff)
      = streamByte (digits @ [digit]) (?n div 8)"
      unfolding read_byte [OF small] streamByte_def bitCount_snoc exponent by (rule refl)
    have "ds_bytes (decodeStep st digit) =
        (ds_bytes st)[?n div 8 := streamByte (digits @ [digit]) (?n div 8)]"
      using False assms(1) acc byte by (simp add: decodes_def decodeStep_def Let_def)
    moreover have "ds_written (decodeStep st digit) = ?n div 8 + 1"
      and "ds_bitsHeld (decodeStep st digit) = ?n mod 8 + 6 - 8"
      and "ds_accumulator (decodeStep st digit) = of_nat (bitStream (digits @ [digit]))"
      using False assms(1) acc by (simp_all add: decodes_def decodeStep_def Let_def)
    ultimately show ?thesis
      using assms(1) old written held
      unfolding decodes_def bitCount_snoc by (auto simp: nth_list_update less_Suc_eq)
  qed
qed

lemma decodes_all:
  "\<forall>digit \<in> set digits. digit < 64 \<Longrightarrow>
   decodes digits room (foldl decodeStep
     \<lparr>ds_bytes = replicate room 0, ds_accumulator = 0, ds_bitsHeld = 0, ds_written = 0\<rparr> digits)"
proof (induction digits rule: rev_induct)
  case Nil
  then show ?case by (simp add: decodes_def bitStream_def bitCount_def)
next
  case (snoc digit digits)
  then show ?case using decodes_step by simp
qed

text \<open>C16: the base64 decoder reads a stream of bits. Whatever the text, its bytes are those of the number its
  digits spell, cut from the most significant end, eight bits at a time, with what is left over at the
  end dropped: the 32-bit accumulator that overflows on the way loses nothing that is read.\<close>

theorem decodeBase64_stream:
  "decodeBase64 s =
     map (\<lambda>k. of_nat (bitStream (base64Digits s) div
         2 ^ (6 * length (base64Digits s) - 8 * (k + 1))))
       [0..<6 * length (base64Digits s) div 8]"
proof (rule nth_equalityI)
  let ?digits = "base64Digits s" and ?room = "length (base64Digits s) * 6 div 8"
  have state: "decodes ?digits ?room (foldl decodeStep
      \<lparr>ds_bytes = replicate ?room 0, ds_accumulator = 0, ds_bitsHeld = 0, ds_written = 0\<rparr> ?digits)"
    by (rule decodes_all) (simp add: base64Digits_less)
  then show "length (decodeBase64 s) = length (map (\<lambda>k. of_nat (bitStream ?digits div
      2 ^ (6 * length ?digits - 8 * (k + 1))) :: 8 word) [0..<6 * length ?digits div 8])"
    by (simp add: decodes_def decodeBase64_def Let_def mult.commute)
  fix k assume "k < length (decodeBase64 s)"
  with state have "k < 6 * length ?digits div 8" and "decodeBase64 s ! k = streamByte ?digits k"
    by (simp_all add: decodes_def decodeBase64_def Let_def mult.commute bitCount_def)
  then show "decodeBase64 s ! k = map (\<lambda>k. of_nat (bitStream ?digits div
      2 ^ (6 * length ?digits - 8 * (k + 1)))) [0..<6 * length ?digits div 8] ! k"
    by (simp add: streamByte_def bitCount_def)
qed

section \<open>How large an image may say it is\<close>

lemma byteAt_high: "8 \<le> n \<Longrightarrow> \<not> bit (byteAt bytes i) n"
  by (auto simp: byteAt_def bit_simps split: option.splits dest: bit_imp_le_length)

lemma low_bits:
  fixes w :: "32 word"
  assumes "\<And>n. k \<le> n \<Longrightarrow> n < 32 \<Longrightarrow> \<not> bit w n" and "k < 32"
  shows "0 \<le> sint w \<and> sint w < 2 ^ k"
proof -
  have "take_bit k w = w"
  proof (rule bit_word_eqI)
    fix n assume "n < LENGTH(32)"
    then show "bit (take_bit k w) n = bit w n"
      using assms(1) [of n] by (cases "k \<le> n") (auto simp: bit_take_bit_iff)
  qed
  then have "uint w = take_bit k (uint w)" by (metis unsigned_take_bit_eq)
  then have "uint w < 2 ^ k" by (metis take_bit_int_less_exp)
  moreover have "(2 :: int) ^ k \<le> 2 ^ 31" using assms(2) by (intro power_increasing) auto
  ultimately have "uint w < 2 ^ 31" by linarith
  then have "sint w = uint w"
    using signed_take_bit_int_eq_self [of 31 "uint w"] uint_ge_0 [of w] by (simp add: sint_uint)
  with \<open>uint w < 2 ^ k\<close> show ?thesis by simp
qed

lemmas read_simps = readUint16BE_def readUint16LE_def readUint24LE_def bit_or_iff bit_push_bit_iff
  bit_and_iff byteAt_high

lemma read16: 
  "0 \<le> sint (readUint16BE bytes i) \<and> sint (readUint16BE bytes i) < 2 ^ 16"
  "0 \<le> sint (readUint16LE bytes i) \<and> sint (readUint16LE bytes i) < 2 ^ 16"
  by (rule low_bits; simp add: read_simps)+

lemma read24: "0 \<le> sint (readUint24LE bytes i) \<and> sint (readUint24LE bytes i) < 2 ^ 24"
  by (rule low_bits; simp add: read_simps)

lemma masked14: "0 \<le> sint (w AND 0x3fff :: 32 word) \<and> sint (w AND 0x3fff) < 2 ^ 14"
proof (rule low_bits)
  have "(0x3fff :: 32 word) = mask 14" by (simp add: mask_eq_exp_minus_1)
  then show "\<not> bit (w AND 0x3fff) n" if "14 \<le> n" for n
    using that by (metis bit_and_iff bit_mask_iff not_less)
qed simp

lemma jpegLoop_bounds:
  "jpegLoop bytes offset = Some found \<Longrightarrow>
     0 \<le> width found \<and> width found < 2 ^ 16 \<and> 0 \<le> height found \<and> height found < 2 ^ 16"
proof (induction bytes offset rule: jpegLoop.induct)
  case (1 bytes offset)
  from "1.prems" show ?case
    apply (subst (asm) jpegLoop.simps)
    using read16 "1.IH" by (auto simp: Let_def split: if_split_asm)
qed

definition edges :: "int \<Rightarrow> image_size \<Rightarrow> bool" where
  "edges bound found \<longleftrightarrow>
     0 \<le> width found \<and> width found \<le> bound \<and> 0 \<le> height found \<and> height found \<le> bound"

lemma jpegSize_edges: "jpegSize bytes = Some found \<Longrightarrow> edges 65535 found"
  using jpegLoop_bounds [of bytes 2 found]
  by (auto simp: jpegSize_def edges_def split: if_split_asm)

lemma gifSize_edges: "gifSize bytes = Some found \<Longrightarrow> edges 65535 found"
  using read16(2) [of bytes 6] read16(2) [of bytes 8]
  by (auto simp: gifSize_def edges_def split: if_split_asm)

lemma webpSize_edges: "webpSize bytes = Some found \<Longrightarrow> edges 16777216 found"
  using masked14 [of "readUint16LE bytes 26"] masked14 [of "readUint16LE bytes 28"]
    masked14 [of "swapped (readUint32BE bytes 21)"]
    masked14 [of "drop_bit 14 (swapped (readUint32BE bytes 21))"]
    read24 [of bytes 24] read24 [of bytes 27]
  by (auto simp: webpSize_def edges_def Let_def split: if_split_asm)

text \<open>An image that is not a PNG never claims a negative size or one past 2^24 on an edge, and a JPEG or a
  GIF none past 2^16, whatever its bytes: the reads are of two or three bytes. The search through the
  segments of a JPEG always ends.\<close>

theorem imageSize_bounds:
  assumes "imageSize bytes mediaType = Some found" and "mediaType \<noteq> ''image/png''"
  shows "0 \<le> width found \<and> width found \<le> 2 ^ 24 \<and> 0 \<le> height found \<and> height found \<le> 2 ^ 24 \<and>
    (mediaType \<noteq> ''image/webp'' \<longrightarrow> width found < 2 ^ 16 \<and> height found < 2 ^ 16)"
proof -
  consider "jpegSize bytes = Some found" "mediaType = ''image/jpeg''"
    | "gifSize bytes = Some found" "mediaType = ''image/gif''"
    | "webpSize bytes = Some found" "mediaType = ''image/webp''"
    using assms by (auto simp: imageSize_def split: if_split_asm)
  then show ?thesis
    using jpegSize_edges [of bytes found] gifSize_edges [of bytes found] webpSize_edges [of bytes found]
    by cases (auto simp: edges_def)
qed

lemma imageSize_bounds_witness:
  "imageSize [0x47, 0x49, 0x46, 0x38, 0x39, 0x61, 2, 0, 1, 0] ''image/gif'' =
     Some \<lparr>width = 2, height = 1\<rparr> \<and>
   width \<lparr>width = 2, height = 1\<rparr> < 2 ^ 16"
proof -
  have found: "imageSize [0x47, 0x49, 0x46, 0x38, 0x39, 0x61, 2, 0, 1, 0] ''image/gif'' =
      Some \<lparr>width = 2, height = 1\<rparr>"
    by code_simp
  from imageSize_bounds [OF found] have "width \<lparr>width = 2, height = 1\<rparr> < 2 ^ 16" by simp
  with found show ?thesis by simp
qed

end
