(* ===== verification/Images_In_Context.thy ===== *)
theory Images_In_Context
  imports Image_Limits
begin

text \<open>
  \<open>assembly/rules/images.ts\<close>: only so many images are sent, and the oldest give way to a line of text.
  The counter inside \<open>downgrades\<close> is passed along as the number of images already claimed.
\<close>

section \<open>Definitions\<close>

definition MAX_IMAGE_BLOCKS :: int where "MAX_IMAGE_BLOCKS = 20"

definition describedSize :: "image_part \<Rightarrow> string" where
  "describedSize part =
     (let size_found = (case (ip_width part, ip_height part) of
            (Some w, Some h) \<Rightarrow> Some \<lparr>width = int w, height = int h\<rparr>
          | _ \<Rightarrow> imageSize (decodeBase64 (ip_data part)) (ip_mediaType part))
      in case size_found of
           None \<Rightarrow> ip_mediaType part
         | Some found \<Rightarrow>
             ip_mediaType part @ '' '' @ show_int (width found) @ [times_sign] @ show_int (height found))"

definition described :: "image_part \<Rightarrow> string" where
  "described part =
     (case ip_source part of
        None \<Rightarrow> describedSize part
      | Some source \<Rightarrow> source @ '' '' @ [middle_dot] @ '' '' @ describedSize part)"

definition withoutPixels :: "image_part \<Rightarrow> text_part" where
  "withoutPixels part = plainText (''[image dropped from context: '' @ described part @ '']'')"

definition imagesInParts :: "model_part list \<Rightarrow> nat" where
  "imagesInParts parts = length (filter is_ModelImage parts)"

definition imagesInResult :: "tool_result_part \<Rightarrow> nat" where
  "imagesInResult part =
     (case trp_output part of OutContent parts \<Rightarrow> imagesInParts parts | _ \<Rightarrow> 0)"

fun imagesInMessage :: "message \<Rightarrow> nat" where
  "imagesInMessage (UserMessage content _) = imagesInParts content"
| "imagesInMessage (ToolMessage content _) = sum_list (map imagesInResult content)"
| "imagesInMessage (AssistantMessage _ _) = 0"

text \<open>Each function returns the number claimed so far beside its result; \<open>allowance\<close> is what may be claimed.\<close>

fun downgradedParts :: "nat \<Rightarrow> nat \<Rightarrow> model_part list \<Rightarrow> nat \<times> model_part list" where
  "downgradedParts allowance claimed [] = (claimed, [])"
| "downgradedParts allowance claimed (ModelText part # parts) =
     (let (claimed', rest) = downgradedParts allowance claimed parts in
      (claimed', ModelText part # rest))"
| "downgradedParts allowance claimed (ModelImage part # parts) =
     (if claimed \<ge> allowance then
        (let (claimed', rest) = downgradedParts allowance claimed parts in
         (claimed', ModelImage part # rest))
      else
        (let (claimed', rest) = downgradedParts allowance (claimed + 1) parts in
         (claimed', ModelText (withoutPixels part) # rest)))"

definition downgradedResult :: "nat \<Rightarrow> nat \<Rightarrow> tool_result_part \<Rightarrow> nat \<times> tool_result_part" where
  "downgradedResult allowance claimed part =
     (case trp_output part of
        OutContent parts \<Rightarrow>
          if imagesInParts parts = 0 then (claimed, part)
          else (let (claimed', parts') = downgradedParts allowance claimed parts in
            (claimed', part\<lparr>trp_output := OutContent parts'\<rparr>))
      | _ \<Rightarrow> (claimed, part))"

fun downgradedResults ::
  "nat \<Rightarrow> nat \<Rightarrow> tool_result_part list \<Rightarrow> nat \<times> tool_result_part list" where
  "downgradedResults allowance claimed [] = (claimed, [])"
| "downgradedResults allowance claimed (part # parts) =
     (let (claimed', part') = downgradedResult allowance claimed part;
          (claimed'', rest) = downgradedResults allowance claimed' parts
      in (claimed'', part' # rest))"

fun downgradedMessage :: "nat \<Rightarrow> nat \<Rightarrow> message \<Rightarrow> nat \<times> message" where
  "downgradedMessage allowance claimed (UserMessage content options) =
     (let (claimed', content') = downgradedParts allowance claimed content in
      (claimed', UserMessage content' options))"
| "downgradedMessage allowance claimed (ToolMessage content options) =
     (let (claimed', content') = downgradedResults allowance claimed content in
      (claimed', ToolMessage content' options))"
| "downgradedMessage allowance claimed (AssistantMessage content options) =
     (claimed, AssistantMessage content options)"

definition downgradedEntry ::
  "nat \<Rightarrow> nat \<Rightarrow> assembled_message \<Rightarrow> nat \<times> assembled_message" where
  "downgradedEntry allowance claimed entry =
     (if imagesInMessage (am_message entry) = 0 then (claimed, entry)
      else (let (claimed', message) = downgradedMessage allowance claimed (am_message entry) in
        (claimed', entry\<lparr>am_message := message\<rparr>)))"

fun downgradedEntries ::
  "nat \<Rightarrow> nat \<Rightarrow> assembled_message list \<Rightarrow> assembled_message list" where
  "downgradedEntries allowance claimed [] = []"
| "downgradedEntries allowance claimed (entry # entries) =
     (let (claimed', entry') = downgradedEntry allowance claimed entry in
      entry' # downgradedEntries allowance claimed' entries)"

definition imageAllowance :: "int \<Rightarrow> assembled_message list \<Rightarrow> int" where
  "imageAllowance limit messages =
     int (sum_list (map (\<lambda>entry. imagesInMessage (am_message entry)) messages)) - max 0 limit"

definition imagesInContext :: "int \<Rightarrow> rule" where
  "imagesInContext limit =
     \<lparr>rl_name = ''imagesInContext'',
      rl_apply = (\<lambda>input ctx. Inr
        (let allowance = imageAllowance limit (as_messages input) in
         if allowance \<le> 0 then input
         else \<lparr>as_system = as_system input,
               as_messages = downgradedEntries (nat allowance) 0 (as_messages input)\<rparr>))\<rparr>"

section \<open>Which images are left\<close>

text \<open>The images of a message, in order.\<close>

definition partImages :: "model_part list \<Rightarrow> image_part list" where
  "partImages parts = concat (map (\<lambda>part. case part of ModelImage picture \<Rightarrow> [picture] | _ \<Rightarrow> []) parts)"

definition resultImages :: "tool_result_part \<Rightarrow> image_part list" where
  "resultImages part = (case trp_output part of OutContent parts \<Rightarrow> partImages parts | _ \<Rightarrow> [])"

fun messageImages :: "message \<Rightarrow> image_part list" where
  "messageImages (UserMessage content _) = partImages content"
| "messageImages (ToolMessage content _) = concat (map resultImages content)"
| "messageImages (AssistantMessage _ _) = []"

definition imagesSent :: "assembled_message list \<Rightarrow> image_part list" where
  "imagesSent messages = concat (map (messageImages \<circ> am_message) messages)"

lemma imagesInParts_length: "imagesInParts parts = length (partImages parts)"
  by (induction parts) (auto simp: imagesInParts_def partImages_def split: model_part.splits)

lemma imagesInResult_length: "imagesInResult part = length (resultImages part)"
  by (simp add: imagesInResult_def resultImages_def imagesInParts_length split: tool_result_output.splits)

lemma imagesInMessage_length: "imagesInMessage message = length (messageImages message)"
proof -
  have "imagesInResult = length \<circ> resultImages" by (rule ext) (simp add: imagesInResult_length)
  then show ?thesis by (cases message) (simp_all add: imagesInParts_length length_concat)
qed

text \<open>What a stage of the walk does to the images it meets: those still to be claimed go, the others stay.\<close>

definition claims_from :: "nat \<Rightarrow> nat \<Rightarrow> nat \<Rightarrow> image_part list \<Rightarrow> image_part list \<Rightarrow> bool" where
  "claims_from allowance claimed claimed' before after \<longleftrightarrow>
     after = drop (allowance - claimed) before \<and>
     allowance - claimed' = allowance - claimed - length before"

lemma claims_none [simp]: "claims_from allowance claimed claimed [] []"
  by (simp add: claims_from_def)

lemma claims_append:
  "claims_from allowance claimed claimed' before after \<Longrightarrow>
   claims_from allowance claimed' claimed'' before' after' \<Longrightarrow>
   claims_from allowance claimed claimed'' (before @ before') (after @ after')"
  by (simp add: claims_from_def)

lemma downgradedParts_claims:
  "downgradedParts allowance claimed parts = (claimed', parts') \<Longrightarrow>
     claims_from allowance claimed claimed' (partImages parts) (partImages parts')"
proof (induction allowance claimed parts arbitrary: claimed' parts' rule: downgradedParts.induct)
  case (2 allowance claimed part parts)
  then show ?case by (auto simp: partImages_def split: prod.splits)
next
  case (3 allowance claimed part parts)
  show ?case
  proof (cases "claimed \<ge> allowance")
    case True
    with "3.prems" obtain rest where rest: "downgradedParts allowance claimed parts = (claimed', rest)"
      and "parts' = ModelImage part # rest" by (auto split: prod.splits)
    with "3.IH"(1) [OF True rest] True show ?thesis by (simp add: claims_from_def partImages_def)
  next
    case False
    with "3.prems" obtain rest where rest: "downgradedParts allowance (claimed + 1) parts = (claimed', rest)"
      and "parts' = ModelText (withoutPixels part) # rest" by (auto split: prod.splits)
    moreover obtain more where "allowance - claimed = Suc more" and "allowance - (claimed + 1) = more"
      using False by (metis Suc_diff_Suc not_le Suc_eq_plus1)
    ultimately show ?thesis
      using "3.IH"(2) [OF False rest] by (simp add: claims_from_def partImages_def)
  qed
qed (simp add: partImages_def)

lemma downgradedResult_claims:
  assumes "downgradedResult allowance claimed part = (claimed', part')"
  shows "claims_from allowance claimed claimed' (resultImages part) (resultImages part') \<and>
    trp_toolCallId part' = trp_toolCallId part"
proof (cases "trp_output part")
  case (OutContent parts)
  then show ?thesis
    using assms downgradedParts_claims [of allowance claimed parts]
    by (auto simp: downgradedResult_def resultImages_def imagesInParts_length split: if_split_asm prod.splits)
qed (use assms in \<open>auto simp: downgradedResult_def resultImages_def\<close>)

lemma downgradedResults_claims:
  "downgradedResults allowance claimed parts = (claimed', parts') \<Longrightarrow>
     claims_from allowance claimed claimed' (concat (map resultImages parts)) (concat (map resultImages parts')) \<and>
     map trp_toolCallId parts' = map trp_toolCallId parts"
proof (induction allowance claimed parts arbitrary: claimed' parts' rule: downgradedResults.induct)
  case (2 allowance claimed part parts)
  then obtain middle part' rest where
    "downgradedResult allowance claimed part = (middle, part')"
    "downgradedResults allowance middle parts = (claimed', rest)" "parts' = part' # rest"
    by (auto split: prod.splits)
  with downgradedResult_claims "2.IH" show ?case by (fastforce intro: claims_append)
qed simp

lemma downgradedMessage_claims:
  "downgradedMessage allowance claimed message = (claimed', message') \<Longrightarrow>
     claims_from allowance claimed claimed' (messageImages message) (messageImages message') \<and>
     callsMade message' = callsMade message \<and>
     map trp_toolCallId (resultsCarried message') = map trp_toolCallId (resultsCarried message) \<and>
     roleText message' = roleText message \<and> length (partsOf message') = length (partsOf message)"
proof (induction allowance claimed message rule: downgradedMessage.induct)
  case (1 allowance claimed content options)
  have "length (snd (downgradedParts allowance claimed content)) = length content"
    by (induction allowance claimed content rule: downgradedParts.induct) (auto split: prod.splits)
  with 1 show ?case by (auto dest: downgradedParts_claims split: prod.splits)
next
  case (2 allowance claimed content options)
  from 2 obtain content' where parts: "downgradedResults allowance claimed content = (claimed', content')"
    and "message' = ToolMessage content' options" by (auto split: prod.splits)
  moreover have "length content' = length content"
    using downgradedResults_claims [OF parts] by (metis length_map)
  ultimately show ?case using downgradedResults_claims [OF parts] by simp
qed auto

lemma downgradedEntry_claims:
  assumes "downgradedEntry allowance claimed entry = (claimed', entry')"
  shows "claims_from allowance claimed claimed' (messageImages (am_message entry))
      (messageImages (am_message entry'))"
proof (cases "imagesInMessage (am_message entry) = 0")
  case True
  with assms have "claimed' = claimed" and "entry' = entry" and "messageImages (am_message entry) = []"
    by (simp_all add: downgradedEntry_def imagesInMessage_length)
  then show ?thesis by simp
next
  case False
  with assms show ?thesis
    using downgradedMessage_claims [of allowance claimed "am_message entry"]
    by (auto simp: downgradedEntry_def split: prod.splits)
qed

lemma downgradedEntries_images:
  "imagesSent (downgradedEntries allowance claimed entries) =
     drop (allowance - claimed) (imagesSent entries)"
proof (induction allowance claimed entries rule: downgradedEntries.induct)
  case (2 allowance claimed entry entries)
  obtain claimed' entry' where entry: "downgradedEntry allowance claimed entry = (claimed', entry')"
    by fastforce
  with downgradedEntry_claims [OF entry] "2.IH" [OF entry [symmetric] refl]
  show ?case by (simp add: imagesSent_def claims_from_def)
qed (simp add: imagesSent_def)

lemma imageAllowance_images: "imageAllowance limit messages = int (length (imagesSent messages)) - max 0 limit"
  by (simp add: imageAllowance_def imagesSent_def imagesInMessage_length length_concat comp_def)

text \<open>C14: at most as many images as the limit are sent, and they are the newest: the images left in the request
  are exactly the last ones of those there were.\<close>

theorem imagesInContext_newest:
  "\<exists>assembled. rl_apply (imagesInContext limit) input ctx = Inr assembled \<and>
     imagesSent (as_messages assembled) = last_n (nat limit) (imagesSent (as_messages input))"
proof (cases "imageAllowance limit (as_messages input) \<le> 0")
  case True
  then have "length (imagesSent (as_messages input)) \<le> nat limit" by (simp add: imageAllowance_images)
  with True show ?thesis by (simp add: imagesInContext_def Let_def last_n_def)
next
  case False
  then have "nat (imageAllowance limit (as_messages input)) =
      length (imagesSent (as_messages input)) - nat limit"
    by (simp add: imageAllowance_images)
  with False show ?thesis by (simp add: imagesInContext_def Let_def downgradedEntries_images last_n_def)
qed

end
