(* ===== verification/Call_Ids.thy ===== *)
theory Call_Ids
  imports Projections
begin

text \<open>
  \<open>events/dedupe-call-ids.ts\<close>: making the ids of tool calls unique where drafts enter the log. The
  \<open>while\<close> loop of \<open>freshCallId\<close> stops because the taken ids are a finite set, here a list used as a
  set; the two mutable collections of \<open>dedupeCallIds\<close> are the accumulators of its loop.
\<close>

section \<open>Definitions\<close>

definition withSuffix :: "string \<Rightarrow> nat \<Rightarrow> string" where
  "withSuffix oldId number = oldId @ ''~'' @ show_nat number"

lemma show_nat_inj: "show_nat m = show_nat n \<Longrightarrow> m = n"
proof (induction m arbitrary: n rule: less_induct)
  case (less m)
  have digits: "digit_char a = digit_char b \<Longrightarrow> a mod 10 = b mod 10" for a b :: nat
  proof -
    assume "digit_char a = digit_char b"
    moreover have "distinct ''0123456789''" by simp
    moreover have "a mod 10 < length ''0123456789''" "b mod 10 < length ''0123456789''" by simp_all
    ultimately show ?thesis unfolding digit_char_def by (metis nth_eq_iff_index_eq)
  qed
  have nonempty: "show_nat k \<noteq> []" for k by (simp add: show_nat.simps [of k])
  consider "m < 10" "n < 10" | "m < 10" "\<not> n < 10" | "\<not> m < 10" "n < 10" | "\<not> m < 10" "\<not> n < 10"
    by blast
  then show ?case
  proof cases
    case 1
    then have "digit_char m = digit_char n"
      using less.prems by (simp add: show_nat.simps [of m] show_nat.simps [of n])
    with digits 1 show ?thesis by fastforce
  next
    case 2
    then have "show_nat (n div 10) = []"
      using less.prems by (simp add: show_nat.simps [of m] show_nat.simps [of n])
    with nonempty show ?thesis by blast
  next
    case 3
    then show ?thesis
      using less.prems nonempty by (simp add: show_nat.simps [of m] show_nat.simps [of n])
  next
    case 4
    then have "show_nat (m div 10) = show_nat (n div 10)" and "digit_char m = digit_char n"
      using less.prems by (simp_all add: show_nat.simps [of m] show_nat.simps [of n])
    moreover have "m div 10 < m" using 4 by simp
    ultimately have "m div 10 = n div 10" and "m mod 10 = n mod 10"
      using less.IH digits by blast+
    then show ?thesis by (metis div_mult_mod_eq)
  qed
qed

lemma withSuffix_inj: "inj (withSuffix oldId)"
  by (rule injI) (auto simp: withSuffix_def dest: show_nat_inj)

text \<open>How many of the taken ids the search can still run into, from a number on.\<close>

definition suffixesTaken :: "string \<Rightarrow> string list \<Rightarrow> nat \<Rightarrow> nat set" where
  "suffixesTaken oldId taken number = {n. number \<le> n \<and> withSuffix oldId n \<in> set taken}"

lemma finite_suffixesTaken: "finite (suffixesTaken oldId taken number)"
proof -
  have "finite (withSuffix oldId -` set taken)"
    by (rule finite_vimageI) (simp_all add: withSuffix_inj)
  then show ?thesis by (rule finite_subset [rotated]) (auto simp: suffixesTaken_def)
qed

function freshFrom :: "string \<Rightarrow> string list \<Rightarrow> nat \<Rightarrow> string" where
  "freshFrom oldId taken number =
     (if withSuffix oldId number \<in> set taken then freshFrom oldId taken (number + 1)
      else withSuffix oldId number)"
  by pat_completeness auto
termination
proof (relation "measure (\<lambda>(oldId, taken, number). card (suffixesTaken oldId taken number))", simp, clarsimp)
  fix oldId taken number
  assume "withSuffix oldId number \<in> set taken"
  then have "number \<in> suffixesTaken oldId taken number" by (simp add: suffixesTaken_def)
  moreover have "suffixesTaken oldId taken (Suc number) \<subseteq> suffixesTaken oldId taken number - {number}"
    by (auto simp: suffixesTaken_def)
  ultimately show "card (suffixesTaken oldId taken (Suc number)) < card (suffixesTaken oldId taken number)"
    by (meson card_Diff1_less card_mono finite_Diff finite_suffixesTaken le_less_trans)
qed

declare freshFrom.simps [simp del]

definition freshCallId :: "string \<Rightarrow> string list \<Rightarrow> string" where
  "freshCallId oldId taken = freshFrom oldId taken 2"

definition withCallId :: "string \<Rightarrow> event_body \<Rightarrow> event_body" where
  "withCallId callId draft =
     (case draft of
        ToolCalled _ name input ordinal \<Rightarrow> ToolCalled callId name input ordinal
      | ToolResult _ name output modelText modelParts error interrupted \<Rightarrow>
          ToolResult callId name output modelText modelParts error interrupted
      | ToolDenied _ name reason interrupted \<Rightarrow> ToolDenied callId name reason interrupted
      | ApprovalRequested _ reason \<Rightarrow> ApprovalRequested callId reason
      | ApprovalAnswered _ decision editedInput \<Rightarrow> ApprovalAnswered callId decision editedInput
      | other \<Rightarrow> other)"

definition followsCall :: "event_body \<Rightarrow> bool" where
  "followsCall draft \<longleftrightarrow>
     is_ToolResult draft \<or> is_ToolDenied draft \<or> is_ApprovalRequested draft \<or>
     is_ApprovalAnswered draft"

fun renameCalls ::
  "string list \<Rightarrow> (string \<times> string) list \<Rightarrow> event_body list \<Rightarrow> event_body list" where
  "renameCalls used opens [] = []"
| "renameCalls used opens (draft # drafts) =
     (if is_ToolCalled draft then
        let oldId = eb_callId draft;
            callId = (if oldId \<in> set used then freshCallId oldId used else oldId)
        in (if callId = oldId then draft else withCallId callId draft) #
           renameCalls (callId # used) (map_put oldId callId opens) drafts
      else if followsCall draft then
        (case map_of opens (eb_callId draft) of
           None \<Rightarrow> draft # renameCalls used opens drafts
         | Some renamed \<Rightarrow>
             (if renamed = eb_callId draft then draft else withCallId renamed draft) #
             renameCalls used
               (if settlesCall draft then map_del (eb_callId draft) opens else opens) drafts)
      else draft # renameCalls used opens drafts)"

definition dedupeCallIds :: "event_body list \<Rightarrow> string list \<Rightarrow> event_body list" where
  "dedupeCallIds drafts taken = renameCalls taken [] drafts"

definition callIdsIn :: "event list \<Rightarrow> string list" where
  "callIdsIn events =
     map (\<lambda>event. eb_callId (ev_body event))
       (filter (\<lambda>event. is_ToolCalled (ev_body event) \<or> followsCall (ev_body event)) events)"

section \<open>Fresh ids are fresh, and renamed calls are distinct\<close>

lemma freshFrom_fresh: "freshFrom oldId taken number \<notin> set taken"
  by (induction oldId taken number rule: freshFrom.induct)
    (subst freshFrom.simps, simp)

lemma freshCallId_fresh: "freshCallId oldId taken \<notin> set taken"
  by (simp add: freshCallId_def freshFrom_fresh)

definition calledIds :: "event_body list \<Rightarrow> string list" where
  "calledIds drafts = map eb_callId (filter is_ToolCalled drafts)"

lemma withCallId_kept [simp]:
  "is_ToolCalled (withCallId callId draft) = is_ToolCalled draft"
  "followsCall (withCallId callId draft) = followsCall draft"
  "settlesCall (withCallId callId draft) = settlesCall draft"
  by (cases draft; simp add: withCallId_def followsCall_def settlesCall_def)+

lemma withCallId_id [simp]:
  "is_ToolCalled draft \<or> followsCall draft \<Longrightarrow> eb_callId (withCallId callId draft) = callId"
  by (cases draft) (simp_all add: withCallId_def followsCall_def)

lemma not_call_and_follower: "is_ToolCalled draft \<Longrightarrow> \<not> followsCall draft"
  by (cases draft) (simp_all add: followsCall_def)

lemma renameCalls_distinct:
  "distinct (calledIds (renameCalls used opens drafts)) \<and>
   set (calledIds (renameCalls used opens drafts)) \<inter> set used = {}"
proof (induction used opens drafts rule: renameCalls.induct)
  case (2 used opens draft drafts)
  let ?id = "eb_callId draft"
  let ?new = "if ?id \<in> set used then freshCallId ?id used else ?id"
  show ?case
  proof (cases "is_ToolCalled draft")
    case True
    then have "calledIds (renameCalls used opens (draft # drafts))
        = ?new # calledIds (renameCalls (?new # used) (map_put ?id ?new opens) drafts)"
      by (simp add: calledIds_def Let_def)
    moreover have "?new \<notin> set used" by (simp add: freshCallId_fresh)
    ultimately show ?thesis using "2.IH"(1) [OF True refl refl] by auto
  next
    case call: False
    show ?thesis
    proof (cases "followsCall draft")
      case False
      then show ?thesis using call "2.IH"(4) by (simp add: calledIds_def)
    next
      case True
      show ?thesis
      proof (cases "map_of opens ?id")
        case None
        then show ?thesis using call True "2.IH"(2) by (simp add: calledIds_def)
      next
        case (Some renamed)
        then show ?thesis using call True "2.IH"(3) by (simp add: calledIds_def)
      qed
    qed
  qed
qed (simp add: calledIds_def)

lemma renameCalls_length: "length (renameCalls used opens drafts) = length drafts"
  by (induction used opens drafts rule: renameCalls.induct)
    (auto simp: Let_def split: option.splits)

text \<open>C31: no call id is used twice. After deduplication the calls of a batch carry distinct ids, none of which
  was taken before, and no draft is lost.\<close>

theorem dedupeCallIds_unique:
  "distinct (calledIds (dedupeCallIds drafts taken)) \<and>
   set (calledIds (dedupeCallIds drafts taken)) \<inter> set taken = {} \<and>
   length (dedupeCallIds drafts taken) = length drafts"
  by (simp add: dedupeCallIds_def renameCalls_distinct renameCalls_length)

lemma freshFrom_least:
  "\<exists>n\<ge>number. freshFrom oldId taken number = withSuffix oldId n \<and>
     withSuffix oldId n \<notin> set taken \<and> (\<forall>m. number \<le> m \<and> m < n \<longrightarrow> withSuffix oldId m \<in> set taken)"
proof (induction oldId taken number rule: freshFrom.induct)
  case (1 oldId taken number)
  show ?case
  proof (cases "withSuffix oldId number \<in> set taken")
    case True
    then obtain n where n: "number + 1 \<le> n" "freshFrom oldId taken (number + 1) = withSuffix oldId n"
      "withSuffix oldId n \<notin> set taken"
      "\<forall>m. number + 1 \<le> m \<and> m < n \<longrightarrow> withSuffix oldId m \<in> set taken"
      using 1 by blast
    then have "m = number \<or> number + 1 \<le> m" if "number \<le> m" for m using that by auto
    with n True show ?thesis
      by (subst freshFrom.simps) (metis add_leD1)
  next
    case False
    then show ?thesis by (subst freshFrom.simps) auto
  qed
qed

text \<open>C39: the search for a fresh id ends, at the least suffix from 2 on that is not taken.\<close>

theorem freshCallId_least:
  "\<exists>n\<ge>2. freshCallId oldId taken = withSuffix oldId n \<and> withSuffix oldId n \<notin> set taken \<and>
     {2..<n} = {m \<in> {2..<n}. withSuffix oldId m \<in> set taken}"
  using freshFrom_least [of 2 oldId taken] unfolding freshCallId_def by fastforce

end
