(* ===== verification/Messages_From_Events.thy ===== *)
theory Messages_From_Events
  imports Context_Blocks Image_Limits Call_Ids
begin

text \<open>
  \<open>assembly/rules/messages-from-events.ts\<close>: the log turned into the messages of a request. The mutable
  variables of \<open>walkEvents\<close> are the record \<open>walk\<close> and one event is one \<open>walkStep\<close>. \<open>openAssistant\<close>
  is \<open>undefined\<close> or the group pushed last, so it is a truth value. The map of settlements is only read
  with \<open>get\<close>, and the map of open ids has the empty array where it has no entry: both are functions.
\<close>

section \<open>Rendering calls and results\<close>

record group =
  gr_message :: message
  gr_origin :: event_ref

record settled_call =
  sc_part :: tool_result_part
  sc_origin :: event_ref

definition NOTHING_TO_SAY :: string where
  "NOTHING_TO_SAY = ''(no output)''"

definition UNSETTLED_CALL :: string where
  "UNSETTLED_CALL = ''This tool call did not complete and produced no result.''"

definition readableText :: "string \<Rightarrow> string" where
  "readableText s = (if trim s = [] then NOTHING_TO_SAY else s)"

text \<open>Outputs are what a log holds: JSON, so neither a big integer nor a number that is not finite.\<close>

definition renderOutput :: "json option \<Rightarrow> string" where
  "renderOutput output =
     (case output of
        None \<Rightarrow> NOTHING_TO_SAY
      | Some JNull \<Rightarrow> NOTHING_TO_SAY
      | Some (JString s) \<Rightarrow> readableText s
      | Some value \<Rightarrow> stringify value)"

definition toolCallPart :: "event_body \<Rightarrow> string \<Rightarrow> tool_call_part" where
  "toolCallPart body callId =
     \<lparr>tcp_toolCallId = callId, tcp_toolName = eb_name body, tcp_input = eb_input body,
      tcp_providerOptions = None\<rparr>"

definition unsettledResult :: "tool_call_part \<Rightarrow> tool_result_part" where
  "unsettledResult call =
     \<lparr>trp_toolCallId = tcp_toolCallId call, trp_toolName = tcp_toolName call,
      trp_output = OutErrorText UNSETTLED_CALL, trp_providerOptions = None\<rparr>"

definition settlementOutput :: "event_body \<Rightarrow> tool_result_output" where
  "settlementOutput body =
     (if is_ToolDenied body then OutErrorText (eb_reason body)
      else (case eb_error body of
          Some message \<Rightarrow> OutErrorText message
        | None \<Rightarrow>
            (case eb_modelParts body of
               Some (part # parts) \<Rightarrow> OutContent (part # parts)
             | _ \<Rightarrow>
                 (case eb_modelText body of
                    Some modelText \<Rightarrow> OutText (readableText modelText)
                  | None \<Rightarrow> OutText (renderOutput (eb_result body))))))"

definition toolResultPart :: "event_body \<Rightarrow> string \<Rightarrow> tool_result_part" where
  "toolResultPart body callId =
     \<lparr>trp_toolCallId = callId, trp_toolName = eb_name body, trp_output = settlementOutput body,
      trp_providerOptions = None\<rparr>"

section \<open>What the operator said\<close>

definition shownImage :: "said_image \<Rightarrow> image_part" where
  "shownImage picture =
     \<lparr>ip_data = si_data picture, ip_mediaType = si_mediaType picture,
      ip_source = Some (si_path picture), ip_width = si_width picture,
      ip_height = si_height picture, ip_providerOptions = None\<rparr>"

definition saidImages :: "event_body \<Rightarrow> said_image list" where
  "saidImages body = (case eb_images body of None \<Rightarrow> [] | Some pictures \<Rightarrow> pictures)"

definition userSaidContent :: "event_body \<Rightarrow> model_part list" where
  "userSaidContent body =
     (let shown = filter inlinable (saidImages body);
          named = filter (\<lambda>picture. \<not> inlinable picture) (saidImages body)
      in ModelText (plainText (join [newline] (eb_text body # map imagePathLine named))) #
         map (ModelImage \<circ> shownImage) shown)"

fun saidPart :: "assistant_part \<Rightarrow> said_part" where
  "saidPart (AssistantText part) = SaidText part"
| "saidPart (AssistantReasoning part) = SaidReasoning part"

section \<open>Walking the log\<close>

record walk =
  wk_groups :: "group list"
  wk_settlements :: "string \<rightharpoonup> settled_call"
  wk_claimed :: "string list"
  wk_unavailable :: "string list"
  wk_open :: "string \<Rightarrow> string list"
  wk_openAssistant :: bool

definition appendCall :: "group list \<Rightarrow> event \<Rightarrow> bool \<Rightarrow> string \<Rightarrow> group list" where
  "appendCall groups event openAssistant callId =
     (let part = SaidCall (toolCallPart (ev_body event) callId) in
      if openAssistant \<and> groups \<noteq> [] \<and> is_AssistantMessage (gr_message (last groups)) then
        butlast groups @
          [(last groups)\<lparr>gr_message :=
             AssistantMessage (saidContent (gr_message (last groups)) @ [part]) None\<rparr>]
      else groups @ [\<lparr>gr_message = AssistantMessage [part] None, gr_origin = originOf event\<rparr>])"

definition emittedId :: "walk \<Rightarrow> string \<Rightarrow> string" where
  "emittedId st callId =
     (if callId \<in> set (wk_claimed st) then freshCallId callId (wk_unavailable st) else callId)"

definition walkCall :: "event \<Rightarrow> walk \<Rightarrow> walk" where
  "walkCall event st =
     (let callId = eb_callId (ev_body event); emitted = emittedId st callId in
      st\<lparr>wk_claimed := emitted # wk_claimed st,
         wk_unavailable := emitted # wk_unavailable st,
         wk_open := (wk_open st)(callId := wk_open st callId @ [emitted]),
         wk_groups := appendCall (wk_groups st) event (wk_openAssistant st) emitted,
         wk_openAssistant := True\<rparr>)"

definition walkSettlement :: "event \<Rightarrow> walk \<Rightarrow> walk" where
  "walkSettlement event st =
     (let callId = eb_callId (ev_body event);
          opened = wk_open st callId;
          settledId = (if opened = [] then callId else last opened)
      in st\<lparr>wk_open := (wk_open st)(callId := butlast opened),
            wk_settlements := (wk_settlements st)(settledId \<mapsto>
              \<lparr>sc_part = toolResultPart (ev_body event) settledId, sc_origin = originOf event\<rparr>)\<rparr>)"

definition pushUser :: "event \<Rightarrow> model_part list \<Rightarrow> walk \<Rightarrow> walk" where
  "pushUser event content st =
     st\<lparr>wk_groups := wk_groups st @
       [\<lparr>gr_message = UserMessage content None, gr_origin = originOf event\<rparr>]\<rparr>"

definition blockContent :: "string \<Rightarrow> model_part list" where
  "blockContent s = [ModelText (plainText s)]"

definition walkStep :: "string set \<Rightarrow> string set \<Rightarrow> walk \<Rightarrow> event \<Rightarrow> walk" where
  "walkStep current nudging st event =
     (let body = ev_body event; closed = st\<lparr>wk_openAssistant := False\<rparr> in
      case body of
        AssistantSaid parts _ \<Rightarrow>
          st\<lparr>wk_groups := wk_groups st @
               [\<lparr>gr_message = AssistantMessage (map saidPart parts) None, gr_origin = originOf event\<rparr>],
             wk_openAssistant := True\<rparr>
      | ToolCalled _ _ _ _ \<Rightarrow> walkCall event st
      | UserSaid _ _ _ \<Rightarrow> pushUser event (userSaidContent body) closed
      | ContextLoaded slot key content _ \<Rightarrow>
          if ev_id event \<notin> current then closed
          else pushUser event (blockContent (contextBlock slot key content)) closed
      | NudgeSent _ _ \<Rightarrow>
          if ev_id event \<notin> nudging then closed
          else pushUser event (blockContent (nudgeBlock body)) closed
      | BackgroundShellEnded _ _ _ _ _ _ _ _ _ \<Rightarrow>
          pushUser event (blockContent (backgroundShellBlock body)) closed
      | BackgroundShellAwaitingInput _ _ _ _ _ _ \<Rightarrow>
          pushUser event (blockContent (backgroundShellAwaitingInputBlock body)) closed
      | BackgroundShellMatched _ _ _ _ _ _ _ \<Rightarrow>
          pushUser event (blockContent (backgroundShellMatchedBlock body)) closed
      | BackgroundShellStillRunning _ _ _ _ _ _ _ \<Rightarrow>
          pushUser event (blockContent (backgroundShellStillRunningBlock body)) closed
      | ServiceEnded _ _ _ _ _ _ _ _ \<Rightarrow>
          pushUser event (blockContent (serviceEndedBlock body)) closed
      | ToolResult _ _ _ _ _ _ _ \<Rightarrow> walkSettlement event closed
      | ToolDenied _ _ _ _ \<Rightarrow> walkSettlement event closed
      | _ \<Rightarrow> closed)"

definition walkStart :: "event list \<Rightarrow> walk" where
  "walkStart events =
     \<lparr>wk_groups = [], wk_settlements = Map.empty, wk_claimed = [],
      wk_unavailable = callIdsIn events, wk_open = (\<lambda>_. []), wk_openAssistant = False\<rparr>"

definition liveNudgeIds :: "event list \<Rightarrow> string set" where
  "liveNudgeIds events = ev_id ` set (liveNudges events)"

definition walkEvents :: "event list \<Rightarrow> walk" where
  "walkEvents events =
     foldl (walkStep (ev_id ` set (currentContextEvents events)) (liveNudgeIds events))
       (walkStart events) events"

section \<open>The messages\<close>

definition messagesForGroup :: "group \<Rightarrow> (string \<rightharpoonup> settled_call) \<Rightarrow> assembled_message list" where
  "messagesForGroup entry settlements =
     (let self = \<lparr>am_message = gr_message entry, am_origin = gr_origin entry\<rparr>;
          calls = callsMade (gr_message entry);
          answers = map (\<lambda>call. settlements (tcp_toolCallId call)) calls;
          content = map (\<lambda>call. case settlements (tcp_toolCallId call) of
              None \<Rightarrow> unsettledResult call | Some answer \<Rightarrow> sc_part answer) calls;
          origin = (case List.find (\<lambda>answer. answer \<noteq> None) answers of
              Some (Some answer) \<Rightarrow> sc_origin answer | _ \<Rightarrow> gr_origin entry)
      in if partsOf (gr_message entry) = [] then []
         else if \<not> is_AssistantMessage (gr_message entry) then [self]
         else if calls = [] then [self]
         else [self, \<lparr>am_message = ToolMessage content None, am_origin = origin\<rparr>])"

definition groupMessages :: "walk \<Rightarrow> assembled_message list" where
  "groupMessages st =
     concat (map (\<lambda>entry. messagesForGroup entry (wk_settlements st)) (wk_groups st))"

definition messagesFromEvents :: rule where
  "messagesFromEvents =
     \<lparr>rl_name = ''messagesFromEvents'',
      rl_apply = (\<lambda>input ctx. Inr
        \<lparr>as_system = as_system input, as_messages = groupMessages (walkEvents (rc_events ctx))\<rparr>)\<rparr>"

end
