(* ===== verification/Assemble.thy ===== *)
theory Assemble
  imports Tail_Blocks Cache_Breakpoints Compacted_History Agent_Endings Images_In_Context
    Messages_From_Events
begin

text \<open>
  \<open>assembly/assemble.ts\<close> and \<open>assembly/pipeline.ts\<close>: running the rules and then the annotators over an
  empty request, each on what the one before it made. A rule that throws is skipped or stops the
  assembly, as the policy says. The interface \<open>keeping_stages\<close> is what a request can rely on when every
  stage keeps an invariant.
\<close>

section \<open>Running the stages\<close>

record stage_outcome =
  so_assembled :: assembled
  so_failure :: "string option"

record assembly_run =
  run_assembled :: assembled
  run_trace :: "assembly_trace_step list"

definition emptyAssembled :: assembled where
  "emptyAssembled = \<lparr>as_system = [], as_messages = []\<rparr>"

definition applyStage ::
  "string + assembled \<Rightarrow> assembled \<Rightarrow> e_rule_failure_policy \<Rightarrow> string + stage_outcome" where
  "applyStage applied input onRuleFailure =
     (case applied of
        Inr assembled \<Rightarrow> Inr \<lparr>so_assembled = assembled, so_failure = None\<rparr>
      | Inl message \<Rightarrow>
          if onRuleFailure = Throw then Inl message
          else Inr \<lparr>so_assembled = input, so_failure = Some message\<rparr>)"

definition traceStep ::
  "e_assembly_stage \<Rightarrow> string \<Rightarrow> stage_outcome \<Rightarrow> rule_context \<Rightarrow> assembly_trace_step" where
  "traceStep stage name outcome ctx =
     \<lparr>ts_stage = stage, ts_name = name,
      ts_systemBlocks = length (as_system (so_assembled outcome)),
      ts_messages = length (as_messages (so_assembled outcome)),
      ts_tokens = rc_countTokens ctx (so_assembled outcome),
      ts_failure = so_failure outcome\<rparr>"

fun applyRules ::
  "rule list \<Rightarrow> rule_context \<Rightarrow> e_rule_failure_policy \<Rightarrow> assembly_run \<Rightarrow> string + assembly_run" where
  "applyRules [] ctx onRuleFailure st = Inr st"
| "applyRules (rule # rules) ctx onRuleFailure st =
     (case applyStage (rl_apply rule (run_assembled st) ctx) (run_assembled st) onRuleFailure of
        Inl message \<Rightarrow> Inl message
      | Inr outcome \<Rightarrow> applyRules rules ctx onRuleFailure
          \<lparr>run_assembled = so_assembled outcome,
           run_trace = run_trace st @ [traceStep RuleStage (rl_name rule) outcome ctx]\<rparr>)"

fun applyAnnotators ::
  "annotator list \<Rightarrow> rule_context \<Rightarrow> e_rule_failure_policy \<Rightarrow> assembly_run \<Rightarrow> string + assembly_run" where
  "applyAnnotators [] ctx onRuleFailure st = Inr st"
| "applyAnnotators (annotator # annotators) ctx onRuleFailure st =
     (case applyStage (an_apply annotator (run_assembled st) (run_trace st) ctx) (run_assembled st)
         onRuleFailure of
        Inl message \<Rightarrow> Inl message
      | Inr outcome \<Rightarrow> applyAnnotators annotators ctx onRuleFailure
          \<lparr>run_assembled = so_assembled outcome,
           run_trace = run_trace st @ [traceStep AnnotatorStage (an_name annotator) outcome ctx]\<rparr>)"

definition assemble ::
  "rule list \<Rightarrow> annotator list \<Rightarrow> rule_context \<Rightarrow> e_rule_failure_policy \<Rightarrow> string + assembly_run" where
  "assemble rules annotators ctx onRuleFailure =
     (case applyRules rules ctx onRuleFailure
         \<lparr>run_assembled = emptyAssembled, run_trace = []\<rparr> of
        Inl message \<Rightarrow> Inl message
      | Inr st \<Rightarrow> applyAnnotators annotators ctx onRuleFailure st)"

section \<open>The default pipeline\<close>

record assembly_pipeline =
  ap_rules :: "rule list"
  ap_annotators :: "annotator list"

text \<open>What the harness hands to the pipeline; an optional source adds no rule when it is absent.\<close>

record pipeline_sources =
  ps_prompt :: prompt_source
  ps_launchDirectory :: string
  ps_repoRoot :: "string option"
  ps_runningShells :: "(string \<Rightarrow> running_shell list) option"
  ps_runningServices :: "(unit \<Rightarrow> running_service list) option"
  ps_runningAgents :: "(string \<Rightarrow> running_agent list) option"
  ps_executionLocation :: "(string \<Rightarrow> execution_environment) option"

definition defaultRules :: "pipeline_sources \<Rightarrow> rule list" where
  "defaultRules sources =
     [systemPrompt (ps_prompt sources) (ps_launchDirectory sources),
      messagesFromEvents,
      agentEndingsBlock,
      compactedHistory,
      imagesInContext MAX_IMAGE_BLOCKS,
      worktreeBlock (ps_launchDirectory sources) (ps_repoRoot sources)] @
     option_list (map_option executionLocationBlock (ps_executionLocation sources)) @
     option_list (map_option runningShellsBlock (ps_runningShells sources)) @
     option_list (map_option runningServicesBlock (ps_runningServices sources)) @
     option_list (map_option runningAgentsBlock (ps_runningAgents sources))"

definition defaultAnnotators :: "annotator list" where
  "defaultAnnotators = [cacheBreakpoints DEFAULT_CACHE_OPTIONS]"

definition defaultPipeline :: "pipeline_sources \<Rightarrow> assembly_pipeline" where
  "defaultPipeline sources =
     \<lparr>ap_rules = defaultRules sources, ap_annotators = defaultAnnotators\<rparr>"

section \<open>What every stage keeps, the request has\<close>

locale keeping_stages =
  fixes invariant :: "rule_context \<Rightarrow> assembled \<Rightarrow> bool"
    and rules :: "rule list"
    and annotators :: "annotator list"
  assumes starts: "invariant ctx emptyAssembled"
    and rule_keeps: "rule \<in> set rules \<Longrightarrow> invariant ctx input \<Longrightarrow>
      rl_apply rule input ctx = Inr assembled \<Longrightarrow> invariant ctx assembled"
    and annotator_keeps: "annotator \<in> set annotators \<Longrightarrow> invariant ctx input \<Longrightarrow>
      an_apply annotator input trace ctx = Inr assembled \<Longrightarrow> invariant ctx assembled"
begin

lemma rules_keep:
  "applyRules rs ctx policy st = Inr st' \<Longrightarrow> set rs \<subseteq> set rules \<Longrightarrow>
     invariant ctx (run_assembled st) \<Longrightarrow> invariant ctx (run_assembled st')"
proof (induction rs ctx policy st rule: applyRules.induct)
  case (2 rule rs ctx policy st)
  then obtain outcome where outcome:
      "applyStage (rl_apply rule (run_assembled st) ctx) (run_assembled st) policy = Inr outcome"
    by (auto split: sum.splits)
  then have "invariant ctx (so_assembled outcome)"
    using "2.prems" rule_keeps [of rule ctx "run_assembled st"]
    by (auto simp: applyStage_def split: sum.splits if_split_asm)
  with 2 outcome show ?case by simp
qed simp

lemma annotators_keep:
  "applyAnnotators ans ctx policy st = Inr st' \<Longrightarrow> set ans \<subseteq> set annotators \<Longrightarrow>
     invariant ctx (run_assembled st) \<Longrightarrow> invariant ctx (run_assembled st')"
proof (induction ans ctx policy st rule: applyAnnotators.induct)
  case (2 annotator ans ctx policy st)
  then obtain outcome where outcome:
      "applyStage (an_apply annotator (run_assembled st) (run_trace st) ctx) (run_assembled st) policy =
         Inr outcome"
    by (auto split: sum.splits)
  then have "invariant ctx (so_assembled outcome)"
    using "2.prems" annotator_keeps [of annotator ctx "run_assembled st" "run_trace st"]
    by (auto simp: applyStage_def split: sum.splits if_split_asm)
  with 2 outcome show ?case by simp
qed simp

lemma assembled_keeps:
  "assemble rules annotators ctx policy = Inr run \<Longrightarrow> invariant ctx (run_assembled run)"
  using rules_keep [of rules ctx policy] annotators_keep [of annotators ctx policy] starts [of ctx]
  by (fastforce simp: assemble_def split: sum.splits)

end

section \<open>The policy\<close>

lemma applyStage_skip: "\<exists>outcome. applyStage applied input SkipRule = Inr outcome"
  by (cases applied) (simp_all add: applyStage_def)

lemma traceStep_name [simp]: "ts_name (traceStep stage name outcome ctx) = name"
  by (simp add: traceStep_def)

lemma applyRules_skip:
  "\<exists>st'. applyRules rules ctx SkipRule st = Inr st' \<and>
     map ts_name (run_trace st') = map ts_name (run_trace st) @ map rl_name rules"
proof (induction rules arbitrary: st)
  case (Cons rule rules)
  obtain outcome where "applyStage (rl_apply rule (run_assembled st) ctx) (run_assembled st) SkipRule =
      Inr outcome" using applyStage_skip by blast
  with Cons [of "\<lparr>run_assembled = so_assembled outcome,
      run_trace = run_trace st @ [traceStep RuleStage (rl_name rule) outcome ctx]\<rparr>"]
  show ?case by simp
qed simp

lemma applyAnnotators_skip:
  "\<exists>st'. applyAnnotators annotators ctx SkipRule st = Inr st' \<and>
     map ts_name (run_trace st') = map ts_name (run_trace st) @ map an_name annotators"
proof (induction annotators arbitrary: st)
  case (Cons annotator annotators)
  obtain outcome where "applyStage (an_apply annotator (run_assembled st) (run_trace st) ctx)
      (run_assembled st) SkipRule = Inr outcome" using applyStage_skip by blast
  with Cons [of "\<lparr>run_assembled = so_assembled outcome,
      run_trace = run_trace st @ [traceStep AnnotatorStage (an_name annotator) outcome ctx]\<rparr>"]
  show ?case by simp
qed simp

lemma assemble_skip:
  "\<exists>run. assemble rules annotators ctx SkipRule = Inr run \<and>
     map ts_name (run_trace run) = map rl_name rules @ map an_name annotators"
proof -
  obtain st where "applyRules rules ctx SkipRule \<lparr>run_assembled = emptyAssembled, run_trace = []\<rparr> = Inr st"
    and "map ts_name (run_trace st) = map rl_name rules"
    using applyRules_skip [of rules ctx "\<lparr>run_assembled = emptyAssembled, run_trace = []\<rparr>"] by auto
  then show ?thesis using applyAnnotators_skip [of annotators ctx st] by (simp add: assemble_def)
qed

text \<open>C17: under the policy that skips a failing rule the assembly always comes to a request, and its trace has
  one step for each rule and then one for each annotator, in order, whatever throws.\<close>

theorem assemble_skipping:
  "\<exists>run. assemble rules annotators ctx SkipRule = Inr run \<and>
     map ts_name (run_trace run) = map rl_name rules @ map an_name annotators"
  by (rule assemble_skip)

end
