(* ===== verification/Exchange_Shape.thy ===== *)
theory Exchange_Shape
  imports Message
begin

text \<open>
  \<open>assembly/exchange-shape.ts\<close>: what a provider would reject in the messages of a request. Consecutive
  messages of one side are one turn of the exchange. The sort of the faults by message is stable. The
  lemmas say what it means that nothing is found.
\<close>

section \<open>Turns\<close>

datatype e_exchange_fault = OpensWithAssistant | EndsWithAssistant | EmptyContent | BlankText
  | RepeatedCallId | RepeatedResultId | UnansweredCall | UnmatchedResult | ResultAfterOtherContent

record exchange_fault =
  xf_fault :: e_exchange_fault
  xf_messageIndex :: nat
  xf_origin :: event_ref
  xf_detail :: string
  xf_toolCallId :: "string option"

datatype e_turn_role = AssistantTurn | UserTurn

record placed =
  pl_entry :: assembled_message
  pl_index :: nat

record turn =
  tn_role :: e_turn_role
  tn_placed :: "placed list"

definition turnRoleOf :: "message \<Rightarrow> e_turn_role" where
  "turnRoleOf message = (if is_AssistantMessage message then AssistantTurn else UserTurn)"

definition turnStep :: "turn list \<Rightarrow> placed \<Rightarrow> turn list" where
  "turnStep turns placed =
     (let role = turnRoleOf (am_message (pl_entry placed)) in
      if turns \<noteq> [] \<and> tn_role (last turns) = role then
        butlast turns @ [(last turns)\<lparr>tn_placed := tn_placed (last turns) @ [placed]\<rparr>]
      else turns @ [\<lparr>tn_role = role, tn_placed = [placed]\<rparr>])"

definition placedIn :: "assembled_message list \<Rightarrow> placed list" where
  "placedIn messages =
     map (\<lambda>(index, entry). \<lparr>pl_entry = entry, pl_index = index\<rparr>) (enumerate 0 messages)"

definition providerTurns :: "assembled_message list \<Rightarrow> turn list" where
  "providerTurns messages = foldl turnStep [] (placedIn messages)"

section \<open>Faults\<close>

definition faultAt ::
  "e_exchange_fault \<Rightarrow> placed \<Rightarrow> string option \<Rightarrow> string \<Rightarrow> exchange_fault" where
  "faultAt fault placed toolCallId detail =
     \<lparr>xf_fault = fault, xf_messageIndex = pl_index placed, xf_origin = am_origin (pl_entry placed),
      xf_detail = detail, xf_toolCallId = toolCallId\<rparr>"

abbreviation placedMessage :: "placed \<Rightarrow> message" where
  "placedMessage placed \<equiv> am_message (pl_entry placed)"

definition callsIn :: "turn \<Rightarrow> (tool_call_part \<times> placed) list" where
  "callsIn turn =
     concat (map (\<lambda>placed. map (\<lambda>part. (part, placed)) (callsMade (placedMessage placed)))
       (tn_placed turn))"

definition resultsIn :: "turn \<Rightarrow> (tool_result_part \<times> placed) list" where
  "resultsIn turn =
     concat (map (\<lambda>placed. map (\<lambda>part. (part, placed)) (resultsCarried (placedMessage placed)))
       (tn_placed turn))"

definition blankFault :: "placed \<Rightarrow> nat \<Rightarrow> message_part \<Rightarrow> exchange_fault list" where
  "blankFault placed position part =
     (case part of
        PartText block \<Rightarrow>
          if tp_text block = [] then
            [faultAt BlankText placed None
              (''part '' @ show_nat position @ '' of the '' @ roleText (placedMessage placed) @
               '' message is a text block holding no text'')]
          else []
      | _ \<Rightarrow> [])"

definition contentFaults :: "placed \<Rightarrow> exchange_fault list" where
  "contentFaults placed =
     (let parts = partsOf (placedMessage placed) in
      if parts = [] then
        [faultAt EmptyContent placed None
          (''the '' @ roleText (placedMessage placed) @ '' message holds no content parts'')]
      else concat (map (\<lambda>(position, part). blankFault placed position part) (enumerate 0 parts)))"

text \<open>The nested loops of \<open>orderFaults\<close> over the parts of a turn, with \<open>precededByOtherContent\<close>.\<close>

fun orderLoop :: "bool \<Rightarrow> (message_part \<times> placed) list \<Rightarrow> exchange_fault list" where
  "orderLoop precededByOtherContent [] = []"
| "orderLoop precededByOtherContent ((part, placed) # rest) =
     (case part of
        PartResult result \<Rightarrow>
          (if \<not> precededByOtherContent then []
           else [faultAt ResultAfterOtherContent placed (Some (trp_toolCallId result))
             (''the result for '' @ trp_toolCallId result @
              '' follows other content in the same turn, and the provider merges that turn into one '' @
              ''message whose results must come first'')]) @
          orderLoop precededByOtherContent rest
      | _ \<Rightarrow> orderLoop True rest)"

definition placedParts :: "turn \<Rightarrow> (message_part \<times> placed) list" where
  "placedParts turn =
     concat (map (\<lambda>placed. map (\<lambda>part. (part, placed)) (partsOf (placedMessage placed)))
       (tn_placed turn))"

definition orderFaults :: "turn \<Rightarrow> exchange_fault list" where
  "orderFaults turn =
     (if tn_role turn \<noteq> UserTurn then [] else orderLoop False (placedParts turn))"

definition unansweredFaults :: "turn \<Rightarrow> turn option \<Rightarrow> exchange_fault list" where
  "unansweredFaults turn next_turn =
     (if tn_role turn \<noteq> AssistantTurn then []
      else let answered = (case next_turn of
             None \<Rightarrow> {}
           | Some t \<Rightarrow> (\<lambda>(part, _). trp_toolCallId part) ` set (resultsIn t))
      in map (\<lambda>(part, placed).
           faultAt UnansweredCall placed (Some (tcp_toolCallId part))
             (''the call '' @ tcp_toolCallId part @ '' to '' @ tcp_toolName part @
              '' has no result in the turn that follows it''))
         (filter (\<lambda>(part, _). tcp_toolCallId part \<notin> answered) (callsIn turn)))"

definition unmatchedFaults :: "turn \<Rightarrow> turn option \<Rightarrow> exchange_fault list" where
  "unmatchedFaults turn previous =
     (if tn_role turn \<noteq> UserTurn then []
      else let answerable = (case previous of
             None \<Rightarrow> {}
           | Some t \<Rightarrow> (\<lambda>(part, _). tcp_toolCallId part) ` set (callsIn t))
      in map (\<lambda>(part, placed).
           faultAt UnmatchedResult placed (Some (trp_toolCallId part))
             (''the result for '' @ trp_toolCallId part @
              '' answers no call in the turn that precedes it''))
         (filter (\<lambda>(part, _). trp_toolCallId part \<notin> answerable) (resultsIn turn)))"

text \<open>The parts are their call ids with their places.\<close>

fun repeatedIdFaults ::
  "e_exchange_fault \<Rightarrow> string \<Rightarrow> string set \<Rightarrow> (string \<times> placed) list \<Rightarrow> exchange_fault list" where
  "repeatedIdFaults fault subject seen [] = []"
| "repeatedIdFaults fault subject seen ((callId, placed) # rest) =
     (if callId \<notin> seen then repeatedIdFaults fault subject (insert callId seen) rest
      else faultAt fault placed (Some callId)
             (callId @ '' is used by more than one '' @ subject @ '' in this exchange'') #
           repeatedIdFaults fault subject seen rest)"

definition openingFaults :: "assembled_message list \<Rightarrow> exchange_fault list" where
  "openingFaults messages =
     (case at messages 0 of
        None \<Rightarrow> []
      | Some opening \<Rightarrow>
          if \<not> is_AssistantMessage (am_message opening) then []
          else [faultAt OpensWithAssistant \<lparr>pl_entry = opening, pl_index = 0\<rparr> None
            (''the exchange opens with an assistant message, and the first message must be '' @
             ''the user'')])"

definition closingFaults :: "assembled_message list \<Rightarrow> exchange_fault list" where
  "closingFaults messages =
     (if messages = [] \<or> \<not> is_AssistantMessage (am_message (last messages)) then []
      else [faultAt EndsWithAssistant
        \<lparr>pl_entry = last messages, pl_index = length messages - 1\<rparr> None
        (''the exchange ends with an assistant message, which asks the provider to prefill that '' @
         ''turn rather than to answer'')])"

text \<open>\<open>turns[position - 1]\<close> is \<open>undefined\<close> at the first turn.\<close>

definition turnBefore :: "turn list \<Rightarrow> nat \<Rightarrow> turn option" where
  "turnBefore turns position = (if position = 0 then None else at turns (position - 1))"

definition exchangeFaults :: "assembled \<Rightarrow> exchange_fault list" where
  "exchangeFaults assembled =
     (let messages = as_messages assembled; turns = providerTurns messages in
      sort_key xf_messageIndex
       (openingFaults messages @
        closingFaults messages @
        concat (map contentFaults (placedIn messages)) @
        concat (map orderFaults turns) @
        concat (map (\<lambda>(position, turn). unansweredFaults turn (at turns (position + 1)))
          (enumerate 0 turns)) @
        concat (map (\<lambda>(position, turn). unmatchedFaults turn (turnBefore turns position))
          (enumerate 0 turns)) @
        repeatedIdFaults RepeatedCallId ''call'' {}
          (map (\<lambda>(part, placed). (tcp_toolCallId part, placed)) (concat (map callsIn turns))) @
        repeatedIdFaults RepeatedResultId ''result'' {}
          (map (\<lambda>(part, placed). (trp_toolCallId part, placed)) (concat (map resultsIn turns)))))"

section \<open>Turns as runs\<close>

definition runStep :: "placed \<Rightarrow> turn list \<Rightarrow> turn list" where
  "runStep placed turns =
     (let role = turnRoleOf (placedMessage placed) in
      case turns of
        t # rest \<Rightarrow>
          if tn_role t = role then t\<lparr>tn_placed := placed # tn_placed t\<rparr> # rest
          else \<lparr>tn_role = role, tn_placed = [placed]\<rparr> # turns
      | [] \<Rightarrow> [\<lparr>tn_role = role, tn_placed = [placed]\<rparr>])"

definition runs :: "placed list \<Rightarrow> turn list" where
  "runs ps = foldr runStep ps []"

lemma runs_simps [simp]: "runs [] = []" "runs (p # ps) = runStep p (runs ps)"
  by (simp_all add: runs_def)

lemma runStep_not_Nil [simp]: "runStep p ts \<noteq> []"
  by (simp add: runStep_def Let_def split: list.split)

lemma runs_eq_Nil [simp]: "runs ps = [] \<longleftrightarrow> ps = []"
  by (cases ps) simp_all

lemma turnStep_runStep:
  "ts \<noteq> [] \<Longrightarrow> runStep p (turnStep ts q) = turnStep (runStep p ts) q"
  by (cases ts rule: list.exhaust; cases "tl ts" rule: rev_cases)
    (auto simp: runStep_def turnStep_def Let_def butlast_append neq_Nil_conv split: list.splits)

lemma runs_snoc: "runs (ps @ [q]) = turnStep (runs ps) q"
proof (induction ps)
  case Nil
  then show ?case by (simp add: runStep_def turnStep_def Let_def)
next
  case (Cons p ps)
  show ?case
  proof (cases "ps = []")
    case True
    then show ?thesis by (simp add: runStep_def turnStep_def Let_def)
  next
    case False
    then show ?thesis using Cons turnStep_runStep [of "runs ps" p q] by simp
  qed
qed

lemma providerTurns_runs: "providerTurns messages = runs (placedIn messages)"
proof -
  have "foldl turnStep [] ps = runs ps" for ps
    by (induction ps rule: rev_induct) (simp_all add: runs_snoc)
  then show ?thesis by (simp add: providerTurns_def)
qed

text \<open>Neighbouring turns are of different sides.\<close>

fun alternating :: "turn list \<Rightarrow> bool" where
  "alternating (t # t' # ts) \<longleftrightarrow> tn_role t \<noteq> tn_role t' \<and> alternating (t' # ts)"
| "alternating _ \<longleftrightarrow> True"

lemma alternating_runs: "alternating (runs ps)"
proof (induction ps)
  case (Cons p ps)
  then show ?case
    by (cases "runs ps"; cases "tl (runs ps)") (auto simp: runStep_def Let_def)
qed simp

section \<open>What it means that no fault is found\<close>

definition turnCallIds :: "turn \<Rightarrow> string list" where
  "turnCallIds turn = map (\<lambda>(part, _). tcp_toolCallId part) (callsIn turn)"

definition turnResultIds :: "turn \<Rightarrow> string list" where
  "turnResultIds turn = map (\<lambda>(part, _). trp_toolCallId part) (resultsIn turn)"

text \<open>The reference: reading on from calls that wait for their results, a turn of the user carries exactly
  the results that are waited for, and a turn of the assistant may only come when none is.\<close>

fun answersAll :: "string set \<Rightarrow> turn list \<Rightarrow> bool" where
  "answersAll waiting [] \<longleftrightarrow> waiting = {}"
| "answersAll waiting (turn # turns) \<longleftrightarrow>
     (if tn_role turn = AssistantTurn
      then waiting = {} \<and> answersAll (set (turnCallIds turn)) turns
      else set (turnResultIds turn) = waiting \<and> answersAll {} turns)"

text \<open>The results of a turn come before its other parts.\<close>

definition resultsFirst :: "turn \<Rightarrow> bool" where
  "resultsFirst turn \<longleftrightarrow>
     (\<forall>(part, _) \<in> set (dropWhile (\<lambda>(part, _). is_PartResult part) (placedParts turn)).
        \<not> is_PartResult part)"

lemma orderLoop_True: "orderLoop True parts = [] \<longleftrightarrow> (\<forall>(part, _) \<in> set parts. \<not> is_PartResult part)"
proof (induction parts)
  case (Cons p parts)
  then show ?case by (cases p; cases "fst p") auto
qed simp

lemma orderLoop_False: "orderLoop False parts = [] \<longleftrightarrow>
    (\<forall>(part, _) \<in> set (dropWhile (\<lambda>(part, _). is_PartResult part) parts). \<not> is_PartResult part)"
proof (induction parts)
  case (Cons p parts)
  then show ?case
    by (cases p; cases "fst p") (auto simp: orderLoop_True)
qed simp

lemma orderFaults_none: "orderFaults turn = [] \<longleftrightarrow> tn_role turn = AssistantTurn \<or> resultsFirst turn"
  by (cases "tn_role turn") (simp_all add: orderFaults_def resultsFirst_def orderLoop_False)

lemma unansweredFaults_none: "unansweredFaults turn following = [] \<longleftrightarrow> tn_role turn = AssistantTurn \<longrightarrow>
    set (turnCallIds turn) \<subseteq> (case following of None \<Rightarrow> {} | Some t \<Rightarrow> set (turnResultIds t))"
  by (cases following) (auto simp: unansweredFaults_def turnCallIds_def turnResultIds_def
      filter_empty_conv Let_def image_subset_iff split_beta)

lemma unmatchedFaults_none: "unmatchedFaults turn previous = [] \<longleftrightarrow> tn_role turn = UserTurn \<longrightarrow>
    set (turnResultIds turn) \<subseteq> (case previous of None \<Rightarrow> {} | Some t \<Rightarrow> set (turnCallIds t))"
  by (cases previous) (auto simp: unmatchedFaults_def turnCallIds_def turnResultIds_def
      filter_empty_conv Let_def image_subset_iff split_beta)

lemma repeatedIdFaults_none:
  "repeatedIdFaults fault subject seen parts = [] \<longleftrightarrow>
     distinct (map fst parts) \<and> fst ` set parts \<inter> seen = {}"
proof (induction parts arbitrary: seen)
  case (Cons p parts)
  then show ?case by (cases p) (simp, blast)
qed simp

text \<open>Looking at the neighbours of every turn is reading the turns from the first to the last.\<close>

fun linked :: "turn option \<Rightarrow> turn list \<Rightarrow> bool" where
  "linked previous [] \<longleftrightarrow> True"
| "linked previous (turn # turns) \<longleftrightarrow>
     unansweredFaults turn (at turns 0) = [] \<and> unmatchedFaults turn previous = [] \<and>
     linked (Some turn) turns"

lemma linked_nth:
  "linked previous turns \<longleftrightarrow>
     (\<forall>i < length turns. unansweredFaults (turns ! i) (at turns (i + 1)) = [] \<and>
        unmatchedFaults (turns ! i) (if i = 0 then previous else at turns (i - 1)) = [])"
proof (induction turns arbitrary: previous)
  case (Cons turn turns)
  have "(if Suc i = 0 then previous else at (turn # turns) (Suc i - 1)) =
      (if i = 0 then Some turn else at turns (i - 1))" for i
    by (cases i) simp_all
  then show ?case
    unfolding linked.simps Cons [of "Some turn"] by (simp add: All_less_Suc2 conj_ac)
qed simp

lemma concat_enumerate_Nil:
  "concat (map (\<lambda>(i, x). f i x) (enumerate 0 xs)) = [] \<longleftrightarrow> (\<forall>i < length xs. f i (xs ! i) = [])"
proof -
  have "concat (map (\<lambda>(i, x). f i x) (enumerate 0 xs)) = [] \<longleftrightarrow>
      (\<forall>p \<in> set (enumerate 0 xs). f (fst p) (snd p) = [])"
    by (simp add: split_beta)
  also have "\<dots> \<longleftrightarrow> (\<forall>i < length xs. f i (xs ! i) = [])"
  proof (intro iffI allI impI ballI)
    fix i assume "\<forall>p \<in> set (enumerate 0 xs). f (fst p) (snd p) = []" and "i < length xs"
    moreover from this have "(i, xs ! i) \<in> set (enumerate 0 xs)" by (simp add: in_set_enumerate_eq)
    ultimately show "f i (xs ! i) = []" by fastforce
  next
    fix p assume "\<forall>i < length xs. f i (xs ! i) = []" and "p \<in> set (enumerate 0 xs)"
    then show "f (fst p) (snd p) = []" by (auto simp: in_set_enumerate_eq)
  qed
  finally show ?thesis .
qed

lemma linked_faults:
  "linked None turns \<longleftrightarrow>
     concat (map (\<lambda>(position, turn). unansweredFaults turn (at turns (position + 1))) (enumerate 0 turns)) = [] \<and>
     concat (map (\<lambda>(position, turn). unmatchedFaults turn (turnBefore turns position)) (enumerate 0 turns)) = []"
  unfolding concat_enumerate_Nil linked_nth turnBefore_def by blast

lemma role_cases: "tn_role t = AssistantTurn \<or> tn_role t = UserTurn"
  by (cases "tn_role t") simp_all

definition waitingAfter :: "turn option \<Rightarrow> string set" where
  "waitingAfter previous =
     (case previous of
        None \<Rightarrow> {}
      | Some t \<Rightarrow> if tn_role t = AssistantTurn then set (turnCallIds t) else {})"

lemma linked_answersAll:
  assumes "alternating (option_list previous @ turns)"
  shows "answersAll (waitingAfter previous) turns \<longleftrightarrow> linked previous turns \<and>
    waitingAfter previous \<subseteq> (case at turns 0 of None \<Rightarrow> {} | Some t \<Rightarrow> set (turnResultIds t))"
  using assms
proof (induction turns arbitrary: previous)
  case (Cons turn turns)
  have "alternating (turn # turns)" using Cons.prems by (cases previous) simp_all
  then have later: "answersAll (waitingAfter (Some turn)) turns \<longleftrightarrow> linked (Some turn) turns \<and>
      waitingAfter (Some turn) \<subseteq> (case at turns 0 of None \<Rightarrow> {} | Some t \<Rightarrow> set (turnResultIds t))"
    by (intro Cons.IH) simp
  have other: "tn_role t \<noteq> tn_role turn" if "previous = Some t" for t
    using that Cons.prems by simp
  show ?case
  proof (cases "tn_role turn")
    case AssistantTurn
    then have "waitingAfter previous = {}"
      using other by (auto simp: waitingAfter_def split: option.splits)
    with AssistantTurn later show ?thesis
      by (auto simp: unansweredFaults_none unmatchedFaults_none waitingAfter_def)
  next
    case UserTurn
    then have "waitingAfter previous = (case previous of None \<Rightarrow> {} | Some t \<Rightarrow> set (turnCallIds t))"
      using other by (auto simp: waitingAfter_def split: option.splits) (metis e_turn_role.exhaust)+
    with UserTurn later show ?thesis
      by (auto simp: unansweredFaults_none unmatchedFaults_none waitingAfter_def)
  qed
qed simp

lemma placedIn_entries: "map pl_entry (placedIn messages) = messages"
proof -
  have "map pl_entry (placedIn messages) = map snd (enumerate 0 messages)"
    by (simp add: placedIn_def split_beta comp_def)
  then show ?thesis by simp
qed

lemma placedIn_set: "pl_entry ` set (placedIn messages) = set messages"
  by (metis placedIn_entries set_map)

lemma placedIn_Nil [simp]: "placedIn messages = [] \<longleftrightarrow> messages = []"
  by (metis map_is_Nil_conv placedIn_entries)

text \<open>A message has content, and no text block of it is empty.\<close>

definition noBlank :: "message \<Rightarrow> bool" where
  "noBlank message \<longleftrightarrow> (\<forall>block. PartText block \<in> set (partsOf message) \<longrightarrow> tp_text block \<noteq> [])"

lemma blankFault_none:
  "blankFault placed position part = [] \<longleftrightarrow> (\<forall>block. part = PartText block \<longrightarrow> tp_text block \<noteq> [])"
  by (cases part) (simp_all add: blankFault_def)

lemma contentFaults_none:
  "contentFaults placed = [] \<longleftrightarrow>
     partsOf (placedMessage placed) \<noteq> [] \<and> noBlank (placedMessage placed)"
proof (cases "partsOf (placedMessage placed) = []")
  case False
  let ?parts = "partsOf (placedMessage placed)"
  have "contentFaults placed = [] \<longleftrightarrow> (\<forall>i < length ?parts. blankFault placed i (?parts ! i) = [])"
    using False unfolding contentFaults_def Let_def concat_enumerate_Nil [symmetric] by argo
  then show ?thesis using False by (auto simp: blankFault_none noBlank_def in_set_conv_nth)
qed (simp add: contentFaults_def Let_def)

lemma openingFaults_none:
  "openingFaults messages = [] \<longleftrightarrow> messages = [] \<or> \<not> is_AssistantMessage (am_message (hd messages))"
  by (cases messages) (simp_all add: openingFaults_def)

lemma closingFaults_none:
  "closingFaults messages = [] \<longleftrightarrow> messages = [] \<or> \<not> is_AssistantMessage (am_message (last messages))"
  by (simp add: closingFaults_def)

lemma turnCallIds_concat:
  "map fst (map (\<lambda>(part, placed). (tcp_toolCallId part, placed)) (concat (map callsIn turns)))
     = concat (map turnCallIds turns)"
  by (induction turns) (simp_all add: turnCallIds_def split_beta comp_def)

lemma turnResultIds_concat:
  "map fst (map (\<lambda>(part, placed). (trp_toolCallId part, placed)) (concat (map resultsIn turns)))
     = concat (map turnResultIds turns)"
  by (induction turns) (simp_all add: turnResultIds_def split_beta comp_def)

lemma sort_key_Nil [simp]: "sort_key f xs = [] \<longleftrightarrow> xs = []"
  by (metis length_0_conv length_sort)

lemma exchangeFaults_none_iff:
  "exchangeFaults assembled = [] \<longleftrightarrow>
     (let messages = map am_message (as_messages assembled);
          turns = providerTurns (as_messages assembled)
      in (messages = [] \<or>
            \<not> is_AssistantMessage (hd messages) \<and> \<not> is_AssistantMessage (last messages)) \<and>
         (\<forall>message \<in> set messages. partsOf message \<noteq> [] \<and> noBlank message) \<and>
         (\<forall>turn \<in> set turns. tn_role turn = AssistantTurn \<or> resultsFirst turn) \<and>
         answersAll {} turns \<and>
         distinct (concat (map turnCallIds turns)) \<and> distinct (concat (map turnResultIds turns)))"
proof -
  let ?messages = "as_messages assembled"
  let ?turns = "providerTurns ?messages"
  have content: "concat (map contentFaults (placedIn ?messages)) = [] \<longleftrightarrow>
      (\<forall>message \<in> set (map am_message ?messages). partsOf message \<noteq> [] \<and> noBlank message)"
    unfolding concat_eq_Nil_conv set_map placedIn_set [of ?messages, symmetric]
    by (auto simp: contentFaults_none)
  have order: "concat (map orderFaults ?turns) = [] \<longleftrightarrow>
      (\<forall>turn \<in> set ?turns. tn_role turn = AssistantTurn \<or> resultsFirst turn)"
    by (simp add: orderFaults_none)
  have answers: "linked None ?turns \<longleftrightarrow> answersAll {} ?turns"
    using linked_answersAll [of None ?turns] alternating_runs
    by (simp add: providerTurns_runs waitingAfter_def)
  have ends: "openingFaults ?messages = [] \<and> closingFaults ?messages = [] \<longleftrightarrow>
      map am_message ?messages = [] \<or> \<not> is_AssistantMessage (hd (map am_message ?messages)) \<and>
        \<not> is_AssistantMessage (last (map am_message ?messages))"
    by (auto simp: openingFaults_none closingFaults_none hd_map last_map)
  show ?thesis
    unfolding exchangeFaults_def Let_def sort_key_Nil append_is_Nil_conv content order
      repeatedIdFaults_none turnCallIds_concat turnResultIds_concat
    using ends answers linked_faults [of ?turns] by (simp add: Int_commute) blast
qed

text \<open>C13: what an exchange without faults is. It opens and ends with the user; every message has content and
  no blank text; in every turn of the user the results come first; read turn by turn, the calls of a
  turn of the assistant are exactly the calls whose results the next turn brings, and nothing else is
  answered; and no call id and no result id is used twice.\<close>

theorem exchangeFaults_none:
  "exchangeFaults assembled = [] \<longleftrightarrow>
     (let messages = map am_message (as_messages assembled);
          turns = providerTurns (as_messages assembled)
      in (messages = [] \<or>
            \<not> is_AssistantMessage (hd messages) \<and> \<not> is_AssistantMessage (last messages)) \<and>
         (\<forall>message \<in> set messages. partsOf message \<noteq> [] \<and> noBlank message) \<and>
         (\<forall>turn \<in> set turns. tn_role turn = AssistantTurn \<or> resultsFirst turn) \<and>
         answersAll {} turns \<and>
         distinct (concat (map turnCallIds turns)) \<and> distinct (concat (map turnResultIds turns)))"
  by (rule exchangeFaults_none_iff)

text \<open>An operator's question, a call, and its result.\<close>

definition askedAndAnswered :: "string \<Rightarrow> string \<Rightarrow> assembled" where
  "askedAndAnswered called answered =
     (let origin = \<lparr>er_eventId = ''e'', er_seq = 1\<rparr> in
      \<lparr>as_system = [], as_messages =
        [\<lparr>am_message = userText ''hi'', am_origin = origin\<rparr>,
         \<lparr>am_message = AssistantMessage [SaidCall \<lparr>tcp_toolCallId = called, tcp_toolName = ''bash'',
            tcp_input = None, tcp_providerOptions = None\<rparr>] None, am_origin = origin\<rparr>,
         \<lparr>am_message = ToolMessage [\<lparr>trp_toolCallId = answered, trp_toolName = ''bash'',
            trp_output = OutText ''ok'', trp_providerOptions = None\<rparr>] None, am_origin = origin\<rparr>]\<rparr>)"

lemma exchangeFaults_none_witness:
  "exchangeFaults (askedAndAnswered ''c'' ''c'') = [] \<and> exchangeFaults (askedAndAnswered ''c'' ''d'') \<noteq> []"
  unfolding exchangeFaults_none
  by (simp add: askedAndAnswered_def Let_def providerTurns_runs placedIn_def runStep_def turnRoleOf_def
      turnCallIds_def turnResultIds_def callsIn_def resultsIn_def resultsFirst_def placedParts_def
      noBlank_def userText_def plainText_def)

end
