(* ===== verification/Exchange_Facts.thy ===== *)
theory Exchange_Facts
  imports Exchange_Shape
begin

text \<open>
  Exchanges in which every message that makes calls is followed at once by the message with their
  results. No fault of pairing or of order can be found in them. This is the invariant the rules of the
  assembly keep between them.
\<close>

section \<open>Paired messages\<close>

fun paired :: "message list \<Rightarrow> bool" where
  "paired [] \<longleftrightarrow> True"
| "paired (message # messages) \<longleftrightarrow>
     (case message of
        UserMessage _ _ \<Rightarrow> paired messages
      | ToolMessage _ _ \<Rightarrow> False
      | AssistantMessage _ _ \<Rightarrow>
          if callsMade message = [] then paired messages
          else (case messages of
              ToolMessage results _ # rest \<Rightarrow>
                map trp_toolCallId results = callIdsOf message \<and> paired rest
            | _ \<Rightarrow> False))"

text \<open>The cases of a paired list: nothing, a message that asks for no answer, or calls with their results.\<close>

lemma paired_cases [consumes 1, case_names Nil Plain Calls]:
  assumes "paired messages"
  obtains "messages = []"
  | message rest where "messages = message # rest" "callsMade message = []" "resultsCarried message = []"
      "\<not> is_ToolMessage message" "paired rest"
  | call results options rest where "messages = call # ToolMessage results options # rest"
      "is_AssistantMessage call" "callsMade call \<noteq> []"
      "map trp_toolCallId results = callIdsOf call" "paired rest"
proof (cases messages)
  case (Cons message tail)
  show ?thesis
  proof (cases message)
    case (AssistantMessage content options)
    show ?thesis
    proof (cases "callsMade message = []")
      case True
      then show ?thesis using that(2) [of message tail] Cons assms AssistantMessage by simp
    next
      case False
      then obtain results options' rest where "tail = ToolMessage results options' # rest"
        and "map trp_toolCallId results = callIdsOf message" and "paired rest"
        using Cons assms AssistantMessage
        by (auto simp del: callsMade.simps split: list.splits message.splits)
      then show ?thesis using that(3) Cons AssistantMessage False by simp
    qed
  qed (use that(2) [of message tail] Cons assms in auto)
qed (use that(1) in blast)

lemma paired_induct [consumes 1, case_names Nil Plain Calls]:
  assumes "paired messages"
    and "P []"
    and "\<And>message rest. callsMade message = [] \<Longrightarrow> resultsCarried message = [] \<Longrightarrow>
      \<not> is_ToolMessage message \<Longrightarrow> paired rest \<Longrightarrow> P rest \<Longrightarrow> P (message # rest)"
    and "\<And>call results options rest. is_AssistantMessage call \<Longrightarrow> callsMade call \<noteq> [] \<Longrightarrow>
      map trp_toolCallId results = callIdsOf call \<Longrightarrow> paired rest \<Longrightarrow> P rest \<Longrightarrow>
      P (call # ToolMessage results options # rest)"
  shows "P messages"
  using assms(1)
proof (induction messages rule: length_induct)
  case (1 messages)
  from "1.prems" show ?case
  proof (cases rule: paired_cases)
    case Nil
    then show ?thesis using assms(2) by simp
  next
    case (Plain message rest)
    then show ?thesis using 1 assms(3) by simp
  next
    case (Calls call results options rest)
    then show ?thesis using 1 assms(4) by simp
  qed
qed

lemma paired_plain [simp]:
  "callsMade message = [] \<Longrightarrow> \<not> is_ToolMessage message \<Longrightarrow> paired (message # rest) \<longleftrightarrow> paired rest"
  by (cases message) simp_all

lemma paired_calls [simp]:
  "is_AssistantMessage call \<Longrightarrow> callsMade call \<noteq> [] \<Longrightarrow>
     paired (call # ToolMessage results options # rest) \<longleftrightarrow>
     map trp_toolCallId results = callIdsOf call \<and> paired rest"
  by (cases call) (simp_all del: callsMade.simps)

lemma paired_user [simp]: "paired (UserMessage content options # rest) \<longleftrightarrow> paired rest"
  by simp

declare paired.simps(2) [simp del]

lemma paired_append: "paired messages \<Longrightarrow> paired rest \<Longrightarrow> paired (messages @ rest)"
  by (induction messages rule: paired_induct) simp_all

lemma paired_concat: "(\<And>xs. xs \<in> set xss \<Longrightarrow> paired xs) \<Longrightarrow> paired (concat xss)"
  by (induction xss) (simp_all add: paired_append)

lemma paired_result_ids:
  "paired messages \<Longrightarrow> concat (map resultIdsOf messages) = concat (map callIdsOf messages)"
  by (induction messages rule: paired_induct) (auto simp: is_AssistantMessage_def)

section \<open>Their turns\<close>

lemma turnIds_runStep:
  "concat (map turnCallIds (runStep p ts)) = callIdsOf (placedMessage p) @ concat (map turnCallIds ts)"
  "concat (map turnResultIds (runStep p ts)) =
     resultIdsOf (placedMessage p) @ concat (map turnResultIds ts)"
  by (cases ts; simp add: runStep_def Let_def turnCallIds_def turnResultIds_def callsIn_def
      resultsIn_def split_beta comp_def)+

lemma turnIds_runs:
  "concat (map turnCallIds (runs ps)) = concat (map (callIdsOf \<circ> placedMessage) ps)"
  "concat (map turnResultIds (runs ps)) = concat (map (resultIdsOf \<circ> placedMessage) ps)"
  by (induction ps) (simp_all add: turnIds_runStep)

lemma part_not_result [simp]:
  "\<not> is_PartResult (partOfModel part)" "\<not> is_PartResult (partOfSaid said)"
  by (cases part; simp) (cases said; simp)

lemma no_results_no_result_part:
  "resultsCarried message = [] \<Longrightarrow> part \<in> set (partsOf message) \<Longrightarrow> \<not> is_PartResult part"
  by (cases message) auto

lemma turnResultIds_Nil:
  assumes "turnResultIds t = []" and "(part, p) \<in> set (placedParts t)"
  shows "\<not> is_PartResult part"
proof -
  from assms(2) have "p \<in> set (tn_placed t)" and "part \<in> set (partsOf (placedMessage p))"
    by (auto simp: placedParts_def)
  moreover from this assms(1) have "resultsCarried (placedMessage p) = []"
    by (auto simp: turnResultIds_def resultsIn_def)
  ultimately show ?thesis using no_results_no_result_part by blast
qed

definition orderly :: "turn list \<Rightarrow> bool" where
  "orderly ts \<longleftrightarrow>
     answersAll {} ts \<and> (\<forall>t \<in> set ts. tn_role t = AssistantTurn \<or> resultsFirst t)"

lemma resultsFirst_none: "turnResultIds t = [] \<Longrightarrow> resultsFirst t"
  by (auto simp: resultsFirst_def dest: set_dropWhileD turnResultIds_Nil)

lemma orderly_first_user:
  "orderly (t # ts) \<Longrightarrow> tn_role t = UserTurn \<Longrightarrow> turnResultIds t = []"
  by (simp add: orderly_def)

lemma orderly_plain:
  assumes "orderly ts" and "callsMade (placedMessage p) = []" and "resultsCarried (placedMessage p) = []"
  shows "orderly (runStep p ts)"
proof (cases ts)
  case Nil
  let ?t = "\<lparr>tn_role = turnRoleOf (placedMessage p), tn_placed = [p]\<rparr>"
  have "turnResultIds ?t = []" and "turnCallIds ?t = []"
    using assms by (simp_all add: turnResultIds_def turnCallIds_def callsIn_def resultsIn_def)
  with Nil show ?thesis
    using resultsFirst_none [of ?t] role_cases [of ?t] by (auto simp: runStep_def orderly_def Let_def)
next
  case (Cons t rest)
  let ?new = "\<lparr>tn_role = turnRoleOf (placedMessage p), tn_placed = [p]\<rparr>"
  let ?t = "t\<lparr>tn_placed := p # tn_placed t\<rparr>"
  have new: "turnResultIds ?new = []" "turnCallIds ?new = []"
    and joined: "turnResultIds ?t = turnResultIds t" "turnCallIds ?t = turnCallIds t"
    using assms by (simp_all add: turnResultIds_def turnCallIds_def callsIn_def resultsIn_def)
  have user: "tn_role t = UserTurn \<Longrightarrow> turnResultIds t = []"
    using assms(1) Cons orderly_first_user by blast
  then have "tn_role t = UserTurn \<Longrightarrow> resultsFirst ?t"
    using joined by (simp add: resultsFirst_none)
  then show ?thesis
    using assms(1) Cons new joined user resultsFirst_none [OF new(1)] role_cases [of t] role_cases [of ?new]
    by (auto simp: runStep_def orderly_def Let_def)
qed

lemma orderly_calls:
  assumes "orderly ts" and "placedMessage a = call" and "placedMessage r = ToolMessage results options"
    and "is_AssistantMessage call" and "map trp_toolCallId results = callIdsOf call"
  shows "orderly (runStep a (runStep r ts))"
proof -
  have roles: "turnRoleOf call = AssistantTurn" "turnRoleOf (ToolMessage results options) = UserTurn"
    using assms(4) by (simp_all add: turnRoleOf_def)
  let ?new = "\<lparr>tn_role = UserTurn, tn_placed = [r]\<rparr>"
  let ?calls = "\<lparr>tn_role = AssistantTurn, tn_placed = [a]\<rparr>"
  have ids: "turnResultIds ?new = callIdsOf call" "turnCallIds ?calls = callIdsOf call"
    using assms by (simp_all add: turnResultIds_def turnCallIds_def callsIn_def resultsIn_def comp_def)
  have "dropWhile (\<lambda>(part, _). is_PartResult part) (placedParts ?new) = []"
    using assms(3) by (auto simp: dropWhile_eq_Nil_conv placedParts_def)
  then have first: "resultsFirst ?new" by (simp only: resultsFirst_def) simp
  show ?thesis
  proof (cases "ts \<noteq> [] \<and> tn_role (hd ts) = UserTurn")
    case False
    then have "runStep r ts = ?new # ts"
      using assms(3) roles by (cases ts) (simp_all add: runStep_def)
    then show ?thesis
      using assms roles ids first by (simp add: runStep_def orderly_def)
  next
    case True
    then obtain t rest where ts: "ts = t # rest" "tn_role t = UserTurn" by (cases ts) auto
    let ?t = "t\<lparr>tn_placed := r # tn_placed t\<rparr>"
    have none: "turnResultIds t = []" using ts assms(1) orderly_first_user by blast
    then have joined: "turnResultIds ?t = callIdsOf call"
      using assms by (simp add: turnResultIds_def resultsIn_def comp_def)
    have "placedParts ?t = map (\<lambda>part. (part, r)) (map PartResult results) @ placedParts t"
      using assms(3) by (simp add: placedParts_def)
    then have "dropWhile (\<lambda>(part, _). is_PartResult part) (placedParts ?t) =
        dropWhile (\<lambda>(part, _). is_PartResult part) (placedParts t)"
      by (simp only:) (subst dropWhile_append2, auto)
    then have "resultsFirst ?t" using turnResultIds_Nil [OF none]
      by (auto simp: resultsFirst_def dest!: set_dropWhileD)
    moreover have "runStep r ts = ?t # rest"
      using assms(3) roles ts by (simp add: runStep_def)
    ultimately show ?thesis
      using assms roles ids ts joined none by (simp add: runStep_def orderly_def)
  qed
qed

lemma paired_orderly: "paired (map placedMessage ps) \<Longrightarrow> orderly (runs ps)"
proof (induction "map placedMessage ps" arbitrary: ps rule: paired_induct)
  case Nil
  then show ?case by (simp add: orderly_def)
next
  case (Plain message rest)
  from Plain.hyps(6) obtain p qs where "ps = p # qs" "placedMessage p = message" "map placedMessage qs = rest"
    by auto
  with Plain show ?case by (simp add: orderly_plain)
next
  case (Calls call results options rest)
  from Calls.hyps(6) obtain a r qs where "ps = a # r # qs" "placedMessage a = call"
      "placedMessage r = ToolMessage results options" "map placedMessage qs = rest"
    by auto
  with Calls show ?case using orderly_calls by simp
qed

text \<open>The faults that remain possible are those of the ends and of the text.\<close>

lemma faults_subset_sort [simp]: "set (sort_key f xs) = set xs"
  by simp

lemma opening_kind: "fault \<in> set (openingFaults messages) \<Longrightarrow> xf_fault fault = OpensWithAssistant"
  by (cases messages) (auto simp: openingFaults_def faultAt_def split: if_split_asm)

lemma closing_kind: "fault \<in> set (closingFaults messages) \<Longrightarrow> xf_fault fault = EndsWithAssistant"
  by (auto simp: closingFaults_def faultAt_def split: if_split_asm)

lemma content_kind:
  "fault \<in> set (contentFaults placed) \<Longrightarrow>
     xf_fault fault = BlankText \<or> partsOf (placedMessage placed) = [] \<and> xf_fault fault = EmptyContent"
  by (auto simp: contentFaults_def blankFault_def faultAt_def Let_def
      split: if_split_asm message_part.splits)

lemma paired_faults:
  assumes "paired (map am_message (as_messages assembled))"
    and "distinct (concat (map (callIdsOf \<circ> am_message) (as_messages assembled)))"
    and "\<forall>entry \<in> set (as_messages assembled). partsOf (am_message entry) \<noteq> []"
    and "fault \<in> set (exchangeFaults assembled)"
  shows "xf_fault fault \<in> {OpensWithAssistant, EndsWithAssistant, BlankText}"
proof -
  let ?messages = "as_messages assembled"
  let ?turns = "providerTurns ?messages"
  have entries: "map placedMessage (placedIn ?messages) = map am_message ?messages"
    using arg_cong [OF placedIn_entries [of ?messages], of "map am_message"] by (simp add: comp_def)
  then have orderly: "orderly ?turns"
    using assms(1) paired_orderly by (simp add: providerTurns_runs)
  have order: "concat (map orderFaults ?turns) = []"
    using orderly by (simp add: orderly_def orderFaults_none)
  have "linked None ?turns"
    using orderly linked_answersAll [of None ?turns] alternating_runs
    by (simp add: orderly_def providerTurns_runs waitingAfter_def)
  note answered = this [unfolded linked_faults]
  have calls: "concat (map turnCallIds ?turns) = concat (map (callIdsOf \<circ> am_message) ?messages)"
    and results: "concat (map turnResultIds ?turns) = concat (map (resultIdsOf \<circ> am_message) ?messages)"
    unfolding providerTurns_runs turnIds_runs using entries
    by (simp_all only: list.map_comp [symmetric])
  have "concat (map (resultIdsOf \<circ> am_message) ?messages) = concat (map (callIdsOf \<circ> am_message) ?messages)"
    using paired_result_ids [OF assms(1)] by (simp add: comp_def)
  with calls results assms(2)
  have ids: "distinct (concat (map turnCallIds ?turns))" "distinct (concat (map turnResultIds ?turns))"
    by argo+
  have repeated:
    "repeatedIdFaults RepeatedCallId ''call'' {}
       (map (\<lambda>(part, placed). (tcp_toolCallId part, placed)) (concat (map callsIn ?turns))) = []"
    "repeatedIdFaults RepeatedResultId ''result'' {}
       (map (\<lambda>(part, placed). (trp_toolCallId part, placed)) (concat (map resultsIn ?turns))) = []"
    unfolding repeatedIdFaults_none turnCallIds_concat turnResultIds_concat using ids by simp_all
  have fault: "fault \<in> set (openingFaults ?messages) \<or> fault \<in> set (closingFaults ?messages) \<or>
      fault \<in> set (concat (map contentFaults (placedIn ?messages)))"
    using assms(4) order answered repeated
    unfolding exchangeFaults_def Let_def set_sort set_append by (simp only:) auto
  have "partsOf (placedMessage placed) \<noteq> []" if "placed \<in> set (placedIn ?messages)" for placed
    using that assms(3) placedIn_set [of ?messages] by blast
  with fault show ?thesis by (auto dest: opening_kind closing_kind content_kind)
qed

end
