(* ===== verification/Walk_Facts.thy ===== *)
theory Walk_Facts
  imports Messages_From_Events Exchange_Facts
begin

text \<open>
  The messages made from a log are a paired exchange, whatever the log holds: the invariant of the walk
  over the events, and what it means for the request.
\<close>

section \<open>The invariant of the walk\<close>

definition groupCallIds :: "walk \<Rightarrow> string list" where
  "groupCallIds st = concat (map (callIdsOf \<circ> gr_message) (wk_groups st))"

definition walkOk :: "walk \<Rightarrow> bool" where
  "walkOk st \<longleftrightarrow>
     (\<forall>entry \<in> set (wk_groups st). \<not> is_ToolMessage (gr_message entry)) \<and>
     distinct (groupCallIds st) \<and>
     set (groupCallIds st) \<subseteq> set (wk_claimed st) \<and> set (wk_claimed st) \<subseteq> set (wk_unavailable st) \<and>
     (\<forall>callId answer. wk_settlements st callId = Some answer \<longrightarrow>
        trp_toolCallId (sc_part answer) = callId)"

lemma walkOk_start: "walkOk (walkStart events)"
  by (simp add: walkOk_def walkStart_def groupCallIds_def)

lemma walkOk_closed [simp]: "walkOk (st\<lparr>wk_openAssistant := open_now\<rparr>) = walkOk st"
  by (simp add: walkOk_def groupCallIds_def)

lemma walkOk_push:
  "walkOk st \<Longrightarrow> callsMade message = [] \<Longrightarrow> \<not> is_ToolMessage message \<Longrightarrow>
     walkOk (st\<lparr>wk_groups := wk_groups st @ [\<lparr>gr_message = message, gr_origin = origin\<rparr>]\<rparr>)"
  by (auto simp: walkOk_def groupCallIds_def)

lemma walkOk_pushUser: "walkOk st \<Longrightarrow> walkOk (pushUser event content st)"
  by (simp add: pushUser_def walkOk_push)

lemma walkOk_settlement: "walkOk st \<Longrightarrow> walkOk (walkSettlement event st)"
  by (auto simp: walkOk_def groupCallIds_def walkSettlement_def toolResultPart_def Let_def
      split: if_split_asm)

lemma saidPart_calls [simp]: "callsMade (AssistantMessage (map saidPart parts) options) = []"
  by (auto simp: comp_def split: said_part.splits elim: saidPart.elims)

lemma emittedId_fresh:
  "set (wk_claimed st) \<subseteq> set (wk_unavailable st) \<Longrightarrow> emittedId st callId \<notin> set (wk_claimed st)"
  using freshCallId_fresh by (auto simp: emittedId_def)

lemma appendCall_ids:
  "concat (map (callIdsOf \<circ> gr_message) (appendCall groups event open_now callId)) =
     concat (map (callIdsOf \<circ> gr_message) groups) @ [callId]"
proof (cases "groups \<noteq> [] \<and> open_now \<and> is_AssistantMessage (gr_message (last groups))")
  case True
  then obtain front final content options where "groups = front @ [final]"
    and "gr_message final = AssistantMessage content options"
    by (metis append_butlast_last_id message.collapse(2))
  then show ?thesis using True by (simp add: appendCall_def toolCallPart_def)
qed (auto simp: appendCall_def toolCallPart_def)

lemma appendCall_roles:
  "\<forall>entry \<in> set groups. \<not> is_ToolMessage (gr_message entry) \<Longrightarrow>
     \<forall>entry \<in> set (appendCall groups event open_now callId). \<not> is_ToolMessage (gr_message entry)"
  by (auto simp: appendCall_def Let_def dest: in_set_butlastD)

lemma walkOk_call:
  assumes "walkOk st"
  shows "walkOk (walkCall event st)"
proof -
  let ?emitted = "emittedId st (eb_callId (ev_body event))"
  have "?emitted \<notin> set (wk_claimed st)" using assms by (simp add: emittedId_fresh walkOk_def)
  moreover have "groupCallIds (walkCall event st) = groupCallIds st @ [?emitted]"
    by (simp add: groupCallIds_def walkCall_def Let_def appendCall_ids)
  ultimately show ?thesis
    using assms appendCall_roles by (auto simp: walkOk_def walkCall_def Let_def)
qed

lemma walkOk_step: "walkOk st \<Longrightarrow> walkOk (walkStep current nudging st event)"
  using walkOk_push [of st "AssistantMessage (map saidPart parts) None" "originOf event" for parts]
  by (cases "ev_body event")
    (simp_all add: walkStep_def Let_def walkOk_call walkOk_pushUser walkOk_settlement del: callsMade.simps)

lemma walkOk_events: "walkOk (walkEvents events)"
proof -
  have "walkOk (foldl (walkStep current nudging) st es)" if "walkOk st" for current nudging st es
    using that by (induction es arbitrary: st) (simp_all add: walkOk_step)
  then show ?thesis unfolding walkEvents_def using walkOk_start by blast
qed

section \<open>The messages of the groups\<close>

lemma messagesForGroup_paired:
  assumes "\<not> is_ToolMessage (gr_message entry)"
    and "\<forall>callId answer. settlements callId = Some answer \<longrightarrow> trp_toolCallId (sc_part answer) = callId"
  shows "paired (map am_message (messagesForGroup entry settlements))"
proof -
  have "map trp_toolCallId (map (\<lambda>call. case settlements (tcp_toolCallId call) of
      None \<Rightarrow> unsettledResult call | Some answer \<Rightarrow> sc_part answer) calls) = map tcp_toolCallId calls"
    for calls
    using assms(2) by (auto simp: unsettledResult_def split: option.splits)
  then show ?thesis
    using assms(1) unfolding messagesForGroup_def Let_def
    by (cases "gr_message entry") (simp_all del: callsMade.simps add: comp_def)
qed

lemma messagesForGroup_ids:
  "\<not> is_ToolMessage (gr_message entry) \<Longrightarrow>
   concat (map (callIdsOf \<circ> am_message) (messagesForGroup entry settlements)) =
     callIdsOf (gr_message entry)"
  by (cases "gr_message entry") (auto simp: messagesForGroup_def Let_def)

lemma messagesForGroup_content:
  "message \<in> set (messagesForGroup entry settlements) \<Longrightarrow> partsOf (am_message message) \<noteq> []"
  by (auto simp: messagesForGroup_def Let_def split: if_split_asm)

lemma groupMessages_paired: "walkOk st \<Longrightarrow> paired (map am_message (groupMessages st))"
  unfolding groupMessages_def map_concat
  by (rule paired_concat) (auto simp: walkOk_def intro!: messagesForGroup_paired)

lemma groupMessages_ids:
  assumes "walkOk st"
  shows "concat (map (callIdsOf \<circ> am_message) (groupMessages st)) = groupCallIds st"
proof -
  have "concat (map (callIdsOf \<circ> am_message) (concat (map (\<lambda>entry. messagesForGroup entry settlements) groups)))
      = concat (map (callIdsOf \<circ> gr_message) groups)"
    if "\<forall>entry \<in> set groups. \<not> is_ToolMessage (gr_message entry)" for groups settlements
    using that by (induction groups) (simp_all add: messagesForGroup_ids)
  with assms show ?thesis by (simp add: groupMessages_def groupCallIds_def walkOk_def)
qed

lemma groupMessages_content:
  "message \<in> set (groupMessages st) \<Longrightarrow> partsOf (am_message message) \<noteq> []"
  by (auto simp: groupMessages_def dest: messagesForGroup_content)

lemmas groupMessages_facts = groupMessages_paired [OF walkOk_events] groupMessages_content

lemma groupMessages_distinct:
  "distinct (concat (map (callIdsOf \<circ> am_message) (groupMessages (walkEvents events))))"
  using walkOk_events [of events] groupMessages_ids [OF walkOk_events] by (simp add: walkOk_def)

text \<open>C7: whatever the log holds, the messages made from it are a sound exchange. Every call is answered in
  the very next message, every result answers a call just made, no call id and no result id is used
  twice, results come first in their turn and no message is empty. What a provider can still object to
  is only an assistant message at either end or an empty text the log itself holds.\<close>

theorem messagesFromEvents_exchange:
  "\<exists>assembled. rl_apply messagesFromEvents input ctx = Inr assembled \<and>
     xf_fault ` set (exchangeFaults assembled) \<subseteq> {OpensWithAssistant, EndsWithAssistant, BlankText}"
proof -
  let ?assembled = "\<lparr>as_system = as_system input, as_messages = groupMessages (walkEvents (rc_events ctx))\<rparr>"
  have "xf_fault fault \<in> {OpensWithAssistant, EndsWithAssistant, BlankText}"
    if "fault \<in> set (exchangeFaults ?assembled)" for fault
    using that groupMessages_facts groupMessages_distinct by (intro paired_faults [of ?assembled]) simp_all
  then have "xf_fault ` set (exchangeFaults ?assembled) \<subseteq> {OpensWithAssistant, EndsWithAssistant, BlankText}"
    by blast
  then show ?thesis by (simp add: messagesFromEvents_def)
qed

end
