(* ===== verification/Sound_Exchange.thy ===== *)
theory Sound_Exchange
  imports Assemble Walk_Facts
begin

text \<open>
  The whole default pipeline keeps the exchange sound. Rules that merge blocks or splice summaries into
  the messages put them between messages by sequence, so they could come between a call and its result:
  \<open>undisturbed\<close> says of a log that no ending and no summary falls there, and that no summary covers one of
  the two only.
\<close>

section \<open>Pairs that keep together\<close>

definition plainEntry :: "assembled_message \<Rightarrow> bool" where
  "plainEntry entry \<longleftrightarrow> callsMade (am_message entry) = [] \<and> \<not> is_ToolMessage (am_message entry)"

definition answersTo :: "assembled_message \<Rightarrow> assembled_message \<Rightarrow> bool" where
  "answersTo call result \<longleftrightarrow>
     is_AssistantMessage (am_message call) \<and> callsMade (am_message call) \<noteq> [] \<and>
     is_ToolMessage (am_message result) \<and>
     resultIdsOf (am_message result) = callIdsOf (am_message call)"

text \<open>Paired entries, each pair standing in a relation of the sequences of its origins.\<close>

inductive pairedBy :: "(nat \<Rightarrow> nat \<Rightarrow> bool) \<Rightarrow> assembled_message list \<Rightarrow> bool" for R where
  Nil: "pairedBy R []"
| Plain: "plainEntry entry \<Longrightarrow> pairedBy R entries \<Longrightarrow> pairedBy R (entry # entries)"
| Pair: "answersTo call result \<Longrightarrow> R (originSeq call) (originSeq result) \<Longrightarrow> pairedBy R entries \<Longrightarrow>
    pairedBy R (call # result # entries)"

declare pairedBy.intros [intro]

lemma pairedBy_paired: "pairedBy R entries \<Longrightarrow> paired (map am_message entries)"
proof (induction rule: pairedBy.induct)
  case (Pair call result entries)
  then obtain results options where "am_message result = ToolMessage results options"
    by (auto simp: answersTo_def is_ToolMessage_def)
  with Pair show ?case by (simp add: answersTo_def)
qed (simp_all add: plainEntry_def)

text \<open>The sequences of a call and of the entry behind it.\<close>

fun callPairs :: "assembled_message list \<Rightarrow> (nat \<times> nat) list" where
  "callPairs (call # result # entries) =
     (if callsMade (am_message call) \<noteq> [] then [(originSeq call, originSeq result)] else []) @
     callPairs (result # entries)"
| "callPairs _ = []"

lemma callPairs_Cons:
  "callsMade (am_message entry) = [] \<Longrightarrow> callPairs (entry # entries) = callPairs entries"
  by (cases entries) simp_all

lemma tool_calls [simp]: "is_ToolMessage message \<Longrightarrow> callsMade message = []"
  by (cases message) simp_all

lemma paired_pairedBy:
  "paired (map am_message entries) \<Longrightarrow> \<forall>(a, t) \<in> set (callPairs entries). R a t \<Longrightarrow> pairedBy R entries"
proof (induction "map am_message entries" arbitrary: entries rule: paired_induct)
  case Nil
  then show ?case by auto
next
  case (Plain message rest)
  then obtain entry others where "entries = entry # others" "am_message entry = message"
      "rest = map am_message others" by auto
  with Plain show ?case by (auto simp: callPairs_Cons plainEntry_def)
next
  case (Calls call results options rest)
  then obtain a t others where "entries = a # t # others" "am_message a = call"
      "am_message t = ToolMessage results options" "rest = map am_message others" by auto
  with Calls show ?case by (auto simp: callPairs_Cons answersTo_def)
qed

lemma pairedBy_append: "pairedBy R xs \<Longrightarrow> pairedBy R ys \<Longrightarrow> pairedBy R (xs @ ys)"
  by (induction rule: pairedBy.induct) auto

text \<open>The entries whose sequence decides whether they stay go or stay in pairs.\<close>

lemma pairedBy_filter:
  "pairedBy R entries \<Longrightarrow> (\<And>a t. R a t \<Longrightarrow> P a = P t) \<Longrightarrow>
     pairedBy R (filter (\<lambda>entry. P (originSeq entry)) entries)"
  by (induction rule: pairedBy.induct) auto

text \<open>No pair lies across a cut at \<open>seq\<close>.\<close>

definition uncut :: "(nat \<Rightarrow> nat \<Rightarrow> bool) \<Rightarrow> nat \<Rightarrow> bool" where
  "uncut R seq \<longleftrightarrow> (\<forall>a t. R a t \<longrightarrow> \<not> (a \<le> seq \<and> seq < t))"

lemma pairedBy_cut:
  assumes "pairedBy R entries" and "uncut R seq"
  shows "pairedBy R (takeWhile (\<lambda>entry. \<not> originSeq entry > seq) entries) \<and>
    pairedBy R (dropWhile (\<lambda>entry. \<not> originSeq entry > seq) entries)"
  using assms
proof (induction rule: pairedBy.induct)
  case (Pair call result entries)
  then have "\<not> (originSeq call \<le> seq \<and> seq < originSeq result)" by (auto simp: uncut_def)
  with Pair show ?case by auto
qed auto

lemma pairedBy_spliced:
  "pairedBy R entries \<Longrightarrow> plainEntry summary \<Longrightarrow> uncut R (originSeq summary) \<Longrightarrow>
     pairedBy R (spliced entries summary)"
  using pairedBy_cut [of R entries "originSeq summary"]
  by (auto simp: spliced_def intro!: pairedBy_append)

lemma pairedBy_merge:
  "pairedBy R entries \<Longrightarrow> \<forall>block \<in> set blocks. plainEntry block \<and> uncut R (originSeq block) \<Longrightarrow>
     pairedBy R (mergeBySeq entries blocks)"
proof (induction entries blocks rule: mergeBySeq.induct)
  case (2 entries block blocks)
  then show ?case
    using pairedBy_cut [of R entries "originSeq block"] by (auto intro!: pairedBy_append)
qed simp

text \<open>Entries changed one by one, with their calls, results and origins kept.\<close>

definition sameShape :: "assembled_message \<Rightarrow> assembled_message \<Rightarrow> bool" where
  "sameShape before after \<longleftrightarrow>
     am_origin after = am_origin before \<and>
     roleText (am_message after) = roleText (am_message before) \<and>
     callIdsOf (am_message after) = callIdsOf (am_message before) \<and>
     resultIdsOf (am_message after) = resultIdsOf (am_message before) \<and>
     length (partsOf (am_message after)) = length (partsOf (am_message before))"

lemma roleText_kinds:
  "roleText m = roleText m' \<Longrightarrow> is_ToolMessage m = is_ToolMessage m' \<and>
     is_AssistantMessage m = is_AssistantMessage m'"
  by (cases m; cases m') simp_all

lemma sameShape_plain: "sameShape before after \<Longrightarrow> plainEntry before \<Longrightarrow> plainEntry after"
  unfolding sameShape_def plainEntry_def using roleText_kinds by (metis map_is_Nil_conv)

lemma sameShape_answers:
  "sameShape call call' \<Longrightarrow> sameShape result result' \<Longrightarrow> answersTo call result \<Longrightarrow> answersTo call' result'"
  unfolding sameShape_def answersTo_def using roleText_kinds by (metis map_is_Nil_conv)

lemma pairedBy_shape:
  "pairedBy R before \<Longrightarrow> list_all2 sameShape before after \<Longrightarrow> pairedBy R after"
proof (induction arbitrary: after rule: pairedBy.induct)
  case (Plain entry entries)
  then show ?case by (auto simp: list_all2_Cons1 intro: sameShape_plain)
next
  case (Pair call result entries)
  from Pair.prems obtain call' result' rest where "after = call' # result' # rest"
    and shapes: "sameShape call call'" "sameShape result result'" "list_all2 sameShape entries rest"
    by (auto simp: list_all2_Cons1)
  moreover have "R (originSeq call') (originSeq result')"
    using shapes Pair.hyps(2) by (simp add: sameShape_def)
  ultimately show ?case using Pair sameShape_answers by blast
qed auto

section \<open>Sound requests\<close>

definition exchangeIds :: "assembled_message list \<Rightarrow> string list" where
  "exchangeIds entries = concat (map (callIdsOf \<circ> am_message) entries)"

definition sound :: "(nat \<Rightarrow> nat \<Rightarrow> bool) \<Rightarrow> assembled_message list \<Rightarrow> bool" where
  "sound R entries \<longleftrightarrow>
     pairedBy R entries \<and> distinct (exchangeIds entries) \<and>
     (\<forall>entry \<in> set entries. partsOf (am_message entry) \<noteq> [])"

lemma sound_faults:
  "sound R (as_messages assembled) \<Longrightarrow>
     xf_fault ` set (exchangeFaults assembled) \<subseteq> {OpensWithAssistant, EndsWithAssistant, BlankText}"
  using paired_faults [of assembled] pairedBy_paired [of R "as_messages assembled"]
  by (auto simp: sound_def exchangeIds_def)

lemma sound_Nil [simp]: "sound R []"
  by (auto simp: sound_def exchangeIds_def)

lemma exchangeIds_append [simp]: "exchangeIds (xs @ ys) = exchangeIds xs @ exchangeIds ys"
  and exchangeIds_Cons [simp]: "exchangeIds (x # xs) = callIdsOf (am_message x) @ exchangeIds xs"
  and exchangeIds_Nil [simp]: "exchangeIds [] = []"
  by (simp_all add: exchangeIds_def)

lemma exchangeIds_filter: "distinct (exchangeIds xs) \<Longrightarrow> distinct (exchangeIds (filter P xs)) \<and>
    set (exchangeIds (filter P xs)) \<subseteq> set (exchangeIds xs)"
  by (induction xs) auto

lemma exchangeIds_cut: "exchangeIds (takeWhile P xs) @ exchangeIds (dropWhile P xs) = exchangeIds xs"
  by (metis exchangeIds_append takeWhile_dropWhile_id)

lemma exchangeIds_spliced:
  "plainEntry summary \<Longrightarrow> exchangeIds (spliced xs summary) = exchangeIds xs"
  by (simp add: spliced_def plainEntry_def exchangeIds_cut)

lemma exchangeIds_merge:
  "\<forall>block \<in> set blocks. plainEntry block \<Longrightarrow> exchangeIds (mergeBySeq xs blocks) = exchangeIds xs"
proof (induction xs blocks rule: mergeBySeq.induct)
  case (2 xs block blocks)
  then have "exchangeIds (mergeBySeq xs (block # blocks)) =
      exchangeIds (takeWhile (\<lambda>e. \<not> originSeq e > originSeq block) xs) @
      exchangeIds (dropWhile (\<lambda>e. \<not> originSeq e > originSeq block) xs)"
    by (simp add: plainEntry_def)
  then show ?case by (simp only: exchangeIds_cut)
qed simp

lemma exchangeIds_shape: "list_all2 sameShape before after \<Longrightarrow> exchangeIds after = exchangeIds before"
  by (induction rule: list_all2_induct) (auto simp: sameShape_def)

lemma shape_content:
  "list_all2 sameShape before after \<Longrightarrow> \<forall>entry \<in> set before. partsOf (am_message entry) \<noteq> [] \<Longrightarrow>
     \<forall>entry \<in> set after. partsOf (am_message entry) \<noteq> []"
  by (induction rule: list_all2_induct) (auto simp: sameShape_def)

lemma sound_shape: "sound R before \<Longrightarrow> list_all2 sameShape before after \<Longrightarrow> sound R after"
  unfolding sound_def using pairedBy_shape exchangeIds_shape shape_content by metis

lemma plain_userText: "plainEntry \<lparr>am_message = userText s, am_origin = origin\<rparr>"
  by (simp add: plainEntry_def userText_def)

lemma sound_tail: "sound R (as_messages input) \<Longrightarrow> sound R (as_messages (appendedAtTail input ctx s))"
  using plain_userText [of s] pairedBy_append [of R "as_messages input"]
  by (auto simp: sound_def appendedAtTail_def)

section \<open>Logs nothing falls into\<close>

text \<open>The sequences at which the rules put a message of their own: the endings of sub-agents and the summaries.\<close>

definition breaks :: "event list \<Rightarrow> nat list" where
  "breaks events = map originSeq (endingBlocks events) @ map ev_seq (compactionWatermarks events)"

definition steady :: "event list \<Rightarrow> nat \<Rightarrow> nat \<Rightarrow> bool" where
  "steady events a t \<longleftrightarrow>
     (\<forall>s \<in> set (breaks events). \<not> (a \<le> s \<and> s < t)) \<and>
     (\<forall>w \<in> set (compactionWatermarks events).
        (a \<in> outlivesCompaction events \<or> \<not> covered w a) =
        (t \<in> outlivesCompaction events \<or> \<not> covered w t))"

definition undisturbed :: "event list \<Rightarrow> bool" where
  "undisturbed events \<longleftrightarrow>
     (\<forall>(a, t) \<in> set (callPairs (groupMessages (walkEvents events))). steady events a t)"

lemma uncut_breaks: "s \<in> set (breaks events) \<Longrightarrow> uncut (steady events) s"
  by (auto simp: uncut_def steady_def)

section \<open>What each rule keeps\<close>

lemma sound_messages:
  "undisturbed events \<Longrightarrow> sound (steady events) (groupMessages (walkEvents events))"
  using groupMessages_facts groupMessages_distinct [of events]
  by (auto simp: sound_def exchangeIds_def undisturbed_def intro!: paired_pairedBy)

lemma plain_ending: "block \<in> set (endingBlocks events) \<Longrightarrow> plainEntry block"
  by (auto simp: endingBlocks_def blockFor_def plain_userText split: if_split_asm)

lemma ending_content: "block \<in> set (endingBlocks events) \<Longrightarrow> partsOf (am_message block) \<noteq> []"
  by (auto simp: endingBlocks_def blockFor_def split: if_split_asm)

lemma sound_endings:
  "sound (steady events) messages \<Longrightarrow> sound (steady events) (mergeBySeq messages (endingBlocks events))"
  using pairedBy_merge [of "steady events" messages "endingBlocks events"] exchangeIds_merge
    plain_ending ending_content uncut_breaks
  by (auto simp: sound_def mergeBySeq_set breaks_def)

lemma sound_compacted_one:
  assumes "sound (steady events) messages" and "w \<in> set (compactionWatermarks events)"
  shows "sound (steady events) (compactedBy (outlivesCompaction events) messages w)"
proof -
  let ?kept = "filter (\<lambda>entry. originSeq entry \<in> outlivesCompaction events \<or>
      \<not> covered w (originSeq entry)) messages"
  have plain: "plainEntry (summaryMessage w)" by (simp add: summaryMessage_def plain_userText)
  have "pairedBy (steady events) ?kept"
    using assms pairedBy_filter
      [where P = "\<lambda>seq. seq \<in> outlivesCompaction events \<or> \<not> covered w seq" and R = "steady events"]
    by (simp add: sound_def steady_def)
  moreover have "uncut (steady events) (originSeq (summaryMessage w))"
    using assms(2) by (intro uncut_breaks) (simp add: breaks_def summaryMessage_def originOf_def)
  ultimately have "pairedBy (steady events) (compactedBy (outlivesCompaction events) messages w)"
    unfolding compactedBy_def using plain by (intro pairedBy_spliced)
  moreover have "exchangeIds (compactedBy (outlivesCompaction events) messages w) = exchangeIds ?kept"
    unfolding compactedBy_def using plain by (rule exchangeIds_spliced)
  moreover have "distinct (exchangeIds ?kept)"
    using assms(1) exchangeIds_filter unfolding sound_def by blast
  moreover have "\<forall>entry \<in> set (compactedBy (outlivesCompaction events) messages w).
      partsOf (am_message entry) \<noteq> []"
    using assms(1) unfolding compactedBy_set sound_def by (simp add: summaryMessage_def)
  ultimately show ?thesis unfolding sound_def by simp
qed

lemma sound_compacted:
  "sound (steady events) messages \<Longrightarrow> set ws \<subseteq> set (compactionWatermarks events) \<Longrightarrow>
     sound (steady events) (foldl (compactedBy (outlivesCompaction events)) messages ws)"
  by (induction ws arbitrary: messages) (simp_all add: sound_compacted_one)

lemma shape_downgraded:
  "list_all2 sameShape entries (downgradedEntries allowance claimed entries)"
proof (induction allowance claimed entries rule: downgradedEntries.induct)
  case (2 allowance claimed entry entries)
  obtain claimed' entry' where entry: "downgradedEntry allowance claimed entry = (claimed', entry')"
    by fastforce
  then have "sameShape entry entry'"
    using downgradedMessage_claims [of allowance claimed "am_message entry"]
    by (auto simp: downgradedEntry_def sameShape_def split: if_split_asm prod.splits)
  with entry "2.IH" [OF entry [symmetric] refl] show ?case by simp
qed simp

lemma shape_marked: "list_all2 sameShape messages (markedMessages marks ttl messages)"
proof -
  have calls: "callIdsOf (AssistantMessage (markAt parts (markSaidPart ttl) content) options) =
      callIdsOf (AssistantMessage content options)" for parts content options
  proof -
    have "callIdsOf (AssistantMessage (map (\<lambda>(i, x). if i \<in> parts then markSaidPart ttl x else x)
        (enumerate n content)) options) = callIdsOf (AssistantMessage content options)" for n
      by (induction content arbitrary: n) (auto split: said_part.splits)
    then show ?thesis by (simp only: markAt_def)
  qed
  have results: "resultIdsOf (ToolMessage (markAt parts (markResultPart ttl) content) options) =
      resultIdsOf (ToolMessage content options)" for parts content options
  proof -
    have "map trp_toolCallId (map (\<lambda>(i, x). if i \<in> parts then markResultPart ttl x else x)
        (enumerate n content)) = map trp_toolCallId content" for n
      by (induction content arbitrary: n) (simp_all add: markResultPart_def)
    then show ?thesis by (simp add: markAt_def)
  qed
  have one: "sameShape entry (entry\<lparr>am_message := markMessage parts ttl (am_message entry)\<rparr>)"
    for entry parts
    using calls results partsOf_markMessage [of parts ttl "am_message entry"]
    by (cases "am_message entry") (simp_all add: sameShape_def markAt_def)
  have self: "sameShape entry entry" for entry by (simp add: sameShape_def)
  have "list_all2 sameShape messages (map (\<lambda>(i, entry). case marks i of None \<Rightarrow> entry
      | Some parts \<Rightarrow> entry\<lparr>am_message := markMessage parts ttl (am_message entry)\<rparr>) (enumerate n messages))"
    for n
    by (induction messages arbitrary: n) (simp_all add: one self split: option.split)
  then show ?thesis by (simp add: markedMessages_def)
qed

section \<open>The default pipeline\<close>

lemma sound_system:
  "sound R (as_messages (input\<lparr>as_system := blocks\<rparr>)) = sound R (as_messages input)"
  by simp

lemma default_rules_keep:
  assumes "rule \<in> set (defaultRules sources)" and "undisturbed (rc_events ctx)"
    and "sound (steady (rc_events ctx)) (as_messages input)"
    and "rl_apply rule input ctx = Inr assembled"
  shows "sound (steady (rc_events ctx)) (as_messages assembled)"
proof -
  from assms(1) consider
      "rule = systemPrompt (ps_prompt sources) (ps_launchDirectory sources)"
    | "rule = messagesFromEvents" | "rule = agentEndingsBlock" | "rule = compactedHistory"
    | "rule = imagesInContext MAX_IMAGE_BLOCKS"
    | "rule = worktreeBlock (ps_launchDirectory sources) (ps_repoRoot sources)"
    | f where "rule = executionLocationBlock f" | f where "rule = runningShellsBlock f"
    | f where "rule = runningServicesBlock f" | f where "rule = runningAgentsBlock f"
    by (auto simp: defaultRules_def option_list_def split: option.splits)
  then show ?thesis
  proof cases
    case 1
    with assms show ?thesis by (auto simp: systemPrompt_def split: sum.splits)
  next
    case 2
    with assms show ?thesis by (auto simp: messagesFromEvents_def sound_messages)
  next
    case 3
    with assms show ?thesis by (auto simp: agentEndingsBlock_def sound_endings split: if_split_asm)
  next
    case 4
    with assms show ?thesis
      by (auto simp: compactedHistory_def sound_compacted Let_def split: if_split_asm)
  next
    case 5
    with assms show ?thesis
      by (auto simp: imagesInContext_def Let_def split: if_split_asm
          intro: sound_shape [OF _ shape_downgraded])
  next
    case 6
    with assms show ?thesis by (auto simp: worktreeBlock_def Let_def split: option.splits)
  qed (use assms in \<open>auto simp: executionLocationBlock_def runningShellsBlock_def
      runningServicesBlock_def runningAgentsBlock_def Let_def sound_tail
      split: option.splits if_split_asm\<close>)
qed

lemma default_annotators_keep:
  assumes "annotator \<in> set defaultAnnotators"
    and "sound (steady (rc_events ctx)) (as_messages input)"
    and "an_apply annotator input trace ctx = Inr assembled"
  shows "sound (steady (rc_events ctx)) (as_messages assembled)"
  using assms
  by (auto simp: defaultAnnotators_def cacheBreakpoints_def Let_def split: if_split_asm
      intro: sound_shape [OF _ shape_marked])

interpretation exchange: keeping_stages
  "\<lambda>ctx request. undisturbed (rc_events ctx) \<longrightarrow> sound (steady (rc_events ctx)) (as_messages request)"
  "defaultRules sources" defaultAnnotators for sources
proof unfold_locales
  show "undisturbed (rc_events ctx) \<longrightarrow> sound (steady (rc_events ctx)) (as_messages emptyAssembled)" for ctx
    by (simp add: emptyAssembled_def)
qed (use default_rules_keep default_annotators_keep in blast)+

lemma undisturbed_request:
  "assemble (ap_rules (defaultPipeline sources)) (ap_annotators (defaultPipeline sources)) ctx policy =
     Inr run \<Longrightarrow>
   undisturbed (rc_events ctx) \<Longrightarrow>
     xf_fault ` set (exchangeFaults (run_assembled run)) \<subseteq> {OpensWithAssistant, EndsWithAssistant, BlankText}"
  using exchange.assembled_keeps [of sources ctx policy run] sound_faults
  by (simp add: defaultPipeline_def)


text \<open>A sub-agent ends after a call was answered, and the turn that called is then summarised.\<close>

definition sampleLog :: "event list" where
  "sampleLog =
     [rowAt 1 (UserSaid ''list the files'' None None),
      rowAt 2 (ToolCalled ''c1'' ''bash'' (Some (JString ''ls'')) 0),
      rowAt 3 (ToolResult ''c1'' ''bash'' (Some (JString ''a b'')) None None None None),
      rowAt 4 (AgentEnded ''a1'' ''explore'' ''look'' AgentFinished None ''done'' 1 2),
      rowAt 5 (ToolCalled ''c2'' ''bash'' (Some (JString ''ls'')) 0),
      rowAt 6 (ToolResult ''c2'' ''bash'' (Some (JString ''a b'')) None None None None),
      rowAt 7 (HistoryCompacted Prefix 1 4 ''listed them'' 4)]"

definition sampleSources :: pipeline_sources where
  "sampleSources =
     \<lparr>ps_prompt = (\<lambda>_. Inr [plainBlock ''prompt'']), ps_launchDirectory = ''/repo'', ps_repoRoot = None,
      ps_runningShells = None, ps_runningServices = None, ps_runningAgents = None,
      ps_executionLocation = None\<rparr>"

definition sampleContext :: rule_context where
  "sampleContext =
     \<lparr>rc_events = sampleLog, rc_threadId = ''t'', rc_step = 1,
      rc_provider = \<lparr>pv_id = ANTHROPIC_PROVIDER_ID, pv_modelId = ''m''\<rparr>,
      rc_countTokens = (\<lambda>_. 0), rc_previous = None\<rparr>"

lemma sampleLog_undisturbed: "undisturbed (rc_events sampleContext)"
  by code_simp


end
