(* ===== verification/Compaction_Facts.thy ===== *)
theory Compaction_Facts
  imports Compaction Sound_Exchange
begin

text \<open>
  What a planned compaction does to the request. A plan cuts just below a prompt of the operator, and
  the walk over the log never joins a call to a message from before a prompt, so the summary takes a
  call and its result away together or leaves both.
\<close>

section \<open>Where calls and results come from\<close>

text \<open>A call with the id is made by a message of that origin.\<close>

definition holder :: "walk \<Rightarrow> string \<Rightarrow> nat \<Rightarrow> bool" where
  "holder st i r \<longleftrightarrow>
     (\<exists>g \<in> set (wk_groups st). i \<in> set (callIdsOf (gr_message g)) \<and> er_seq (gr_origin g) = r)"

text \<open>The call belongs to a message of that origin: no prompt lies between them.\<close>

definition near :: "event list \<Rightarrow> nat \<Rightarrow> event \<Rightarrow> bool" where
  "near es r c \<longleftrightarrow>
     c \<in> set es \<and> is_ToolCalled (ev_body c) \<and> r \<le> ev_seq c \<and>
     (\<forall>u \<in> set es. is_UserSaid (ev_body u) \<longrightarrow> ev_seq u \<le> r \<or> ev_seq c < ev_seq u)"

definition spoke :: "event list \<Rightarrow> nat \<Rightarrow> bool" where
  "spoke es r \<longleftrightarrow>
     (\<exists>a \<in> set es. ev_seq a = r \<and> (is_AssistantSaid (ev_body a) \<or> is_ToolCalled (ev_body a)))"

definition answeredBy :: "event list \<Rightarrow> nat \<Rightarrow> nat \<Rightarrow> bool" where
  "answeredBy es r t \<longleftrightarrow>
     (\<exists>c s. near es r c \<and> s \<in> set es \<and> settlesCall (ev_body s) \<and>
        eb_callId (ev_body c) = eb_callId (ev_body s) \<and> ev_seq c < ev_seq s \<and> t = ev_seq s)"

definition openedLast :: "event list \<Rightarrow> walk \<Rightarrow> bool" where
  "openedLast es st \<longleftrightarrow>
     (wk_openAssistant st \<and> wk_groups st \<noteq> [] \<and> is_AssistantMessage (gr_message (last (wk_groups st))) \<longrightarrow>
       spoke es (er_seq (gr_origin (last (wk_groups st)))) \<and>
       (\<forall>u \<in> set es. is_UserSaid (ev_body u) \<longrightarrow>
          ev_seq u \<le> er_seq (gr_origin (last (wk_groups st)))))"

definition traced :: "string set \<Rightarrow> event list \<Rightarrow> walk \<Rightarrow> bool" where
  "traced logged es st \<longleftrightarrow>
     logged \<subseteq> set (wk_unavailable st) \<and> set (wk_claimed st) \<subseteq> set (wk_unavailable st) \<and>
     (\<forall>c \<in> set es. is_ToolCalled (ev_body c) \<longrightarrow> eb_callId (ev_body c) \<in> set (wk_claimed st)) \<and>
     (\<forall>i r. holder st i r \<longrightarrow> i \<in> set (wk_claimed st) \<and> spoke es r) \<and>
     openedLast es st \<and>
     (\<forall>x. set (wk_open st x) \<subseteq> set (wk_claimed st)) \<and>
     (\<forall>x i r. i \<in> set (wk_open st x) \<longrightarrow> holder st i r \<longrightarrow>
        (\<exists>c. near es r c \<and> eb_callId (ev_body c) = x)) \<and>
     (\<forall>x r. x \<in> logged \<longrightarrow> holder st x r \<longrightarrow> (\<exists>c. near es r c \<and> eb_callId (ev_body c) = x)) \<and>
     (\<forall>i answer. wk_settlements st i = Some answer \<longrightarrow> i \<in> set (wk_claimed st) \<and>
        (\<forall>r. holder st i r \<longrightarrow> answeredBy es r (er_seq (sc_origin answer))))"

lemma traced_start: "set (callIdsIn events) = logged \<Longrightarrow> traced logged [] (walkStart events)"
  by (simp add: traced_def walkStart_def holder_def openedLast_def)

section \<open>One more event\<close>

lemma near_snoc: "near es r c \<Longrightarrow> \<forall>x \<in> set es. ev_seq x < ev_seq e \<Longrightarrow> near (es @ [e]) r c"
  by (auto simp: near_def)

lemma spoke_snoc: "spoke es r \<Longrightarrow> spoke (es @ [e]) r"
  by (auto simp: spoke_def)

lemma answeredBy_snoc:
  "answeredBy es r t \<Longrightarrow> \<forall>x \<in> set es. ev_seq x < ev_seq e \<Longrightarrow> answeredBy (es @ [e]) r t"
  unfolding answeredBy_def using near_snoc by fastforce

lemma traced_near: "traced logged es st \<Longrightarrow> i \<in> set (wk_open st x) \<Longrightarrow> holder st i r \<Longrightarrow>
    \<exists>c. near es r c \<and> eb_callId (ev_body c) = x"
  and traced_logged: "traced logged es st \<Longrightarrow> x \<in> logged \<Longrightarrow> holder st x r \<Longrightarrow>
    \<exists>c. near es r c \<and> eb_callId (ev_body c) = x"
  and traced_settled: "traced logged es st \<Longrightarrow> wk_settlements st i = Some answer \<Longrightarrow> holder st i r \<Longrightarrow>
    answeredBy es r (er_seq (sc_origin answer))"
  and traced_spoke: "traced logged es st \<Longrightarrow> holder st i r \<Longrightarrow> spoke es r"
  and traced_held: "traced logged es st \<Longrightarrow> holder st i r \<Longrightarrow> i \<in> set (wk_claimed st)"
  and traced_open: "traced logged es st \<Longrightarrow> set (wk_open st x) \<subseteq> set (wk_claimed st)"
  and traced_claimed: "traced logged es st \<Longrightarrow> wk_settlements st i = Some answer \<Longrightarrow>
    i \<in> set (wk_claimed st)"
  and traced_sets: "traced logged es st \<Longrightarrow> logged \<subseteq> set (wk_unavailable st) \<and>
    set (wk_claimed st) \<subseteq> set (wk_unavailable st)"
  and traced_calls: "traced logged es st \<Longrightarrow> c \<in> set es \<Longrightarrow> is_ToolCalled (ev_body c) \<Longrightarrow>
    eb_callId (ev_body c) \<in> set (wk_claimed st)"
  unfolding traced_def by blast+

text \<open>An event that makes no call and settles none, whatever it adds to the messages.\<close>

lemma traced_other:
  assumes "traced logged es st" and "\<forall>x \<in> set es. ev_seq x < ev_seq e"
    and "\<not> is_ToolCalled (ev_body e)"
    and "\<And>i r. holder st' i r = holder st i r"
    and "wk_claimed st' = wk_claimed st" and "wk_unavailable st' = wk_unavailable st"
    and "wk_open st' = wk_open st" and "wk_settlements st' = wk_settlements st"
    and "openedLast (es @ [e]) st'"
  shows "traced logged (es @ [e]) st'"
proof -
  note snoc = near_snoc [OF _ assms(2)] answeredBy_snoc [OF _ assms(2)]
  show ?thesis
    unfolding traced_def assms(4-8)
  proof (intro conjI allI impI)
    show "openedLast (es @ [e]) st'" by (rule assms(9))
  next
    fix i r assume "holder st i r"
    then show "spoke (es @ [e]) r" using assms(1) traced_spoke spoke_snoc by blast
  next
    fix x i r assume "i \<in> set (wk_open st x)" "holder st i r"
    then show "\<exists>c. near (es @ [e]) r c \<and> eb_callId (ev_body c) = x"
      using traced_near [OF assms(1)] snoc(1) by blast
  next
    fix x r assume "x \<in> logged" "holder st x r"
    then show "\<exists>c. near (es @ [e]) r c \<and> eb_callId (ev_body c) = x"
      using traced_logged [OF assms(1)] snoc(1) by blast
  next
    fix i answer r assume "wk_settlements st i = Some answer" "holder st i r"
    then show "answeredBy (es @ [e]) r (er_seq (sc_origin answer))"
      using traced_settled [OF assms(1)] snoc(2) by blast
  qed (use assms(1,3) in \<open>auto simp: traced_def\<close>)
qed

text \<open>A message without calls is pushed.\<close>

lemma holder_push:
  "callIdsOf message = [] \<Longrightarrow>
     holder (st\<lparr>wk_groups := wk_groups st @ [\<lparr>gr_message = message, gr_origin = origin\<rparr>]\<rparr>) i r =
     holder st i r"
  by (auto simp: holder_def)

lemma holder_same [simp]:
  "holder (st\<lparr>wk_openAssistant := b\<rparr>) = holder st"
  "holder (st\<lparr>wk_settlements := m\<rparr>) = holder st"
  "holder (st\<lparr>wk_open := f\<rparr>) = holder st"
  by (auto simp: holder_def fun_eq_iff)

lemma traced_pushUser:
  assumes "traced logged es st" and "\<forall>x \<in> set es. ev_seq x < ev_seq e" and "\<not> is_ToolCalled (ev_body e)"
  shows "traced logged (es @ [e]) (pushUser e content (st\<lparr>wk_openAssistant := False\<rparr>))"
proof (rule traced_other [OF assms])
  show "holder (pushUser e content (st\<lparr>wk_openAssistant := False\<rparr>)) i r = holder st i r" for i r
    unfolding pushUser_def by (subst holder_push) simp_all
qed (simp_all add: pushUser_def openedLast_def)

lemma traced_closed:
  assumes "traced logged es st" and "\<forall>x \<in> set es. ev_seq x < ev_seq e" and "\<not> is_ToolCalled (ev_body e)"
  shows "traced logged (es @ [e]) (st\<lparr>wk_openAssistant := False\<rparr>)"
  by (rule traced_other [OF assms]) (simp_all add: openedLast_def)

lemma traced_said:
  assumes "traced logged es st" and "\<forall>x \<in> set es. ev_seq x < ev_seq e" and "is_AssistantSaid (ev_body e)"
  shows "traced logged (es @ [e])
    (st\<lparr>wk_groups := wk_groups st @
          [\<lparr>gr_message = AssistantMessage (map saidPart parts) None, gr_origin = originOf e\<rparr>],
        wk_openAssistant := True\<rparr>)"
proof (rule traced_other [OF assms(1,2)])
  show "holder (st\<lparr>wk_groups := wk_groups st @
        [\<lparr>gr_message = AssistantMessage (map saidPart parts) None, gr_origin = originOf e\<rparr>],
      wk_openAssistant := True\<rparr>) i r = holder st i r" for i r
    using holder_push [of "AssistantMessage (map saidPart parts) None" st "originOf e" i r]
    by (simp del: callsMade.simps)
qed (use assms in \<open>auto simp: openedLast_def spoke_def originOf_def is_AssistantSaid_def intro: less_imp_le\<close>)

text \<open>A settlement.\<close>

lemma traced_settlement:
  assumes tr: "traced logged es st" and new: "\<forall>x \<in> set es. ev_seq x < ev_seq e"
    and settles: "settlesCall (ev_body e)"
    and follows: "\<exists>c \<in> set es. is_ToolCalled (ev_body c) \<and> eb_callId (ev_body c) = eb_callId (ev_body e)"
    and called: "eb_callId (ev_body e) \<in> logged"
  shows "traced logged (es @ [e]) (walkSettlement e (st\<lparr>wk_openAssistant := False\<rparr>))"
proof -
  let ?x = "eb_callId (ev_body e)"
  let ?i = "if wk_open st ?x = [] then ?x else last (wk_open st ?x)"
  let ?st = "walkSettlement e (st\<lparr>wk_openAssistant := False\<rparr>)"
  have not_call: "\<not> is_ToolCalled (ev_body e)"
    using settles by (auto simp: settlesCall_def is_ToolResult_def is_ToolDenied_def)
  note base = traced_closed [OF tr new not_call]
  have st: "?st = st\<lparr>wk_openAssistant := False, wk_open := (wk_open st)(?x := butlast (wk_open st ?x)),
      wk_settlements := (wk_settlements st)(?i \<mapsto> \<lparr>sc_part = toolResultPart (ev_body e) ?i, sc_origin = originOf e\<rparr>)\<rparr>"
    by (simp add: walkSettlement_def Let_def)
  then have same: "holder ?st = holder st" "wk_claimed ?st = wk_claimed st"
      "wk_unavailable ?st = wk_unavailable st"
    and closed: "\<not> wk_openAssistant ?st"
    and opened: "set (wk_open ?st x) \<subseteq> set (wk_open st x)"
    and settled: "wk_settlements ?st i = Some answer \<Longrightarrow>
      wk_settlements st i = Some answer \<or> i = ?i \<and> sc_origin answer = originOf e" for x i answer
    by (auto dest: in_set_butlastD split: if_split_asm)
  have claimed: "?i \<in> set (wk_claimed st)"
    using follows traced_calls [OF tr] traced_open [OF tr] by (metis last_in_set subsetD)
  have reached: "\<exists>c. near es r c \<and> eb_callId (ev_body c) = ?x" if "holder st ?i r" for r
  proof (cases "wk_open st ?x = []")
    case True
    with that show ?thesis using traced_logged [OF tr called] by simp
  next
    case False
    with that show ?thesis using traced_near [OF tr last_in_set [OF False]] by simp
  qed
  have answered: "answeredBy (es @ [e]) r (ev_seq e)" if "holder st ?i r" for r
  proof -
    from reached [OF that] obtain c where c: "near es r c" "eb_callId (ev_body c) = ?x" by blast
    then have "ev_seq c < ev_seq e" using new by (simp add: near_def)
    with c settles near_snoc [OF c(1) new] show ?thesis unfolding answeredBy_def by auto
  qed
  show ?thesis
    unfolding traced_def same
  proof (intro conjI allI impI)
    fix x i r assume "i \<in> set (wk_open ?st x)" "holder st i r"
    then have "i \<in> set (wk_open st x)" using opened by blast
    then show "\<exists>c. near (es @ [e]) r c \<and> eb_callId (ev_body c) = x"
      using traced_near [OF tr _ \<open>holder st i r\<close>] near_snoc [OF _ new] by blast
  next
    fix x r assume "x \<in> logged" "holder st x r"
    then show "\<exists>c. near (es @ [e]) r c \<and> eb_callId (ev_body c) = x"
      using traced_logged [OF tr] near_snoc [OF _ new] by blast
  next
    fix i answer r assume "wk_settlements ?st i = Some answer" and holds: "holder st i r"
    from settled [OF this(1)] show "answeredBy (es @ [e]) r (er_seq (sc_origin answer))"
    proof
      assume "wk_settlements st i = Some answer"
      then show ?thesis using traced_settled [OF tr _ holds] answeredBy_snoc [OF _ new] by blast
    next
      assume "i = ?i \<and> sc_origin answer = originOf e"
      then show ?thesis using answered holds by (simp add: originOf_def)
    qed
  next
    fix i answer assume "wk_settlements ?st i = Some answer"
    with claimed show "i \<in> set (wk_claimed st)" using settled traced_claimed [OF tr] by blast
  next
    show "set (wk_open ?st x) \<subseteq> set (wk_claimed st)" for x
      using traced_open [OF tr] opened by blast
  next
    show "spoke (es @ [e]) r" if "holder st i r" for i r
      using traced_spoke [OF tr that] by (rule spoke_snoc)
  next
    show "openedLast (es @ [e]) ?st" using closed by (simp add: openedLast_def)
  next
    show "\<forall>c \<in> set (es @ [e]). is_ToolCalled (ev_body c) \<longrightarrow> eb_callId (ev_body c) \<in> set (wk_claimed st)"
      using traced_calls [OF tr] not_call by auto
  next
    show "i \<in> set (wk_claimed st)" if "holder st i r" for i r
      using traced_held [OF tr that] .
  qed (use traced_sets [OF tr] in blast)+
qed

text \<open>A call: the message it is added to, or the one it opens.\<close>

definition callOrigin :: "event \<Rightarrow> walk \<Rightarrow> nat" where
  "callOrigin e st =
     (if wk_openAssistant st \<and> wk_groups st \<noteq> [] \<and> is_AssistantMessage (gr_message (last (wk_groups st)))
      then er_seq (gr_origin (last (wk_groups st))) else ev_seq e)"

lemma holder_groups:
  "holder st i r \<longleftrightarrow>
     (\<exists>g \<in> set (wk_groups st). i \<in> set (callIdsOf (gr_message g)) \<and> er_seq (gr_origin g) = r)"
  by (rule holder_def)

lemma holder_call:
  "holder (walkCall e st) i r \<longleftrightarrow>
     holder st i r \<or> i = emittedId st (eb_callId (ev_body e)) \<and> r = callOrigin e st"
proof (cases "wk_groups st \<noteq> [] \<and> wk_openAssistant st \<and> is_AssistantMessage (gr_message (last (wk_groups st)))")
  case True
  then obtain front final content options where "wk_groups st = front @ [final]"
    and "gr_message final = AssistantMessage content options"
    by (metis append_butlast_last_id message.collapse(2))
  then show ?thesis using True
    by (auto simp: holder_def walkCall_def Let_def appendCall_def toolCallPart_def callOrigin_def)
next
  case False
  then show ?thesis
    by (auto simp: holder_def walkCall_def Let_def appendCall_def toolCallPart_def callOrigin_def
        originOf_def)
qed

lemma callOrigin_near:
  assumes "traced logged es st" and "\<forall>x \<in> set es. ev_seq x < ev_seq e" and "is_ToolCalled (ev_body e)"
  shows "near (es @ [e]) (callOrigin e st) e \<and> spoke (es @ [e]) (callOrigin e st)"
proof -
  have "\<not> is_UserSaid (ev_body e)" using assms(3) by (auto simp: is_ToolCalled_def)
  moreover have "openedLast es st" using assms(1) by (simp add: traced_def)
  ultimately show ?thesis
    using assms(2,3) by (auto simp: callOrigin_def near_def spoke_def openedLast_def intro: less_imp_le)
qed

lemma openedLast_call:
  assumes "traced logged es st" and "\<forall>x \<in> set es. ev_seq x < ev_seq e" and "is_ToolCalled (ev_body e)"
  shows "openedLast (es @ [e]) (walkCall e st)"
proof -
  have "er_seq (gr_origin (last (wk_groups (walkCall e st)))) = callOrigin e st"
    by (auto simp: walkCall_def Let_def appendCall_def callOrigin_def originOf_def)
  moreover have "ev_seq u \<le> callOrigin e st" if "u \<in> set (es @ [e])" "is_UserSaid (ev_body u)" for u
    using callOrigin_near [OF assms] that assms(2) by (fastforce simp: near_def)
  ultimately show ?thesis using callOrigin_near [OF assms] by (simp add: openedLast_def)
qed

lemma traced_call:
  assumes tr: "traced logged es st" and new: "\<forall>x \<in> set es. ev_seq x < ev_seq e"
    and call: "is_ToolCalled (ev_body e)" and called: "eb_callId (ev_body e) \<in> logged"
  shows "traced logged (es @ [e]) (walkCall e st)"
proof -
  let ?x = "eb_callId (ev_body e)"
  let ?i = "emittedId st ?x"
  let ?st = "walkCall e st"
  have fresh: "?i \<notin> set (wk_claimed st)"
    using traced_sets [OF tr] by (simp add: emittedId_fresh)
  have raw: "x \<in> logged \<Longrightarrow> ?i = x \<Longrightarrow> x = ?x" for x
    using traced_sets [OF tr] freshCallId_fresh [of ?x "wk_unavailable st"]
    by (auto simp: emittedId_def split: if_split_asm)
  have fields: "wk_claimed ?st = ?i # wk_claimed st" "wk_unavailable ?st = ?i # wk_unavailable st"
      "wk_open ?st = (wk_open st)(?x := wk_open st ?x @ [?i])" "wk_settlements ?st = wk_settlements st"
    by (simp_all add: walkCall_def Let_def)
  note self = callOrigin_near [OF tr new call]
  note held = holder_call [of e st]
  show ?thesis
    unfolding traced_def
  proof (intro conjI allI impI)
    fix x i r assume "i \<in> set (wk_open ?st x)" and "holder ?st i r"
    then consider "i = ?i" "x = ?x" "r = callOrigin e st" | "i \<in> set (wk_open st x)" "holder st i r"
      | "i = ?i" "i \<in> set (wk_open st x)" | "i = ?i" "holder st i r" "x = ?x"
      by (auto simp: fields held split: if_split_asm)
    then show "\<exists>c. near (es @ [e]) r c \<and> eb_callId (ev_body c) = x"
    proof cases
      case 3
      with fresh traced_open [OF tr] show ?thesis by blast
    next
      case 4
      with fresh traced_held [OF tr] show ?thesis by blast
    qed (use self traced_near [OF tr] near_snoc [OF _ new] in blast)+
  next
    fix x r assume x: "x \<in> logged" "holder ?st x r"
    then consider "holder st x r" | "x = ?x" "r = callOrigin e st" using raw by (auto simp: held)
    then show "\<exists>c. near (es @ [e]) r c \<and> eb_callId (ev_body c) = x"
      using x self traced_logged [OF tr] near_snoc [OF _ new] by cases blast+
  next
    fix i answer r assume "wk_settlements ?st i = Some answer" and "holder ?st i r"
    then have "wk_settlements st i = Some answer" "holder st i r"
      using fresh traced_claimed [OF tr] by (auto simp: fields held)
    then show "answeredBy (es @ [e]) r (er_seq (sc_origin answer))"
      using traced_settled [OF tr] answeredBy_snoc [OF _ new] by blast
  next
    fix i answer assume "wk_settlements ?st i = Some answer"
    then show "i \<in> set (wk_claimed ?st)" using traced_claimed [OF tr] by (simp add: fields)
  next
    show "set (wk_open ?st x) \<subseteq> set (wk_claimed ?st)" for x
      using traced_open [OF tr, of x] by (auto simp: fields)
  next
    show "spoke (es @ [e]) r" if "holder ?st i r" for i r
      using that self traced_spoke [OF tr] spoke_snoc by (auto simp: held)
  next
    show "openedLast (es @ [e]) ?st" by (rule openedLast_call [OF tr new call])
  next
    show "\<forall>c \<in> set (es @ [e]). is_ToolCalled (ev_body c) \<longrightarrow> eb_callId (ev_body c) \<in> set (wk_claimed ?st)"
      using traced_calls [OF tr] by (auto simp: fields emittedId_def)
  next
    show "i \<in> set (wk_claimed ?st)" if "holder ?st i r" for i r
      using that traced_held [OF tr] by (auto simp: fields held)
  qed (use traced_sets [OF tr] in \<open>auto simp: fields\<close>)
qed

section \<open>The whole walk\<close>

definition resultsFollow :: "event list \<Rightarrow> bool" where
  "resultsFollow events \<longleftrightarrow>
     (\<forall>s \<in> set events. settlesCall (ev_body s) \<longrightarrow>
        (\<exists>c \<in> set events. is_ToolCalled (ev_body c) \<and>
           eb_callId (ev_body c) = eb_callId (ev_body s) \<and> ev_seq c < ev_seq s))"

lemma traced_step:
  assumes tr: "traced logged es st" and new: "\<forall>x \<in> set es. ev_seq x < ev_seq e"
    and called: "is_ToolCalled (ev_body e) \<or> settlesCall (ev_body e) \<Longrightarrow> eb_callId (ev_body e) \<in> logged"
    and follows: "settlesCall (ev_body e) \<Longrightarrow>
      \<exists>c \<in> set es. is_ToolCalled (ev_body c) \<and> eb_callId (ev_body c) = eb_callId (ev_body e)"
  shows "traced logged (es @ [e]) (walkStep current nudging st e)"
proof (cases "is_ToolCalled (ev_body e) \<or> settlesCall (ev_body e)")
  case True
  then show ?thesis
    using traced_call [OF tr new] traced_settlement [OF tr new] called follows
    by (cases "ev_body e") (simp_all add: walkStep_def settlesCall_def)
next
  case False
  then show ?thesis
    using traced_closed [OF tr new] traced_pushUser [OF tr new] traced_said [OF tr new]
    by (cases "ev_body e") (simp_all add: walkStep_def Let_def settlesCall_def)
qed

lemma traced_events:
  assumes "sorted_wrt (<) (map ev_seq events)" and "resultsFollow events"
  shows "traced (set (callIdsIn events)) events (walkEvents events)"
proof -
  have "traced (set (callIdsIn events)) es (foldl (walkStep current nudging) (walkStart events) es)"
    if "events = es @ rest" for es rest current nudging
    using that
  proof (induction es arbitrary: rest rule: rev_induct)
    case Nil
    then show ?case by (simp add: traced_start)
  next
    case (snoc e es)
    from assms(1) snoc.prems have new: "\<forall>x \<in> set es. ev_seq x < ev_seq e"
      and later: "\<forall>x \<in> set rest. ev_seq e < ev_seq x"
      by (auto simp: sorted_wrt_append)
    have "eb_callId (ev_body e) \<in> set (callIdsIn events)"
      if "is_ToolCalled (ev_body e) \<or> settlesCall (ev_body e)"
      using that snoc.prems by (auto simp: callIdsIn_def followsCall_def settlesCall_def)
    moreover have "\<exists>c \<in> set es. is_ToolCalled (ev_body c) \<and> eb_callId (ev_body c) = eb_callId (ev_body e)"
      if "settlesCall (ev_body e)"
    proof -
      from assms(2) that snoc.prems obtain c where c: "c \<in> set events" "is_ToolCalled (ev_body c)"
          "eb_callId (ev_body c) = eb_callId (ev_body e)" "ev_seq c < ev_seq e"
        unfolding resultsFollow_def by fastforce
      with snoc.prems later have "c \<in> set es" by fastforce
      with c show ?thesis by blast
    qed
    ultimately show ?case using traced_step [OF _ new] snoc by simp
  qed
  from this [of events "[]"] show ?thesis by (simp add: walkEvents_def)
qed

text \<open>The pairs of the request are a call's message and either itself or a result of one of its calls.\<close>

lemma callPairs_append:
  "callsMade (am_message (last (x # xs))) = [] \<Longrightarrow>
     callPairs ((x # xs) @ ys) = callPairs (x # xs) @ callPairs ys"
proof (induction xs arbitrary: x)
  case Nil
  then show ?case by (simp add: callPairs_Cons)
next
  case (Cons z zs)
  then show ?case by simp
qed

lemma messagesForGroup_pairs:
  assumes "\<not> is_ToolMessage (gr_message g)"
  shows "callPairs (messagesForGroup g found_in @ rest) =
      callPairs (messagesForGroup g found_in) @ callPairs rest" and
    "(a, t) \<in> set (callPairs (messagesForGroup g found_in)) \<Longrightarrow>
      \<exists>i \<in> set (callIdsOf (gr_message g)). a = er_seq (gr_origin g) \<and>
        (t = a \<or> (\<exists>answer. found_in i = Some answer \<and> t = er_seq (sc_origin answer)))"
proof -
  let ?messages = "messagesForGroup g found_in"
  show "callPairs (?messages @ rest) = callPairs ?messages @ callPairs rest"
  proof (cases ?messages)
    case (Cons x xs)
    then have "callsMade (am_message (last (x # xs))) = []"
      by (cases "gr_message g") (auto simp: messagesForGroup_def Let_def split: if_split_asm)
    with Cons show ?thesis using callPairs_append by metis
  qed simp
  assume pair: "(a, t) \<in> set (callPairs ?messages)"
  let ?calls = "callsMade (gr_message g)"
  let ?answers = "map (\<lambda>call. found_in (tcp_toolCallId call)) ?calls"
  from pair have some: "?calls \<noteq> []" and a: "a = er_seq (gr_origin g)"
    and t: "t = er_seq (case List.find (\<lambda>answer. answer \<noteq> None) ?answers of
        Some (Some answer) \<Rightarrow> sc_origin answer | _ \<Rightarrow> gr_origin g)"
    by (auto simp: messagesForGroup_def Let_def split: if_split_asm)
  show "\<exists>i \<in> set (callIdsOf (gr_message g)). a = er_seq (gr_origin g) \<and>
      (t = a \<or> (\<exists>answer. found_in i = Some answer \<and> t = er_seq (sc_origin answer)))"
  proof (cases "List.find (\<lambda>answer. answer \<noteq> None) ?answers")
    case None
    with some a t show ?thesis by (cases ?calls) auto
  next
    case (Some found)
    from find_Some_in [OF this] obtain call answer where "call \<in> set ?calls" "found = Some answer"
        "found_in (tcp_toolCallId call) = Some answer" by auto
    with a t Some show ?thesis by auto
  qed
qed

lemma callPairs_walk:
  assumes "walkOk st" and "(a, t) \<in> set (callPairs (groupMessages st))"
  shows "\<exists>i. holder st i a \<and> (t = a \<or> (\<exists>answer. wk_settlements st i = Some answer \<and> t = er_seq (sc_origin answer)))"
proof -
  have "\<exists>g \<in> set groups. (a, t) \<in> set (callPairs (messagesForGroup g (wk_settlements st)))"
    if "\<forall>g \<in> set groups. \<not> is_ToolMessage (gr_message g)"
      "(a, t) \<in> set (callPairs (concat (map (\<lambda>g. messagesForGroup g (wk_settlements st)) groups)))" for groups
    using that by (induction groups) (auto simp: messagesForGroup_pairs)
  then obtain g where "g \<in> set (wk_groups st)" "(a, t) \<in> set (callPairs (messagesForGroup g (wk_settlements st)))"
    using assms unfolding walkOk_def groupMessages_def by blast
  then show ?thesis
    using assms(1) messagesForGroup_pairs(2) [of g a t "wk_settlements st"]
    unfolding walkOk_def holder_def by blast
qed

lemma callPairs_traced:
  assumes "sorted_wrt (<) (map ev_seq events)" and "resultsFollow events"
    and "(a, t) \<in> set (callPairs (groupMessages (walkEvents events)))"
  shows "spoke events a \<and> (t = a \<or> answeredBy events a t)"
  using callPairs_walk [OF walkOk_events assms(3)] traced_events [OF assms(1,2)]
    traced_spoke traced_settled by blast

section \<open>A summary at the end of the log\<close>

lemma blocks_snoc:
  "is_HistoryCompacted (ev_body w) \<Longrightarrow> endingBlocks (events @ [w]) = endingBlocks events"
proof -
  assume "is_HistoryCompacted (ev_body w)"
  then have "\<not> is_AgentEnded (ev_body w)" by (auto simp: is_HistoryCompacted_def)
  then show ?thesis by (simp add: endingBlocks_def waves_def waveStep_def split_beta)
qed

lemma walk_snoc:
  assumes "is_HistoryCompacted (ev_body w)"
  shows "groupMessages (walkEvents (events @ [w])) = groupMessages (walkEvents events)"
proof -
  obtain anchor from_seq through summary replaced where
    w: "ev_body w = HistoryCompacted anchor from_seq through summary replaced"
    using assms by (auto simp: is_HistoryCompacted_def)
  then have "currentContextEvents (events @ [w]) = currentContextEvents events"
    and "liveNudgeIds (events @ [w]) = liveNudgeIds events"
    and "walkStart (events @ [w]) = walkStart events"
    by (simp_all add: currentContextEvents_def latestContext_def contextWrite_def liveNudgeIds_def
        liveNudges_def walkStart_def callIdsIn_def followsCall_def)
  then show ?thesis by (simp add: walkEvents_def walkStep_def w groupMessages_def)
qed

lemma firstSeq_least: "sorted_wrt (<) (map ev_seq events) \<Longrightarrow> x \<in> set events \<Longrightarrow> firstSeq events \<le> ev_seq x"
  by (cases events) (auto simp: firstSeq_def intro: less_imp_le)

lemma lastSeq_greatest: "sorted_wrt (<) (map ev_seq events) \<Longrightarrow> x \<in> set events \<Longrightarrow> ev_seq x \<le> lastSeq events"
  by (cases events rule: rev_cases) (auto simp: lastSeq_def sorted_wrt_append intro: less_imp_le)

lemma same_event:
  "sorted_wrt (<) (map ev_seq events) \<Longrightarrow> x \<in> set events \<Longrightarrow> y \<in> set events \<Longrightarrow>
     ev_seq x = ev_seq y \<Longrightarrow> x = y"
  by (simp add: strict_sorted_iff distinct_map inj_on_def)

lemma spoke_not_spared:
  "sorted_wrt (<) (map ev_seq events) \<Longrightarrow> spoke events a \<Longrightarrow> a \<notin> outlivesCompaction events"
proof
  assume sorted: "sorted_wrt (<) (map ev_seq events)" and "spoke events a" "a \<in> outlivesCompaction events"
  then obtain x y where "x \<in> set events" "is_AssistantSaid (ev_body x) \<or> is_ToolCalled (ev_body x)"
      "y \<in> set events" "is_ContextLoaded (ev_body y)" "ev_seq x = a" "ev_seq y = a"
    by (auto simp: spoke_def outlivesCompaction_def eventsOfType_def)
  with same_event [OF sorted, of x y] show False
    by (auto simp: is_ContextLoaded_def)
qed

lemma answer_not_spared:
  "sorted_wrt (<) (map ev_seq events) \<Longrightarrow> answeredBy events a t \<Longrightarrow> t \<notin> outlivesCompaction events"
proof
  assume sorted: "sorted_wrt (<) (map ev_seq events)" and "answeredBy events a t" "t \<in> outlivesCompaction events"
  then obtain x y where "x \<in> set events" "settlesCall (ev_body x)"
      "y \<in> set events" "is_ContextLoaded (ev_body y)" "ev_seq x = t" "ev_seq y = t"
    by (auto simp: answeredBy_def outlivesCompaction_def eventsOfType_def)
  with same_event [OF sorted, of x y] show False
    by (auto simp: is_ContextLoaded_def settlesCall_def)
qed

text \<open>A call and its result stand on the same side of a planned cut.\<close>

lemma planned_side:
  assumes "planCompaction events keep = Some plan" and "answeredBy events a t"
  shows "a \<le> cpl_throughSeq plan \<longleftrightarrow> t \<le> cpl_throughSeq plan"
proof -
  let ?through = "cpl_throughSeq plan"
  obtain start where start: "start \<in> set events" "is_UserSaid (ev_body start)"
      "int ?through = int (ev_seq start) - 1" "compactionTarget events (int ?through) = CompactionAllowed"
    using planCompaction_Some [OF assms(1)] by blast
  obtain c s where near: "near events a c" and answer: "s \<in> set events" "settlesCall (ev_body s)"
      "eb_callId (ev_body c) = eb_callId (ev_body s)" "ev_seq c < ev_seq s" "t = ev_seq s"
    using assms(2) by (auto simp: answeredBy_def)
  have "\<not> (int (ev_seq c) \<le> int ?through \<and> int ?through < int (ev_seq s))"
    using start(4) near answer unfolding compactionTarget_iff splitAt_def near_def by blast
  moreover have "ev_seq start \<le> a \<or> ev_seq c < ev_seq start" and "a \<le> ev_seq c"
    using near start(1,2) by (auto simp: near_def)
  ultimately show ?thesis using start(3) answer(4,5) by linarith
qed

lemma planned_undisturbed:
  assumes plan: "planCompaction events keep = Some plan"
    and sorted: "sorted_wrt (<) (map ev_seq events)" and follow: "resultsFollow events"
    and undisturbed: "undisturbed events"
    and w: "ev_body w = HistoryCompacted Prefix (firstSeq events) (cpl_throughSeq plan) summary replaced"
    and behind: "lastSeq events < ev_seq w"
  shows "undisturbed (events @ [w])"
proof -
  have compacted: "is_HistoryCompacted (ev_body w)" by (simp add: w)
  have "steady (events @ [w]) a t"
    if pair: "(a, t) \<in> set (callPairs (groupMessages (walkEvents events)))" for a t
  proof -
    have old: "steady events a t" using undisturbed pair by (auto simp: undisturbed_def)
    from callPairs_traced [OF sorted follow pair]
    have spoke: "spoke events a" and answer: "t = a \<or> answeredBy events a t" by simp_all
    then have "\<exists>x \<in> set events. ev_seq x = a" and "\<exists>x \<in> set events. ev_seq x = t"
      by (auto simp: spoke_def answeredBy_def)
    then have seqs: "firstSeq events \<le> a" "firstSeq events \<le> t" "a < ev_seq w" "t < ev_seq w"
      using firstSeq_least [OF sorted] lastSeq_greatest [OF sorted] behind by fastforce+
    have "(a \<in> outlivesCompaction events \<or> \<not> covered w a) = (t \<in> outlivesCompaction events \<or> \<not> covered w t)"
      using answer
    proof
      assume answered: "answeredBy events a t"
      have "covered w a = covered w t"
        using planned_side [OF plan answered] seqs by (auto simp: covered_def w)
      then show ?thesis
        using spoke_not_spared [OF sorted spoke] answer_not_spared [OF sorted answered] by simp
    qed simp
    moreover have "outlivesCompaction (events @ [w]) = outlivesCompaction events"
      by (simp add: outlivesCompaction_def eventsOfType_def w)
    moreover have "set (breaks (events @ [w])) = insert (ev_seq w) (set (breaks events))"
      by (auto simp: breaks_def blocks_snoc [OF compacted] compactionWatermarks_def eventsOfType_def w)
    moreover have "compactionWatermarks (events @ [w]) = compactionWatermarks events @ [w]"
      by (simp add: compactionWatermarks_def eventsOfType_def w)
    ultimately show ?thesis using old seqs by (auto simp: steady_def)
  qed
  then show ?thesis by (auto simp: undisturbed_def walk_snoc [OF compacted])
qed


definition plannedLog :: "event list" where
  "plannedLog =
     [rowAt 1 (UserSaid ''list the files'' None None),
      rowAt 2 (AssistantSaid [AssistantText (plainText ''looking'')] None),
      rowAt 3 (ToolCalled ''c1'' ''bash'' (Some (JString ''ls'')) 0),
      rowAt 4 (ToolResult ''c1'' ''bash'' (Some (JString ''a b'')) None None None None),
      rowAt 5 (UserSaid ''now remove a'' None None),
      rowAt 6 (ToolCalled ''c2'' ''bash'' (Some (JString ''rm a'')) 0),
      rowAt 7 (ToolResult ''c2'' ''bash'' (Some (JString ''done'')) None None None None)]"

lemma plannedLog_plan: "planCompaction plannedLog 5 =
    Some \<lparr>cpl_throughSeq = 4, cpl_compactedEvents = 4, cpl_keptEvents = 3\<rparr>"
  by code_simp

lemma plannedLog_log:
  "sorted_wrt (<) (map ev_seq plannedLog)" "resultsFollow plannedLog" "undisturbed plannedLog"
  "firstSeq plannedLog = 1" "lastSeq plannedLog = 7"
  by code_simp+


end
