(* ===== verification/Resume.thy ===== *)
theory Resume
  imports Rewind_Fork
begin

text \<open>
  \<open>events/resume-plan.ts\<close> and \<open>policy/approval.ts\<close>: what to do with a thread that stopped, and what an
  answered approval lets run.
\<close>

section \<open>Resuming\<close>

definition RESUME_NUDGE :: string where
  "RESUME_NUDGE =
     ''You were interrupted mid-turn. Continue from exactly where you stopped: finish '' @
     ''the thought you were in and carry on with the work. If a tool call was cut '' @
     ''short, run it again. Do not restart, re-plan, or repeat what you already said, '' @
     ''and do not ask what to do instead or remark on the interruption.''"

definition RESUME_LIFETIME_STEPS :: nat where "RESUME_LIFETIME_STEPS = 1"

definition APPROVAL_WAITING :: string where
  "APPROVAL_WAITING =
     ''an approval is waiting for an answer, so answer it rather than resuming past it''"

datatype resume_plan =
    ResumeContinue (re_nudge: bool)
  | ResumeNudge (re_interrupted: event)
  | ResumeBlocked (re_reason: string)
  | ResumeNothing

definition carriesInterruption :: "event \<Rightarrow> bool" where
  "carriesInterruption event \<longleftrightarrow>
     (is_AssistantSaid (ev_body event) \<or> is_ToolResult (ev_body event) \<or>
      is_ToolDenied (ev_body event)) \<and> eb_interrupted (ev_body event) = Some True"

text \<open>The events behind the last prompt, or all of them if there is none.\<close>

definition sincePrompt :: "event list \<Rightarrow> event list" where
  "sincePrompt events =
     rev (takeWhile (\<lambda>event. \<not> is_UserSaid (ev_body event) \<and> \<not> is_NudgeSent (ev_body event))
       (rev events))"

definition cutShortSincePrompt :: "event list \<Rightarrow> bool" where
  "cutShortSincePrompt events \<longleftrightarrow> (\<exists>event \<in> set (sincePrompt events). carriesInterruption event)"

definition resumePlan :: "event list \<Rightarrow> resume_plan" where
  "resumePlan events =
     (if length events = 0 then ResumeNothing
      else if outstandingApproval events \<noteq> None then ResumeBlocked APPROVAL_WAITING
      else if length (pendingCalls events) > 0 then ResumeContinue False
      else if awaitsReply events then ResumeContinue (cutShortSincePrompt events)
      else (case findLast (\<lambda>event. is_AssistantSaid (ev_body event)) events of
          None \<Rightarrow> ResumeNothing
        | Some spoke \<Rightarrow>
            if eb_interrupted (ev_body spoke) \<noteq> Some True then ResumeNothing
            else ResumeNudge spoke))"

definition wantsNudge :: "resume_plan \<Rightarrow> bool" where
  "wantsNudge plan \<longleftrightarrow> is_ResumeNudge plan \<or> is_ResumeContinue plan \<and> re_nudge plan"

definition resumeDrafts :: "event list \<Rightarrow> event_body list" where
  "resumeDrafts events =
     (if \<not> wantsNudge (resumePlan events) then []
      else [NudgeSent RESUME_NUDGE RESUME_LIFETIME_STEPS])"

definition isResumable :: "event list \<Rightarrow> bool" where
  "isResumable events \<longleftrightarrow> is_ResumeContinue (resumePlan events) \<or> is_ResumeNudge (resumePlan events)"

section \<open>Answered approvals\<close>

datatype resolved_approval = Dispatch "json option" | Refused string

definition DECLINED :: string where
  "DECLINED = ''the operator declined this call''"

definition askedReason :: "event list \<Rightarrow> string \<Rightarrow> string option" where
  "askedReason events callId =
     (let asked = filter (\<lambda>event. eb_callId (ev_body event) = callId)
            (eventsOfType is_ApprovalRequested events)
      in if asked = [] then None else Some (eb_reason (ev_body (last asked))))"

definition resolveApproval :: "event list \<Rightarrow> string \<Rightarrow> json option \<Rightarrow> resolved_approval" where
  "resolveApproval events callId input =
     (case answeredApproval events callId of
        None \<Rightarrow> Dispatch input
      | Some answer \<Rightarrow>
          if eb_decision (ev_body answer) = Deny then
            Refused (case askedReason events callId of
                None \<Rightarrow> DECLINED
              | Some asked \<Rightarrow> DECLINED @ '': '' @ asked)
          else if eb_editedInput (ev_body answer) \<noteq> None then Dispatch (eb_editedInput (ev_body answer))
          else Dispatch input)"

section \<open>Lemmas\<close>

lemma findLast_split:
  assumes "findLast P xs = Some x"
  shows "\<exists>ys zs. xs = ys @ x # zs \<and> P x \<and> (\<forall>z \<in> set zs. \<not> P z)"
  using assms
proof (induction xs rule: rev_induct)
  case (snoc y ys)
  show ?case
  proof (cases "P y")
    case True
    with snoc.prems show ?thesis by (intro exI [of _ ys] exI [of _ "[]"]) simp
  next
    case False
    then obtain as bs where "ys = as @ x # bs" "P x" "\<forall>z \<in> set bs. \<not> P z"
      using snoc by auto
    then show ?thesis using False by (intro exI [of _ as] exI [of _ "bs @ [y]"]) auto
  qed
qed simp

text \<open>The plan by cases of what is open.\<close>

lemma resumePlan_settled:
  assumes "settledLog events"
  shows "resumePlan events =
    (if events = [] then ResumeNothing
     else if awaitsReply events then ResumeContinue (cutShortSincePrompt events)
     else (case findLast (\<lambda>event. is_AssistantSaid (ev_body event)) events of
         None \<Rightarrow> ResumeNothing
       | Some spoke \<Rightarrow>
           if eb_interrupted (ev_body spoke) \<noteq> Some True then ResumeNothing
           else ResumeNudge spoke))"
  using assms by (simp add: resumePlan_def settledLog_iff)

lemma answeredApproval_is_answer:
  "answeredApproval events callId = Some answer \<Longrightarrow>
     answer \<in> set events \<and> is_ApprovalAnswered (ev_body answer) \<and> eb_callId (ev_body answer) = callId"
proof (induction events rule: rev_induct)
  case Nil
  then show ?case by (simp add: answeredApproval_def)
next
  case (snoc event events)
  then show ?case by (auto simp: answeredApproval_snoc answerStep_def split: if_split_asm)
qed

text \<open>An answer given before the call was made again is forgotten.\<close>

lemma answeredApproval_recalled:
  assumes "is_ToolCalled (ev_body call)" and "eb_callId (ev_body call) = callId"
    and "\<forall>e \<in> set later. \<not> (is_ApprovalAnswered (ev_body e) \<and> eb_callId (ev_body e) = callId)"
  shows "answeredApproval (events @ call # later) callId = None"
  using assms(3)
proof (induction later rule: rev_induct)
  case Nil
  then show ?case using assms(1,2) by (simp add: answeredApproval_snoc answerStep_def)
next
  case (snoc e later)
  then have "answeredApproval ((events @ call # later) @ [e]) callId = None"
    unfolding answeredApproval_snoc answerStep_def by auto
  then show ?case by simp
qed

section \<open>Properties\<close>

text \<open>C28: a thread that was rewound can go on. After an allowed rewind the thread waits for no approval, it
  continues exactly when a reply is due, and at most the one resume nudge is added.\<close>

theorem rewind_then_resume:
  assumes "rewindTarget events toSeq floorSeq = RewindAllowed"
  shows "\<not> is_ResumeBlocked (resumePlan (rowsThrough events toSeq)) \<and>
    (is_ResumeContinue (resumePlan (rowsThrough events toSeq)) \<longleftrightarrow>
       awaitsReply (rowsThrough events toSeq)) \<and>
    set (resumeDrafts (rowsThrough events toSeq)) \<subseteq> {NudgeSent RESUME_NUDGE 1}"
proof -
  have settled: "settledLog (rowsThrough events toSeq)" using assms by (simp add: rewindTarget_iff)
  have "awaitsReply [] = False" by code_simp
  then show ?thesis
    using resumePlan_settled [OF settled]
    by (auto simp: resumeDrafts_def RESUME_LIFETIME_STEPS_def split: if_splits option.splits)
qed

lemma rewind_then_resume_witness:
  "\<not> is_ResumeBlocked (resumePlan (rowsThrough [rowAt 1 (UserSaid ''hi'' None None),
     rowAt 2 (ToolCalled ''c'' ''bash'' None 0)] 1))"
proof -
  let ?log = "[rowAt 1 (UserSaid ''hi'' None None), rowAt 2 (ToolCalled ''c'' ''bash'' None 0)]"
  have rows: "rowsThrough ?log 1 = [rowAt 1 (UserSaid ''hi'' None None)]"
    and bounds: "lastSeq ?log = 2" "replacedThrough ?log = 0" "unendedSpawns ?log = []"
    and pending: "pendingCalls [rowAt 1 (UserSaid ''hi'' None None)] = []"
    by code_simp+
  have "outstandingApproval [rowAt 1 (UserSaid ''hi'' None None)] = None"
    by (simp add: outstandingApproval_def unansweredApprovals_def approvalWrite_def js_map.run_def rowAt_def)
  then have "rewindTarget ?log 1 0 = RewindAllowed"
    using rows bounds pending by (simp add: rewindTarget_iff settledLog_iff del: at_0_None)
  from rewind_then_resume [OF this] show ?thesis by blast
qed

text \<open>An answer is used once. When a call id is called again after it was answered, the answer given
  before decides nothing: the new call is dispatched with its own input.\<close>

theorem resolveApproval_recalled:
  assumes "is_ToolCalled (ev_body call)" and "eb_callId (ev_body call) = callId"
    and "\<forall>e \<in> set later. \<not> (is_ApprovalAnswered (ev_body e) \<and> eb_callId (ev_body e) = callId)"
  shows "resolveApproval (events @ call # later) callId input = Dispatch input"
  using answeredApproval_recalled [OF assms] by (simp add: resolveApproval_def)

lemma resolveApproval_recalled_witness:
  "resolveApproval ([rowAt 1 (ApprovalAnswered ''c'' Deny None)] @
     rowAt 2 (ToolCalled ''c'' ''bash'' (Some JNull) 0) # []) ''c'' (Some JNull) = Dispatch (Some JNull)"
  by (rule resolveApproval_recalled) (simp_all add: rowAt_def)

end
