(* ===== verification/Untrusted.thy ===== *)
theory Untrusted
  imports Verdict
begin

text \<open>
  \<open>web/untrusted.ts\<close>: the envelope around text that is quoted to a model and must not be read as if the
  harness said it. The replacement with the regular expression \<open>/<(\/?)untrusted-content/gi\<close> reads the
  body from the left. The non-breaking hyphen is one character that is not the ASCII one.
\<close>

section \<open>Definitions\<close>

definition soft_hyphen :: char where "soft_hyphen = CHR 0xAD"

definition OPEN_ENVELOPE :: string where "OPEN_ENVELOPE = ''untrusted-content''"

definition NEUTRALISED :: string where "NEUTRALISED = ''untrusted'' @ [soft_hyphen] @ ''content''"

text \<open>One match at the head of the text: \<open>$1\<close> and the text behind it.\<close>

definition readEnvelope :: "string \<Rightarrow> (string \<times> string) option" where
  "readEnvelope s =
     (case readLiteral (''</'' @ OPEN_ENVELOPE) s of
        Some after \<Rightarrow> Some (''/'', after)
      | None \<Rightarrow> map_option (Pair []) (readLiteral (''<'' @ OPEN_ENVELOPE) s))"

lemma readEnvelope_shorter: "readEnvelope s = Some (slash, after) \<Longrightarrow> length after < length s"
  by (auto simp: readEnvelope_def dest: readLiteral_shorter split: option.splits)

function neutraliseEnvelope :: "string \<Rightarrow> string" where
  "neutraliseEnvelope s =
     (case readEnvelope s of
        Some (slash, after) \<Rightarrow> ''<'' @ slash @ NEUTRALISED @ neutraliseEnvelope after
      | None \<Rightarrow> (case s of [] \<Rightarrow> [] | c # rest \<Rightarrow> c # neutraliseEnvelope rest))"
  by pat_completeness auto
termination
  by (relation "measure length") (auto dest: readEnvelope_shorter)

declare neutraliseEnvelope.simps [simp del]

text \<open>\<open>source.replaceAll('"', '%22')\<close>.\<close>

definition quotedSource :: "string \<Rightarrow> string" where
  "quotedSource source = concat (map (\<lambda>c. if c = dquote then ''%22'' else [c]) source)"

definition wrapUntrusted :: "string \<Rightarrow> string \<Rightarrow> string" where
  "wrapUntrusted source body =
     join [newline]
       [''<'' @ OPEN_ENVELOPE @ '' source='' @ [dquote] @ quotedSource source @ [dquote] @ ''>'',
        neutraliseEnvelope body,
        ''</'' @ OPEN_ENVELOPE @ ''>'']"

section \<open>Nothing inside closes the envelope\<close>

text \<open>The places of a text at which a tag of the envelope can be read.\<close>

fun envelopesIn :: "string \<Rightarrow> string list" where
  "envelopesIn [] = []"
| "envelopesIn (c # s) = (if readEnvelope (c # s) = None then [] else [c # s]) @ envelopesIn s"

lemma readLiteral_Some:
  "readLiteral p s = Some r \<longleftrightarrow> map lowerChar (take (length p) s) = p \<and> r = drop (length p) s"
proof (induction p s rule: readLiteral.induct)
  case (3 p ps c s)
  then show ?case by auto
qed auto

lemma readEnvelope_head: "readEnvelope s \<noteq> None \<Longrightarrow> \<exists>rest. s = CHR ''<'' # rest"
proof -
  have "lowerChar c = CHR ''<'' \<Longrightarrow> c = CHR ''<''" for c
    by (auto simp: lowerChar_def split: option.splits if_split_asm)
  then show "readEnvelope s \<noteq> None \<Longrightarrow> \<exists>rest. s = CHR ''<'' # rest"
    by (cases s) (auto simp: readEnvelope_def split: option.splits if_split_asm)
qed

lemma neutralise_Nil [simp]: "neutraliseEnvelope [] = []"
  by (subst neutraliseEnvelope.simps) (simp add: readEnvelope_def OPEN_ENVELOPE_def)

lemma neutralise_match:
  "readEnvelope s = Some (slash, after) \<Longrightarrow>
     neutraliseEnvelope s = CHR ''<'' # slash @ NEUTRALISED @ neutraliseEnvelope after"
  by (subst neutraliseEnvelope.simps) simp

lemma neutralise_char:
  "readEnvelope (c # s) = None \<Longrightarrow> neutraliseEnvelope (c # s) = c # neutraliseEnvelope s"
  by (subst neutraliseEnvelope.simps) simp

lemma lowerChar_angle [simp]: "lowerChar CHR ''<'' = CHR ''<''"
  by (simp add: lowerChar_def)

text \<open>What can be read in the neutralised text could be read in the text.\<close>

lemma neutralise_literal:
  "CHR ''<'' \<notin> set p \<Longrightarrow> readLiteral p (neutraliseEnvelope s) \<noteq> None \<Longrightarrow> readLiteral p s \<noteq> None"
proof (induction p arbitrary: s)
  case (Cons d ds)
  show ?case
  proof (cases "readEnvelope s")
    case (Some found)
    then show ?thesis using Cons.prems by (cases found) (auto simp: neutralise_match)
  next
    case None
    show ?thesis
    proof (cases s)
      case Nil
      with Cons.prems show ?thesis by simp
    next
      case (Cons c rest)
      with None Cons.prems Cons.IH [of rest] show ?thesis
        by (simp add: neutralise_char split: if_split_asm)
    qed
  qed
qed simp

lemma neutralise_unread:
  "readLiteral p s = None \<Longrightarrow> CHR ''<'' \<notin> set p \<Longrightarrow> readLiteral p (neutraliseEnvelope s) = None"
  using neutralise_literal by blast

lemma readEnvelope_angle:
  "readEnvelope (CHR ''<'' # s) = None \<longleftrightarrow>
     readLiteral (''/'' @ OPEN_ENVELOPE) s = None \<and> readLiteral OPEN_ENVELOPE s = None"
  by (auto simp: readEnvelope_def split: option.splits)

lemma readEnvelope_other: "c \<noteq> CHR ''<'' \<Longrightarrow> readEnvelope (c # s) = None"
  using readEnvelope_head [of "c # s"] by (cases "readEnvelope (c # s)") auto

lemma neutralise_closed: "envelopesIn (neutraliseEnvelope s) = []"
proof (induction s rule: neutraliseEnvelope.induct)
  case (1 s)
  have skip: "envelopesIn (c # t) = envelopesIn t" if "c \<noteq> CHR ''<''" for c t
    using that by (simp add: readEnvelope_other)
  show ?case
  proof (cases "readEnvelope s")
    case (Some found)
    obtain slash after where found: "found = (slash, after)" by fastforce
    with Some have slash: "slash = [] \<or> slash = ''/''"
      by (auto simp: readEnvelope_def split: option.splits)
    have "readEnvelope (CHR ''<'' # slash @ NEUTRALISED @ t) = None" for t
      using slash by (auto simp: readEnvelope_angle OPEN_ENVELOPE_def NEUTRALISED_def soft_hyphen_def
          lowerChar_def)
    moreover have "envelopesIn (slash @ NEUTRALISED @ t) = envelopesIn t" for t
      using slash by (auto simp: NEUTRALISED_def soft_hyphen_def skip simp del: envelopesIn.simps)
    ultimately show ?thesis
      using Some found "1.IH"(2) by (simp add: neutralise_match)
  next
    case None
    show ?thesis
    proof (cases s)
      case (Cons c rest)
      have "readEnvelope (c # neutraliseEnvelope rest) = None"
      proof (cases "c = CHR ''<''")
        case True
        with None Cons show ?thesis
          by (simp add: readEnvelope_angle neutralise_unread OPEN_ENVELOPE_def del: readLiteral.simps)
      qed (rule readEnvelope_other)
      with None Cons "1.IH"(1) show ?thesis by (simp add: neutralise_char)
    qed simp
  qed
qed

text \<open>No tag runs over the end of a line.\<close>

lemma readLiteral_line:
  "newline \<notin> set p \<Longrightarrow> readLiteral p (s @ newline # t) \<noteq> None \<Longrightarrow> readLiteral p s \<noteq> None"
proof (induction p s rule: readLiteral.induct)
  case (2 d ds)
  then show ?case by (simp add: lowerChar_def newline_def split: if_split_asm)
qed (auto split: if_split_asm)

lemma envelopesIn_line:
  "envelopesIn (s @ newline # t) = map (\<lambda>found. found @ newline # t) (envelopesIn s) @ envelopesIn t"
proof (induction s)
  case Nil
  have "readEnvelope (newline # t) = None" by (rule readEnvelope_other) (simp add: newline_def)
  then show ?case by simp
next
  case (Cons c s)
  have "readEnvelope (c # s) = None \<longleftrightarrow> readEnvelope ((c # s) @ newline # t) = None"
    using readLiteral_line [of "''</'' @ OPEN_ENVELOPE" "c # s" t]
      readLiteral_line [of "''<'' @ OPEN_ENVELOPE" "c # s" t] readLiteral_append
    by (fastforce simp: readEnvelope_def OPEN_ENVELOPE_def newline_def split: option.splits
        simp del: readLiteral.simps)
  with Cons show ?case by simp
qed


end
