(* ===== verification/Tool_Policy.thy ===== *)
theory Tool_Policy
  imports Resume Tail_Blocks Brief Shapes
begin

text \<open>
  \<open>policy/concurrency.ts\<close>, \<open>policy/outside-project.ts\<close> and \<open>tools/effect-order.ts\<close>, with the tool types of
  \<open>tools/tool.ts\<close> that the harness dispatches on: which calls may overlap, how the calls of a step are
  split into runs, and which effects a ceiling lets through.
\<close>

section \<open>Tools\<close>

text \<open>A declaration, with its schema as the function \<open>safeParse\<close>: the issues it finds, or the data. The
  tool's own predicate may throw (\<open>None\<close>). \<open>json option\<close> is the JavaScript \<open>unknown\<close>, \<open>None\<close> for
  \<open>undefined\<close>.\<close>

record parse_issue =
  pi_path :: "string list"
  pi_message :: string

record tool_declaration =
  dl_name :: string
  dl_effect :: e_tool_effect
  dl_safeParse :: "json option \<Rightarrow> parse_issue list + json"
  dl_isConcurrencySafe :: "(json \<Rightarrow> bool option) option"

datatype tool_outcome =
    ToolOk "json option" string "model_part list option"
  | ToolFailed string

record tool_invocation =
  tv_input :: json
  tv_idempotencyKey :: string
  tv_projectDirectory :: string
  tv_homeDirectory :: "string option"
  tv_activeWorktree :: "active_worktree option"
  tv_threadId :: string

text \<open>Invoking a tool changes the world \<open>'w\<close>; a thrown error is its message.\<close>

record 'w tool_definition = tool_declaration +
  td_invoke :: "tool_invocation \<Rightarrow> 'w \<Rightarrow> (string + tool_outcome) \<times> 'w"

section \<open>Effects\<close>

fun EFFECT_ORDER :: "e_tool_effect \<Rightarrow> nat" where
  "EFFECT_ORDER EffRead = 0"
| "EFFECT_ORDER EffWrite = 1"
| "EFFECT_ORDER EffDestructive = 2"

definition permitsEffect :: "e_tool_effect \<Rightarrow> e_tool_effect option \<Rightarrow> bool" where
  "permitsEffect effect ceiling =
     (case ceiling of None \<Rightarrow> True | Some highest \<Rightarrow> EFFECT_ORDER effect \<le> EFFECT_ORDER highest)"

definition TOOL_EFFECTS :: "e_tool_effect list" where
  "TOOL_EFFECTS = [EffRead, EffWrite, EffDestructive]"

definition toToolEffect :: "string \<Rightarrow> e_tool_effect option" where
  "toToolEffect written = List.find (\<lambda>effect. effectText effect = written) TOOL_EFFECTS"

section \<open>Concurrency\<close>

definition changesTheWorld :: "e_tool_effect \<Rightarrow> bool" where
  "changesTheWorld effect \<longleftrightarrow> effect = EffWrite \<or> effect = EffDestructive"

definition isConcurrencySafeCall :: "tool_declaration option \<Rightarrow> json option \<Rightarrow> bool" where
  "isConcurrencySafeCall declaration input =
     (case declaration of
        None \<Rightarrow> False
      | Some tool \<Rightarrow>
          (case dl_isConcurrencySafe tool of
             None \<Rightarrow> False
           | Some safe \<Rightarrow>
               if changesTheWorld (dl_effect tool) then False
               else (case dl_safeParse tool input of
                   Inl issues \<Rightarrow> False
                 | Inr data \<Rightarrow> safe data = Some True)))"

text \<open>The open run is the last one of \<open>runs\<close>, so pushing a call to it extends that run.\<close>

fun partitionLoop :: "('c \<Rightarrow> bool) \<Rightarrow> 'c list list \<Rightarrow> bool \<Rightarrow> 'c list \<Rightarrow> 'c list list" where
  "partitionLoop safely runs isOpen [] = runs"
| "partitionLoop safely runs isOpen (call # calls) =
     (if \<not> safely call then partitionLoop safely (runs @ [[call]]) False calls
      else if \<not> isOpen then partitionLoop safely (runs @ [[call]]) True calls
      else partitionLoop safely (butlast runs @ [last runs @ [call]]) True calls)"

text \<open>A predicate that throws (\<open>None\<close>) counts as unsafe.\<close>

definition partitionToolCalls :: "'c list \<Rightarrow> ('c \<Rightarrow> bool option) \<Rightarrow> 'c list list" where
  "partitionToolCalls calls isSafe = partitionLoop (\<lambda>call. isSafe call = Some True) [] False calls"

section \<open>Writing outside the project\<close>

definition isPersonalDotPath :: "string \<Rightarrow> bool" where
  "isPersonalDotPath path =
     (case homeDotDirectory path of
        None \<Rightarrow> False
      | Some topLevelUnderHome \<Rightarrow> startsWith topLevelUnderHome ''.'')"

definition outsideProjectNotice :: "string \<Rightarrow> string \<Rightarrow> string option" where
  "outsideProjectNotice path projectDirectory =
     (let resolved = resolveAgainst projectDirectory path in
      if isUnderPath projectDirectory resolved then None
      else if insideTemporaryRoot resolved then None
      else if isPersonalDotPath resolved then None
      else Some (''You just wrote to '' @ resolved @
        '', which is outside this session'' @ [squote] @ ''s project directory ('' @
        projectDirectory @ ''). If the work belongs there '' @ [em_dash] @
        '' another worktree of this repository, say '' @ [em_dash] @
        '' switch to it with enter_worktree rather than editing across checkouts, so the session, '' @
        ''its diffs and its PR stay in one tree. If it was a deliberate one-off outside the project '' @
        ''(config, memory, scratch), carry on.''))"

section \<open>Runs\<close>

text \<open>The runs a step should have: each unsafe call alone, the safe ones between them together.\<close>

function maximalRuns :: "('c \<Rightarrow> bool) \<Rightarrow> 'c list \<Rightarrow> 'c list list" where
  "maximalRuns safe [] = []"
| "maximalRuns safe (call # calls) =
     (if safe call then (call # takeWhile safe calls) # maximalRuns safe (dropWhile safe calls)
      else [call] # maximalRuns safe calls)"
  by pat_completeness auto
termination
  by (relation "measure (\<lambda>(safe, calls). length calls)") (auto simp: le_imp_less_Suc length_dropWhile_le)

lemma partitionLoop_eq:
  "partitionLoop safe runs False calls = runs @ maximalRuns safe calls \<and>
   partitionLoop safe (runs @ [open]) True calls =
     runs @ (open @ takeWhile safe calls) # maximalRuns safe (dropWhile safe calls)"
proof (induction calls arbitrary: runs "open")
  case (Cons call calls)
  show ?case
    using Cons [of "runs @ [open]"] Cons [of runs "open @ [call]"]
      Cons [of "runs @ [open, [call]]"] Cons [of "runs @ [[call]]"] Cons [of runs "[call]"]
    by (auto simp: Cons)
qed simp

lemma partitionToolCalls_eq:
  "partitionToolCalls calls isSafe = maximalRuns (\<lambda>call. isSafe call = Some True) calls"
  by (simp add: partitionToolCalls_def partitionLoop_eq)

lemma concat_maximalRuns: "concat (maximalRuns safe calls) = calls"
  by (induction safe calls rule: maximalRuns.induct) simp_all

lemma maximalRuns_member:
  "run \<in> set (maximalRuns safe calls) \<Longrightarrow> (\<exists>call. run = [call] \<and> \<not> safe call) \<or> (run \<noteq> [] \<and> (\<forall>call \<in> set run. safe call))"
  by (induction safe calls rule: maximalRuns.induct)
    (auto split: if_split_asm dest: set_takeWhileD)

text \<open>C12: the calls of a step are split into maximal runs: the runs one after the other are the calls in
  their order, a run of several calls has only safe ones, and the calls are split nowhere else.\<close>

theorem partitionToolCalls_maximal:
  "partitionToolCalls calls isSafe = maximalRuns (\<lambda>call. isSafe call = Some True) calls \<and>
   concat (partitionToolCalls calls isSafe) = calls"
  by (simp add: partitionToolCalls_eq concat_maximalRuns)

text \<open>A call that overlaps another never changes the world.\<close>

lemma concurrent_reads:
  "isConcurrencySafeCall (Some tool) input \<Longrightarrow> dl_effect tool = EffRead"
  by (cases "dl_effect tool")
    (auto simp: isConcurrencySafeCall_def changesTheWorld_def split: option.splits)

end
