(* ===== verification/Hooks.thy ===== *)
theory Hooks
  imports Tool_Policy Before_Tool Message "HOL-Library.Product_Lexorder" "HOL-Library.List_Lexorder"
begin

text \<open>
  The hooks of the harness: \<open>hooks/order.ts\<close> and \<open>hooks/outcome.ts\<close> of the core, \<open>hooks/budget.ts\<close>,
  \<open>hooks/registry.ts\<close>, \<open>tools/hook-silence.ts\<close> and \<open>tools/approval-routing.ts\<close> of the harness. A hook
  is a function of its arguments and of the world \<open>'w\<close> it may change; racing it against the clock comes
  to one of four endings. Reporting a mishap (\<open>onMishap\<close>) changes nothing the code reads.
\<close>

section \<open>Order\<close>

datatype e_stage = Guard | Policy | Observe

record hook_order =
  ho_stage :: e_stage
  ho_nudge :: int

record 'run registered_hook =
  rh_name :: string
  rh_order :: hook_order
  rh_run :: 'run

fun STAGE_PRECEDENCE :: "e_stage \<Rightarrow> nat" where
  "STAGE_PRECEDENCE Guard = 0"
| "STAGE_PRECEDENCE Policy = 1"
| "STAGE_PRECEDENCE Observe = 2"

definition hookKey :: "'run registered_hook \<Rightarrow> nat \<times> int \<times> string" where
  "hookKey hook =
     (STAGE_PRECEDENCE (ho_stage (rh_order hook)), ho_nudge (rh_order hook), rh_name hook)"

text \<open>\<open>Array.sort\<close> is stable, as \<open>sort_key\<close> is.\<close>

definition orderHooks :: "'run registered_hook list \<Rightarrow> 'run registered_hook list" where
  "orderHooks hooks = sort_key hookKey hooks"

section \<open>Outcomes\<close>

record hook_outcome =
  hk_additionalContext :: "string option"
  hk_drafts :: "event_body list option"

definition HOOK_CONTEXT_KEY :: string where "HOOK_CONTEXT_KEY = ''additional-context''"

definition hookOutcomeDrafts :: "string \<Rightarrow> hook_outcome \<Rightarrow> event_body list" where
  "hookOutcomeDrafts hookName outcome =
     (let carried = (case hk_drafts outcome of None \<Rightarrow> [] | Some drafts \<Rightarrow> drafts) in
      case hk_additionalContext outcome of
        None \<Rightarrow> carried
      | Some context \<Rightarrow>
          if trim context = '''' then carried
          else ContextLoaded hookName HOOK_CONTEXT_KEY context None # carried)"

section \<open>The budget\<close>

definition HOOK_BUDGET_MS :: nat where "HOOK_BUDGET_MS = 5000"

datatype e_hook_mishap_kind = MishapThrew | MishapOverran | MishapReturnedNothing | MishapDisarmed

record hook_mishap =
  hm_label :: string
  hm_kind :: e_hook_mishap_kind
  hm_detail :: string

text \<open>How running a hook against its budget ended: in time with a value or with \<open>undefined\<close>, in time with
  an error, or not in time.\<close>

datatype 'a hook_run = HookGave 'a | HookGaveNothing | HookThrew string | HookOverran

definition withinBudget ::
  "string \<Rightarrow> 'a hook_run \<Rightarrow> (hook_mishap \<Rightarrow> 'a) \<Rightarrow> nat option \<Rightarrow> 'a" where
  "withinBudget label ended fallback budgetMs =
     (case ended of
        HookGave value \<Rightarrow> value
      | HookGaveNothing \<Rightarrow>
          fallback \<lparr>hm_label = label, hm_kind = MishapReturnedNothing, hm_detail = ''returned undefined''\<rparr>
      | HookThrew detail \<Rightarrow> fallback \<lparr>hm_label = label, hm_kind = MishapThrew, hm_detail = detail\<rparr>
      | HookOverran \<Rightarrow> fallback \<lparr>hm_label = label, hm_kind = MishapOverran,
          hm_detail = ''exceeded '' @
            show_nat (case budgetMs of None \<Rightarrow> HOOK_BUDGET_MS | Some given \<Rightarrow> given) @ ''ms''\<rparr>)"

definition complaintOf :: "hook_mishap \<Rightarrow> string" where
  "complaintOf mishap =
     (if hm_kind mishap = MishapThrew then ''failed: '' @ hm_detail mishap else hm_detail mishap)"

definition refusalOf :: "hook_mishap \<Rightarrow> before_tool_outcome" where
  "refusalOf mishap =
     DenyWith (''the '' @ hm_label mishap @ '' hook '' @ complaintOf mishap) None"

definition abstentionOf :: "tool_call \<Rightarrow> before_tool_outcome" where
  "abstentionOf call = AllowWith (tc_input call) None"

definition outcomeWhenAHookDidNotAnswerInTime ::
  "hook_mishap \<Rightarrow> tool_call \<Rightarrow> before_tool_outcome" where
  "outcomeWhenAHookDidNotAnswerInTime mishap call =
     (if hm_kind mishap = MishapOverran then abstentionOf call else refusalOf mishap)"

section \<open>The chain\<close>

record before_tool_args =
  ba_call :: tool_call
  ba_projectDirectory :: string
  ba_events :: "event list"

record after_tool_args =
  at_call :: tool_call
  at_result :: tool_outcome
  at_projectDirectory :: string

text \<open>\<open>beforeTurn\<close> and \<open>onThreadOpen\<close> are told the thread and its project directory, \<open>beforeStep\<close> the request
  and the trace of its assembly, \<open>afterTurn\<close> the thread.\<close>

type_synonym ('args, 'value, 'w) hook_phase = "('args \<Rightarrow> 'w \<Rightarrow> 'value hook_run \<times> 'w) registered_hook list"

record 'w hook_chain =
  hc_beforeTurn :: "(string \<times> string, hook_outcome, 'w) hook_phase"
  hc_beforeStep :: "(assembled \<times> assembly_trace_step list, assembled, 'w) hook_phase"
  hc_beforeTool :: "(before_tool_args, before_tool_outcome, 'w) hook_phase"
  hc_afterTool :: "(after_tool_args, hook_outcome, 'w) hook_phase"
  hc_afterTurn :: "(string, hook_outcome, 'w) hook_phase"
  hc_onThreadOpen :: "(string \<times> string, hook_outcome, 'w) hook_phase"
  hc_budgetMs :: "nat option"

text \<open>The constructor puts the hooks of every phase in order.\<close>

definition hookChain :: "'w hook_chain \<Rightarrow> 'w hook_chain" where
  "hookChain args =
     \<lparr>hc_beforeTurn = orderHooks (hc_beforeTurn args), hc_beforeStep = orderHooks (hc_beforeStep args),
      hc_beforeTool = orderHooks (hc_beforeTool args), hc_afterTool = orderHooks (hc_afterTool args),
      hc_afterTurn = orderHooks (hc_afterTurn args), hc_onThreadOpen = orderHooks (hc_onThreadOpen args),
      hc_budgetMs = hc_budgetMs args\<rparr>"

definition NO_OUTCOME :: hook_outcome where
  "NO_OUTCOME = \<lparr>hk_additionalContext = None, hk_drafts = None\<rparr>"

fun collectDrafts ::
  "('args, hook_outcome, 'w) hook_phase \<Rightarrow> 'args \<Rightarrow> nat option \<Rightarrow> 'w \<Rightarrow> event_body list \<times> 'w" where
  "collectDrafts [] args budgetMs w = ([], w)"
| "collectDrafts (hook # hooks) args budgetMs w =
     (let (ended, w') = rh_run hook args w;
          outcome = withinBudget (rh_name hook) ended (\<lambda>_. NO_OUTCOME) budgetMs;
          (drafts, w'') = collectDrafts hooks args budgetMs w'
      in (hookOutcomeDrafts (rh_name hook) outcome @ drafts, w''))"

definition beforeTurn :: "'w hook_chain \<Rightarrow> string \<Rightarrow> string \<Rightarrow> 'w \<Rightarrow> event_body list \<times> 'w" where
  "beforeTurn hooks threadId projectDirectory =
     collectDrafts (hc_beforeTurn hooks) (threadId, projectDirectory) (hc_budgetMs hooks)"

definition onThreadOpen :: "'w hook_chain \<Rightarrow> string \<Rightarrow> string \<Rightarrow> 'w \<Rightarrow> event_body list \<times> 'w" where
  "onThreadOpen hooks threadId projectDirectory =
     collectDrafts (hc_onThreadOpen hooks) (threadId, projectDirectory) (hc_budgetMs hooks)"

definition afterTurn :: "'w hook_chain \<Rightarrow> string \<Rightarrow> 'w \<Rightarrow> event_body list \<times> 'w" where
  "afterTurn hooks threadId = collectDrafts (hc_afterTurn hooks) threadId (hc_budgetMs hooks)"

text \<open>A hook that ends badly leaves the request as it was.\<close>

fun carryThrough ::
  "('a \<times> 'extra, 'a, 'w) hook_phase \<Rightarrow> 'extra \<Rightarrow> nat option \<Rightarrow> 'a \<Rightarrow> 'w \<Rightarrow> 'a \<times> 'w" where
  "carryThrough [] extra budgetMs carried w = (carried, w)"
| "carryThrough (hook # hooks) extra budgetMs carried w =
     (let (ended, w') = rh_run hook (carried, extra) w
      in carryThrough hooks extra budgetMs
           (withinBudget (rh_name hook) ended (\<lambda>_. carried) budgetMs) w')"

definition beforeStep ::
  "'w hook_chain \<Rightarrow> assembled \<Rightarrow> assembly_trace_step list \<Rightarrow> 'w \<Rightarrow> assembled \<times> 'w" where
  "beforeStep hooks assembled trace = carryThrough (hc_beforeStep hooks) trace (hc_budgetMs hooks) assembled"

section \<open>Approvals\<close>

datatype e_approval_routing = RouteOperator | RouteNone

definition unattendedReason :: "string \<Rightarrow> string" where
  "unattendedReason reason =
     reason @ '' No operator is attached to this agent, so nobody here can authorise it: carry on '' @
     ''with the rest of your task and say in your report what you wanted to do, what stopped it, '' @
     ''and what you would need in order to proceed.''"

section \<open>Lemmas\<close>

text \<open>Ordering loses no hook; guards come before policies, policies before observers; equals keep their
  order.\<close>

lemma orderHooks_same: "set (orderHooks hooks) = set hooks" "length (orderHooks hooks) = length hooks"
  by (simp_all add: orderHooks_def)

lemma orderHooks_staged:
  "sorted (map (\<lambda>hook. STAGE_PRECEDENCE (ho_stage (rh_order hook))) (orderHooks hooks))"
proof -
  have "sorted (map hookKey (orderHooks hooks))" by (simp add: orderHooks_def)
  then have "sorted (map fst (map hookKey (orderHooks hooks)))"
    by (auto simp: sorted_wrt_map less_eq_prod_def elim!: sorted_wrt_mono_rel [rotated])
  then show ?thesis by (simp add: hookKey_def comp_def)
qed

text \<open>Drafts of hooks that say nothing about calls. A phase is quiet when, whatever it is asked, neither
  what it drafts nor what it does to the world touches a call.\<close>

definition touchesCall :: "event_body \<Rightarrow> bool" where
  "touchesCall draft \<longleftrightarrow> is_ToolCalled draft \<or> settlesCall draft"

definition quietOutcome :: "hook_outcome \<Rightarrow> bool" where
  "quietOutcome outcome \<longleftrightarrow>
     (\<forall>draft \<in> set (case hk_drafts outcome of None \<Rightarrow> [] | Some drafts \<Rightarrow> drafts).
        \<not> touchesCall draft \<and> \<not> is_ApprovalRequested draft)"

lemma hookOutcomeDrafts_quiet:
  "quietOutcome outcome \<Longrightarrow> draft \<in> set (hookOutcomeDrafts name outcome) \<Longrightarrow>
     \<not> touchesCall draft \<and> \<not> is_ApprovalRequested draft"
  by (auto simp: hookOutcomeDrafts_def quietOutcome_def touchesCall_def settlesCall_def Let_def
      split: option.splits if_split_asm)

lemma withinBudget_cases:
  "(\<And>value. ended = HookGave value \<Longrightarrow> P value) \<Longrightarrow> (\<And>mishap. P (fallback mishap)) \<Longrightarrow>
     P (withinBudget label ended fallback budgetMs)"
  by (auto simp: withinBudget_def split: hook_run.splits)

lemma quiet_NO_OUTCOME [simp]: "quietOutcome NO_OUTCOME"
  by (simp add: quietOutcome_def NO_OUTCOME_def)

lemma collectDrafts_quiet:
  assumes "\<And>hook w value w'. hook \<in> set hooks \<Longrightarrow> rh_run hook args w = (HookGave value, w') \<Longrightarrow>
      quietOutcome value"
    and "draft \<in> set (fst (collectDrafts hooks args budgetMs w))"
  shows "\<not> touchesCall draft \<and> \<not> is_ApprovalRequested draft"
  using assms
proof (induction hooks arbitrary: w)
  case (Cons hook hooks)
  obtain ended w' where ended: "rh_run hook args w = (ended, w')" by (metis surj_pair)
  have "quietOutcome (withinBudget (rh_name hook) ended (\<lambda>_. NO_OUTCOME) budgetMs)"
    by (rule withinBudget_cases [where P = quietOutcome]) (use Cons.prems(1) ended in auto)
  moreover have "draft \<in> set (fst (collectDrafts hooks args budgetMs w')) \<Longrightarrow> ?case"
    using Cons.IH [of w'] Cons.prems(1) by auto
  ultimately show ?case
    using Cons.prems(2) ended by (auto simp: case_prod_unfold Let_def dest: hookOutcomeDrafts_quiet)
qed simp

lemma collectDrafts_world:
  assumes "\<And>hook w. hook \<in> set hooks \<Longrightarrow> R w (snd (rh_run hook args w))"
    and "\<And>w. R w w" and "\<And>w w' w''. R w w' \<Longrightarrow> R w' w'' \<Longrightarrow> R w w''"
  shows "R w (snd (collectDrafts hooks args budgetMs w))"
  using assms(1)
proof (induction hooks arbitrary: w)
  case (Cons hook hooks)
  have "R (snd (rh_run hook args w)) (snd (collectDrafts hooks args budgetMs (snd (rh_run hook args w))))"
    by (rule Cons.IH) (use Cons.prems in auto)
  then show ?case using Cons.prems [of hook w] by (auto simp: case_prod_unfold Let_def intro: assms(3))
qed (simp add: assms(2))

lemma carryThrough_world:
  assumes "\<And>hook args w. hook \<in> set hooks \<Longrightarrow> R w (snd (rh_run hook args w))"
    and "\<And>w. R w w" and "\<And>w w' w''. R w w' \<Longrightarrow> R w' w'' \<Longrightarrow> R w w''"
  shows "R w (snd (carryThrough hooks extra budgetMs carried w))"
  using assms(1)
proof (induction hooks arbitrary: carried w)
  case (Cons hook hooks)
  have "R w' (snd (carryThrough hooks extra budgetMs value w'))" for "value" w'
    by (rule Cons.IH) (use Cons.prems in auto)
  moreover have "R w (snd (rh_run hook (carried, extra) w))" by (rule Cons.prems) simp
  ultimately show ?case by (simp add: case_prod_unfold Let_def) (blast intro: assms(3))
qed (simp add: assms(2))

end
