(* ===== verification/Dispatch.thy ===== *)
theory Dispatch
  imports Hooks
begin

text \<open>
  \<open>tools/registry.ts\<close> and \<open>tools/dispatch.ts\<close> of the harness: which tools there are, and what becomes of
  one call: unknown, badly formed, denied, asked about, or run and observed. A call is a
  \<open>pending_call\<close>, of which the dispatcher reads all but the ordinal.
\<close>

section \<open>The registry\<close>

record 'w tool_registry =
  tr_declarations :: "'w tool_definition list"
  tr_find :: "string \<Rightarrow> 'w tool_definition option"

text \<open>Registering a name twice throws (\<open>Inl\<close>).\<close>

fun registerAll ::
  "'w tool_definition list \<Rightarrow> (string \<rightharpoonup> 'w tool_definition) \<Rightarrow> string + (string \<rightharpoonup> 'w tool_definition)" where
  "registerAll [] byName = Inr byName"
| "registerAll (definition # definitions) byName =
     (if byName (dl_name definition) \<noteq> None then
        Inl (''two tools are registered as '' @ [dquote] @ dl_name definition @ [dquote])
      else registerAll definitions (byName(dl_name definition \<mapsto> definition)))"

definition inMemoryToolRegistry :: "'w tool_definition list \<Rightarrow> string + 'w tool_registry" where
  "inMemoryToolRegistry definitions =
     map_sum id (\<lambda>byName. \<lparr>tr_declarations = definitions, tr_find = byName\<rparr>)
       (registerAll definitions Map.empty)"

definition permitsName :: "string list option \<Rightarrow> string list option \<Rightarrow> string \<Rightarrow> bool" where
  "permitsName allow deny name =
     (if name \<in> set (case deny of None \<Rightarrow> [] | Some denied \<Rightarrow> denied) then False
      else (case allow of None \<Rightarrow> True | Some allowed \<Rightarrow> name \<in> set allowed))"

definition filteredToolRegistry ::
  "'w tool_registry \<Rightarrow> string list option \<Rightarrow> string list option \<Rightarrow> e_tool_effect option \<Rightarrow> 'w tool_registry" where
  "filteredToolRegistry registry allow deny maxEffect =
     \<lparr>tr_declarations = filter (\<lambda>declaration.
          permitsName allow deny (dl_name declaration) \<and> permitsEffect (dl_effect declaration) maxEffect)
        (tr_declarations registry),
      tr_find = (\<lambda>name.
        if \<not> permitsName allow deny name then None
        else (case tr_find registry name of
            None \<Rightarrow> None
          | Some found \<Rightarrow> if \<not> permitsEffect (dl_effect found) maxEffect then None else Some found))\<rparr>"

section \<open>Dispatching\<close>

record 'w tool_dispatcher =
  di_registry :: "'w tool_registry"
  di_hooks :: "'w hook_chain"
  di_approvals :: e_approval_routing

record dispatch_place =
  dp_projectDirectory :: string
  dp_homeDirectory :: "string option"
  dp_activeWorktree :: "active_worktree option"

definition MAX_REPORTED_ISSUES :: nat where "MAX_REPORTED_ISSUES = 3"

definition unknownToolDraft :: "'w tool_registry \<Rightarrow> pending_call \<Rightarrow> event_body" where
  "unknownToolDraft registry call =
     (let available = map dl_name (tr_declarations registry);
          known = (if length available = 0 then ''none'' else join '', '' available)
      in ToolResult (pc_callId call) (pc_name call) None None None
           (Some (''no tool named '' @ [dquote] @ pc_name call @ [dquote] @
             '' is registered; available tools: '' @ known)) None)"

definition issueLine :: "parse_issue \<Rightarrow> string" where
  "issueLine issue =
     (let field = join ''.'' (pi_path issue)
      in if field = '''' then pi_message issue else field @ '': '' @ pi_message issue)"

definition invalidInputDraft :: "pending_call \<Rightarrow> parse_issue list \<Rightarrow> event_body" where
  "invalidInputDraft call issues =
     (let problems = join ''; '' (map issueLine (take MAX_REPORTED_ISSUES issues))
      in ToolResult (pc_callId call) (pc_name call) None None None
           (Some (''the '' @ pc_name call @ '' tool rejected this input: '' @
             (if problems = '''' then ''it does not match the schema'' else problems))) None)"

text \<open>Each hook is asked about the input the hooks before it allowed.\<close>

fun consultBeforeTool ::
  "(before_tool_args, before_tool_outcome, 'w) hook_phase \<Rightarrow> nat option \<Rightarrow> tool_call \<Rightarrow> string \<Rightarrow>
     event list \<Rightarrow> 'w \<Rightarrow> consulted_hook list \<times> 'w" where
  "consultBeforeTool [] budgetMs call projectDirectory events w = ([], w)"
| "consultBeforeTool (hook # hooks) budgetMs call projectDirectory events w =
     (let (ended, w') = rh_run hook
            \<lparr>ba_call = call, ba_projectDirectory = projectDirectory, ba_events = events\<rparr> w;
          outcome = withinBudget (rh_name hook) ended
            (\<lambda>mishap. outcomeWhenAHookDidNotAnswerInTime mishap call) budgetMs;
          carried = (case outcome of AllowWith input _ \<Rightarrow> call\<lparr>tc_input := input\<rparr> | _ \<Rightarrow> call);
          (consulted, w'') = consultBeforeTool hooks budgetMs carried projectDirectory events w'
      in (\<lparr>ch_hookName = rh_name hook, ch_outcome = outcome\<rparr> # consulted, w''))"

definition invokeTool ::
  "'w tool_definition \<Rightarrow> tool_call \<Rightarrow> string \<Rightarrow> dispatch_place \<Rightarrow> 'w \<Rightarrow> tool_outcome \<times> 'w" where
  "invokeTool definition call idempotencyKey place w =
     (case td_invoke definition
         \<lparr>tv_input = tc_input call, tv_idempotencyKey = idempotencyKey,
          tv_projectDirectory = dp_projectDirectory place, tv_homeDirectory = dp_homeDirectory place,
          tv_activeWorktree = dp_activeWorktree place, tv_threadId = tc_threadId call\<rparr> w of
        (Inr outcome, w') \<Rightarrow> (outcome, w')
      | (Inl message, w') \<Rightarrow> (ToolFailed (''the '' @ tc_name call @ '' tool threw: '' @ message), w'))"

definition resultDraft :: "tool_call \<Rightarrow> tool_outcome \<Rightarrow> bool \<Rightarrow> event_body" where
  "resultDraft call result interrupted =
     (case result of
        ToolOk output modelText modelParts \<Rightarrow>
          ToolResult (tc_callId call) (tc_name call) output (Some modelText) modelParts None None
      | ToolFailed reason \<Rightarrow>
          ToolResult (tc_callId call) (tc_name call) None None None (Some reason)
            (if interrupted then Some True else None))"

definition observeAfterTool ::
  "'w hook_chain \<Rightarrow> tool_call \<Rightarrow> tool_outcome \<Rightarrow> string \<Rightarrow> 'w \<Rightarrow> event_body list \<times> 'w" where
  "observeAfterTool hooks call result projectDirectory =
     collectDrafts (hc_afterTool hooks)
       \<lparr>at_call = call, at_result = result, at_projectDirectory = projectDirectory\<rparr> (hc_budgetMs hooks)"

definition candidateCall :: "'w tool_definition \<Rightarrow> pending_call \<Rightarrow> json \<Rightarrow> tool_call" where
  "candidateCall definition call data =
     \<lparr>tc_callId = pc_callId call, tc_name = pc_name call, tc_input = data, tc_effect = dl_effect definition,
      tc_threadId = pc_threadId call\<rparr>"

text \<open>\<open>aborted\<close> reads the signal of the turn in the world.\<close>

definition runAllowed ::
  "'w tool_dispatcher \<Rightarrow> ('w \<Rightarrow> bool) \<Rightarrow> 'w tool_definition \<Rightarrow> pending_call \<Rightarrow> tool_call \<Rightarrow> dispatch_place \<Rightarrow>
     event_body list \<Rightarrow> 'w \<Rightarrow> event_body list \<times> 'w" where
  "runAllowed dispatcher aborted definition call allowed place drafts w =
     (let (result, w') = invokeTool definition allowed (pc_runId call @ '':'' @ pc_callId call) place w;
          settled = resultDraft allowed result (aborted w');
          (observed, w'') = observeAfterTool (di_hooks dispatcher) allowed result
            (dp_projectDirectory place) w'
      in (drafts @ settled # observed, w''))"

definition dispatch ::
  "'w tool_dispatcher \<Rightarrow> ('w \<Rightarrow> bool) \<Rightarrow> pending_call \<Rightarrow> dispatch_place \<Rightarrow> event list \<Rightarrow> 'w \<Rightarrow>
     event_body list \<times> 'w" where
  "dispatch dispatcher aborted call place events w =
     (case tr_find (di_registry dispatcher) (pc_name call) of
        None \<Rightarrow> ([unknownToolDraft (di_registry dispatcher) call], w)
      | Some definition \<Rightarrow>
          (case dl_safeParse definition (pc_input call) of
             Inl issues \<Rightarrow> ([invalidInputDraft call issues], w)
           | Inr data \<Rightarrow>
               (let candidate = candidateCall definition call data;
                    (consulted, w') = consultBeforeTool (hc_beforeTool (di_hooks dispatcher))
                      (hc_budgetMs (di_hooks dispatcher)) candidate (dp_projectDirectory place) events w;
                    resolution = resolveBeforeTool candidate consulted;
                    drafts = br_drafts resolution
                in case br_outcome resolution of
                     DenyWith reason _ \<Rightarrow>
                       (drafts @ [ToolDenied (pc_callId call) (pc_name call) reason None], w')
                   | AskWith reason _ \<Rightarrow>
                       (if di_approvals dispatcher = RouteNone then
                          (drafts @ [ToolDenied (pc_callId call) (pc_name call) (unattendedReason reason) None], w')
                        else (drafts @ [ApprovalRequested (pc_callId call) reason], w'))
                   | AllowWith input _ \<Rightarrow>
                       runAllowed dispatcher aborted definition call (candidate\<lparr>tc_input := input\<rparr>) place
                         drafts w')))"

section \<open>Registered tools\<close>

lemma registerAll_eq:
  "registerAll tools byName = Inr found \<longleftrightarrow>
     distinct (map dl_name tools) \<and> (\<forall>tool \<in> set tools. byName (dl_name tool) = None) \<and>
     found = byName ++ map_of (map (\<lambda>tool. (dl_name tool, tool)) tools)"
proof (induction tools arbitrary: byName)
  case (Cons tool tools)
  let ?names = "\<lambda>tools. map_of (map (\<lambda>tool. (dl_name tool, tool)) tools)"
  show ?case
  proof (cases "dl_name tool \<in> dl_name ` set tools")
    case True
    then obtain other where "other \<in> set tools" "dl_name other = dl_name tool" by force
    then have "\<not> (\<forall>t \<in> set tools. (byName(dl_name tool \<mapsto> tool)) (dl_name t) = None)" by auto
    then have "registerAll tools (byName(dl_name tool \<mapsto> tool)) \<noteq> Inr found" using Cons.IH by blast
    with True show ?thesis by auto
  next
    case False
    then have "?names tools (dl_name tool) = None" by (auto simp: map_of_eq_None_iff image_iff)
    then have found: "byName(dl_name tool \<mapsto> tool) ++ ?names tools = byName ++ ?names (tool # tools)"
      by (auto simp: map_add_def fun_eq_iff split: option.splits)
    have unnamed: "(\<forall>t \<in> set tools. (byName(dl_name tool \<mapsto> tool)) (dl_name t) = None) \<longleftrightarrow>
        (\<forall>t \<in> set tools. byName (dl_name t) = None)"
      using False by (auto simp: image_iff)
    have "registerAll tools (byName(dl_name tool \<mapsto> tool)) = Inr found \<longleftrightarrow>
        distinct (map dl_name tools) \<and> (\<forall>t \<in> set tools. byName (dl_name t) = None) \<and>
        found = byName ++ ?names (tool # tools)"
      by (simp only: Cons.IH found unnamed)
    with False show ?thesis by (cases "byName (dl_name tool)") (simp_all del: fun_upd_apply)
  qed
qed auto

text \<open>A registry of distinct names is built, and finds exactly its own tools by name.\<close>

lemma inMemoryToolRegistry_find:
  "inMemoryToolRegistry definitions = Inr registry \<Longrightarrow>
     distinct (map dl_name definitions) \<and> tr_declarations registry = definitions \<and>
     (tr_find registry name = Some definition \<longleftrightarrow> definition \<in> set definitions \<and> dl_name definition = name)"
proof (cases "registerAll definitions Map.empty")
  case (Inr found)
  moreover assume "inMemoryToolRegistry definitions = Inr registry"
  ultimately show ?thesis using registerAll_eq [THEN iffD1, OF Inr]
    by (auto simp: inMemoryToolRegistry_def map_of_eq_Some_iff comp_def)
qed (simp add: inMemoryToolRegistry_def)

section \<open>What a dispatch comes to\<close>

text \<open>The hooks around tools are quiet: none of their drafts speaks for a call.\<close>

definition speaksForCall :: "event_body \<Rightarrow> bool" where
  "speaksForCall draft \<longleftrightarrow> touchesCall draft \<or> is_ApprovalRequested draft"

definition quietHooks :: "'w hook_chain \<Rightarrow> bool" where
  "quietHooks hooks \<longleftrightarrow>
     (\<forall>hook \<in> set (hc_beforeTool hooks). \<forall>args w outcome. fst (rh_run hook args w) = HookGave outcome \<longrightarrow>
        (\<forall>draft \<in> set (case bo_drafts outcome of None \<Rightarrow> [] | Some drafts \<Rightarrow> drafts). \<not> speaksForCall draft)) \<and>
     (\<forall>hook \<in> set (hc_afterTool hooks). \<forall>args w outcome. fst (rh_run hook args w) = HookGave outcome \<longrightarrow>
        quietOutcome outcome)"

lemma silence_drafts [simp]: "bo_drafts (outcomeWhenAHookDidNotAnswerInTime mishap call) = None"
  by (simp add: outcomeWhenAHookDidNotAnswerInTime_def abstentionOf_def refusalOf_def)

lemma draftsAmong_Cons:
  "draftsAmong (hook # consulted) =
     (case bo_drafts (ch_outcome hook) of None \<Rightarrow> [] | Some drafts \<Rightarrow> drafts) @ draftsAmong consulted"
  by (simp add: draftsAmong_def)

lemma consulted_quiet:
  assumes "\<And>hook args w outcome. hook \<in> set hooks \<Longrightarrow> fst (rh_run hook args w) = HookGave outcome \<Longrightarrow>
      (\<forall>draft \<in> set (case bo_drafts outcome of None \<Rightarrow> [] | Some drafts \<Rightarrow> drafts). \<not> speaksForCall draft)"
  shows "\<forall>draft \<in> set (draftsAmong (fst (consultBeforeTool hooks budgetMs call directory events w))).
    \<not> speaksForCall draft"
  using assms
proof (induction hooks arbitrary: call w)
  case (Cons hook hooks)
  let ?args = "\<lparr>ba_call = call, ba_projectDirectory = directory, ba_events = events\<rparr>"
  have first: "\<forall>draft \<in> set (case bo_drafts (withinBudget (rh_name hook) (fst (rh_run hook ?args w))
      (\<lambda>mishap. outcomeWhenAHookDidNotAnswerInTime mishap call) budgetMs) of None \<Rightarrow> [] | Some drafts \<Rightarrow> drafts).
      \<not> speaksForCall draft"
    by (rule withinBudget_cases) (use Cons.prems [of hook ?args w] in auto)
  have others: "\<forall>draft \<in> set (draftsAmong (fst (consultBeforeTool hooks budgetMs c directory events v))).
      \<not> speaksForCall draft" for c v
    by (rule Cons.IH, rule Cons.prems, erule list.set_intros(2), assumption)
  show ?case using first others
    by (simp add: case_prod_unfold Let_def draftsAmong_Cons ball_Un)
qed (simp add: draftsAmong_def)

lemma observed_quiet:
  assumes "quietHooks hooks" and "draft \<in> set (fst (observeAfterTool hooks call result directory w))"
  shows "\<not> speaksForCall draft"
  using collectDrafts_quiet [of "hc_afterTool hooks" _ draft] assms
  by (auto simp: observeAfterTool_def speaksForCall_def quietHooks_def) (metis fst_conv)+

lemma touches_simps [simp]:
  "speaksForCall (ToolDenied callId name reason interrupted)"
  "speaksForCall (ToolResult callId name output modelText modelParts error interrupted)"
  "speaksForCall (ApprovalRequested callId reason)"
  by (simp_all add: speaksForCall_def touchesCall_def settlesCall_def)

lemma resolved_drafts [simp]: "br_drafts (resolveBeforeTool call consulted) = draftsAmong consulted"
  by (simp add: resolveBeforeTool_def Let_def split: option.splits)

lemma runAllowed_speaks:
  assumes "quietHooks (di_hooks dispatcher)" and "\<forall>draft \<in> set drafts. \<not> speaksForCall draft"
  shows "\<exists>result interrupted. filter speaksForCall
    (fst (runAllowed dispatcher aborted tool call allowed place drafts w)) = [resultDraft allowed result interrupted]"
proof -
  have "speaksForCall (resultDraft allowed result interrupted)" for result interrupted
    by (simp add: resultDraft_def split: tool_outcome.split)
  moreover have "filter speaksForCall drafts = []" using assms(2) by (simp add: filter_empty_conv)
  moreover have "filter speaksForCall (fst (observeAfterTool (di_hooks dispatcher) allowed result directory v)) = []"
    for result directory v
    using observed_quiet [OF assms(1)] by (simp add: filter_empty_conv)
  ultimately show ?thesis by (auto simp: runAllowed_def case_prod_unfold Let_def)
qed

lemma resultDraft_simps [simp]:
  "eb_callId (resultDraft call result interrupted) = tc_callId call"
  "eb_name (resultDraft call result interrupted) = tc_name call"
  "is_ToolResult (resultDraft call result interrupted)"
  by (simp_all add: resultDraft_def split: tool_outcome.split)

lemma candidateCall_simps [simp]:
  "tc_callId (candidateCall tool call data) = pc_callId call"
  "tc_name (candidateCall tool call data) = pc_name call"
  by (simp_all add: candidateCall_def)


section \<open>Guards fail closed\<close>

text \<open>A hook that throws or returns nothing refuses every call it is asked about.\<close>

definition alwaysFails ::
  "(before_tool_args \<Rightarrow> 'w \<Rightarrow> before_tool_outcome hook_run \<times> 'w) registered_hook \<Rightarrow> bool" where
  "alwaysFails hook \<longleftrightarrow>
     (\<forall>args w. fst (rh_run hook args w) = HookGaveNothing \<or>
        (\<exists>detail. fst (rh_run hook args w) = HookThrew detail))"

lemma failing_outcome:
  assumes "alwaysFails hook"
  shows "decisionOf (withinBudget label (fst (rh_run hook args w))
    (\<lambda>mishap. outcomeWhenAHookDidNotAnswerInTime mishap call) budgetMs) = BT_Deny"
proof -
  from assms have "fst (rh_run hook args w) = HookGaveNothing \<or>
      (\<exists>detail. fst (rh_run hook args w) = HookThrew detail)"
    by (simp add: alwaysFails_def)
  then show ?thesis
    by (auto simp: withinBudget_def outcomeWhenAHookDidNotAnswerInTime_def refusalOf_def)
qed

lemma failing_consulted:
  assumes "alwaysFails hook" and "hook \<in> set hooks"
  shows "\<exists>consulted \<in> set (fst (consultBeforeTool hooks budgetMs call directory events w)).
    decisionOf (ch_outcome consulted) = BT_Deny"
  using assms(2)
proof (induction hooks arbitrary: call w)
  case (Cons other hooks)
  show ?case
  proof (cases "other = hook")
    case True
    then show ?thesis using failing_outcome [OF assms(1)] by (simp add: case_prod_unfold Let_def)
  next
    case False
    with Cons.prems have "hook \<in> set hooks" by simp
    note later = Cons.IH [OF this]
    show ?thesis by (simp add: case_prod_unfold Let_def later)
  qed
qed simp


section \<open>A worked dispatch\<close>

text \<open>A world that counts the tools run in it, a tool, a hook that allows and one that throws.\<close>

definition countingTool :: "nat tool_definition" where
  "countingTool =
     \<lparr>dl_name = ''read'', dl_effect = EffRead, dl_safeParse = (\<lambda>input. case input of
         None \<Rightarrow> Inl [] | Some data \<Rightarrow> Inr data), dl_isConcurrencySafe = None,
      td_invoke = (\<lambda>invocation n. (Inr (ToolOk None ''done'' None), n + 1))\<rparr>"

definition allowingHook :: "(before_tool_args \<Rightarrow> nat \<Rightarrow> before_tool_outcome hook_run \<times> nat) registered_hook" where
  "allowingHook =
     \<lparr>rh_name = ''allow'', rh_order = \<lparr>ho_stage = Policy, ho_nudge = 0\<rparr>,
      rh_run = (\<lambda>args n. (HookGave (AllowWith (tc_input (ba_call args)) None), n))\<rparr>"

definition throwingHook :: "(before_tool_args \<Rightarrow> nat \<Rightarrow> before_tool_outcome hook_run \<times> nat) registered_hook" where
  "throwingHook =
     \<lparr>rh_name = ''guard'', rh_order = \<lparr>ho_stage = Guard, ho_nudge = 0\<rparr>,
      rh_run = (\<lambda>args n. (HookThrew ''out of reach'', n))\<rparr>"

definition countingDispatcher ::
  "(before_tool_args, before_tool_outcome, nat) hook_phase \<Rightarrow> nat tool_dispatcher" where
  "countingDispatcher hooks =
     \<lparr>di_registry = \<lparr>tr_declarations = [countingTool],
        tr_find = (\<lambda>name. if name = ''read'' then Some countingTool else None)\<rparr>,
      di_hooks = hookChain \<lparr>hc_beforeTurn = [], hc_beforeStep = [], hc_beforeTool = hooks, hc_afterTool = [],
        hc_afterTurn = [], hc_onThreadOpen = [], hc_budgetMs = None\<rparr>,
      di_approvals = RouteOperator\<rparr>"

definition readCall :: pending_call where
  "readCall = \<lparr>pc_callId = ''c1'', pc_name = ''read'', pc_input = Some JNull, pc_ordinal = 0, pc_runId = ''r'',
     pc_threadId = ''t''\<rparr>"

definition atProject :: dispatch_place where
  "atProject = \<lparr>dp_projectDirectory = ''/w/p'', dp_homeDirectory = None, dp_activeWorktree = None\<rparr>"

lemma countingDispatcher_hooks:
  "set (hc_beforeTool (di_hooks (countingDispatcher hooks))) = set hooks"
  "hc_afterTool (di_hooks (countingDispatcher hooks)) = []"
  by (simp_all add: countingDispatcher_def hookChain_def orderHooks_def)



end
