(* ===== verification/Spec2Isabelle.thy ===== *)
theory Spec2Isabelle
  imports Call_Outcome Compaction_Facts Dispatch
begin

text \<open>
  A verification library of the core of Atlas, a coding agent (\<open>src/packages/core/src\<close>, called core below,
  and \<open>src/packages/harness/src\<close>). The core is pure TypeScript over an append-only log of events; the
  harness runs processes, files, models and stores around it. What is modelled is how the agent decides
  whether a tool call may run, how it reads the log, what it sends to a model, and how a call is dispatched.

  \<^bold>\<open>How the parts interact.\<close> A model answers with tool calls. The dispatcher (\<open>Dispatch\<close>) finds the tool,
  parses the input and asks the hooks (\<open>Hooks\<close>) before running it. One hook is the risk classifier: it
  reads the command (\<open>Lex\<close> to \<open>Read_Command\<close>), turns it into deeds (\<open>Deed_Of\<close>, \<open>Verbs_*\<close>), raises signals
  (\<open>Probe_*\<close>, \<open>Signals\<close>), triages them under the policy and the standing grants (\<open>Triage\<close>, \<open>Grants\<close>), lets a
  judge model be asked (\<open>Brief\<close>, \<open>Verdict\<close>), and adjudicates (\<open>Adjudicate\<close>). What a hook, a tool or the
  operator says is appended to the log (\<open>Events\<close>); everything else is a projection of it: pending calls,
  approvals, grants, rosters, rewinds and forks (\<open>Projections\<close> to \<open>Resume\<close>). The next request is assembled
  from the log by rules (\<open>Assemble\<close> and the theories it imports) and checked for faults before it is sent
  (\<open>Exchange_Shape\<close>); when it grows too long a prefix is replaced by a summary (\<open>Compaction\<close>).

  \<^bold>\<open>Theories and sources.\<close>
  \<^item> \<open>Prelude\<close>, \<open>Json\<close>, \<open>Ordered_Map\<close>: JavaScript strings, arrays, JSON values and the insertion-ordered \<open>Map\<close>.
    The locale \<open>ordered_map\<close> says what a run of writes leaves under a key.
  \<^item> \<open>Path_Set\<close>: core \<open>policy/classifier/path-set.ts\<close> (paths below are relative to that directory).
  \<^item> \<open>Expansion\<close>, \<open>Operators\<close>, \<open>Lex\<close>, \<open>Segments\<close>, \<open>Flags\<close>, \<open>Assignments\<close>, \<open>Cwd\<close>, \<open>Reading\<close>, \<open>Read_Command\<close>: the files
    of those names under \<open>command/\<close>: a command line becomes tokens, simple commands, and a reading with a
    confidence. \<open>Lex_Facts\<close> and \<open>Read_Facts\<close> show that a shell-quoted command is read back word for word,
    and what a confident reading guarantees.
  \<^item> \<open>Verbs_View\<close>, \<open>Verbs_Git\<close>, \<open>Verbs_Filesystem\<close>, \<open>Verbs_Network\<close>, \<open>Verbs_Packages\<close>, \<open>Verbs_Processes\<close>,
    \<open>Verbs_Routine\<close>: \<open>command/verbs/*.ts\<close>. \<open>Deed\<close> and \<open>Deed_Of\<close>: \<open>deed.ts\<close>, \<open>deed-of.ts\<close>.
  \<^item> \<open>Shapes\<close>, \<open>Facts\<close>, \<open>Evidence\<close>, \<open>Kit\<close>, the seven \<open>Probe_*\<close> theories, \<open>Signals\<close>, \<open>Grants\<close>, \<open>Triage\<close>, \<open>Verdict\<close>,
    \<open>Remedy\<close>, \<open>Adjudicate\<close>: the files of those names and \<open>probes/*.ts\<close>. \<open>Signal_Facts\<close>: which signals are
    raised and kept; the locale of the probes is interpreted on \<open>RISK_PROBES\<close>. \<open>Brief\<close>: \<open>benign.ts\<close>,
    \<open>brief.ts\<close>, \<open>critique.ts\<close>, text for text. \<open>Untrusted\<close>: core \<open>web/untrusted.ts\<close>.
  \<^item> \<open>Before_Tool\<close>: core \<open>policy/before-tool.ts\<close>. \<open>Tool_Policy\<close>: core \<open>policy/concurrency.ts\<close>,
    \<open>policy/outside-project.ts\<close>, \<open>tools/effect-order.ts\<close>. \<open>Hooks\<close>: core \<open>hooks/\<close>, harness \<open>hooks/budget.ts\<close>,
    \<open>hooks/registry.ts\<close>, \<open>tools/hook-silence.ts\<close>, \<open>tools/approval-routing.ts\<close>. \<open>Dispatch\<close>: harness
    \<open>tools/registry.ts\<close>, \<open>tools/dispatch.ts\<close>. \<open>Call_Outcome\<close>: from the text of a command to the outcome of
    its call.
  \<^item> \<open>Events\<close>, \<open>Projections\<close>, \<open>Call_Ids\<close>, \<open>Watermark\<close>, \<open>Roster\<close>, \<open>Rewind_Fork\<close>, \<open>Resume\<close>: core \<open>events/\<close>,
    \<open>compaction/watermark.ts\<close>, \<open>agents/roster.ts\<close>, \<open>policy/approval.ts\<close>. An event is its envelope with an
    \<open>event_body\<close>, one constructor per member of the union.
  \<^item> \<open>Message\<close>, \<open>Context_Blocks\<close>, \<open>Messages_From_Events\<close>, \<open>Agent_Endings\<close>, \<open>Compacted_History\<close>, \<open>Image_Limits\<close>,
    \<open>Images_In_Context\<close>, \<open>Tail_Blocks\<close>, \<open>Cache_Breakpoints\<close>, \<open>Assemble\<close>, \<open>Exchange_Shape\<close>: core \<open>message/\<close>,
    \<open>assembly/\<close>, \<open>images/limits.ts\<close>, \<open>workspace/worktree.ts\<close> and the wording of \<open>shells/\<close>, \<open>services/\<close>,
    \<open>agents/\<close>. A rule or an annotator is a record with a function that may throw (\<open>Inl\<close>).
    \<open>Walk_Facts\<close>, \<open>Exchange_Facts\<close>, \<open>Sound_Exchange\<close>: the messages made from any log pair every call with
    its result, and the request of the default pipeline keeps that; the locale \<open>keeping_stages\<close> carries an
    invariant through the stages and is interpreted on the default rules and annotators.
  \<^item> \<open>Compaction\<close>: core \<open>compaction/\<close> and the estimate of \<open>models/usage.ts\<close>. \<open>Compaction_Facts\<close>: a planned
    compaction leaves a log whose request is still sound.

  \<^bold>\<open>What the lemmas show.\<close> Safety of the classifier: force pushes over published work, removal of the project,
  credential literals in outbound calls, and deeds in dirty worktrees of others are refused when no judge
  answers, unless granted; what only reads passes. Faithfulness of the reader: round trips of the lexer and
  of the reader, no word lost, directories known or absolute. Bookkeeping of the log: pending calls match
  like brackets, approvals, grants as the last word per id, fresh and distinct call ids, rewinds that can be
  resumed. Soundness of requests: pairing, order, identity and non-emptiness, image and cache budgets, base64
  as one bit stream, compaction. Dispatch: every call is answered exactly once, broken guards refuse, calls
  overlap only in maximal runs of calls that declare themselves safe.

  \<^bold>\<open>Conventions.\<close> A character is one of the 256 of HOL; characters of the sources outside ASCII (ellipsis,
  dashes, quotation marks, the non-breaking hyphen) stand for one such code each. A cursor into a string is
  the unread rest. An optional key is an \<open>option\<close>; \<open>unknown\<close> that may be \<open>undefined\<close> is a \<open>json option\<close>; the
  numbers of JSON are integers, sequence numbers that a caller may ask for are \<open>int\<close>. A \<open>throw\<close> is \<open>None\<close> or
  \<open>Inl\<close>. Loops are structural recursion or \<open>function\<close>s with a measure; the only bound of the sources that
  cuts recursion is \<open>maximumScriptNesting\<close> (3 inline scripts), and no fuel is added by the model. Other
  bounds kept are the clipping of reasons (300 and 400 characters), the images of a request, the four
  cache marks, the asks per thread, the three reported issues of a rejected input. In \<open>Hooks\<close> and \<open>Dispatch\<close>
  the world is a type variable: a hook or a tool is a function of the world, which it may change in any way,
  and the hooks of one phase run one after the other as in the code.

  \<^bold>\<open>Not modelled.\<close> Schemas in zod (validation by a library, here the function \<open>safeParse\<close>); \<open>projectedSize\<close> and
  the automatic compaction threshold (floating point); the conversion to a provider's request format (types
  of a third-party SDK); the classifier corpus and the replay measures (test support); settings, skills,
  diff, YAML and partial JSON readers of the core, which neither the classifier nor the assembly uses. Of
  the harness, the turn loop and all that is input and output: stores, processes, containers, HTTP,
  credentials, the individual tools and hooks, and the phases \<open>beforeRequest\<close>, \<open>onChunk\<close> and \<open>afterShell\<close>. The
  terminal interface, the deprecated applications and the documentation.
\<close>

section \<open>Worked calls\<close>

text \<open>A policy that refuses, a bash call, and the evidence of a command in a project at \<open>/w/p\<close>.\<close>

definition nudging :: classifier_policy where
  "nudging = DEFAULT_CLASSIFIER_POLICY\<lparr>cp_mode := Nudge\<rparr>"

definition bashCall :: tool_call where
  "bashCall = \<lparr>tc_callId = ''c1'', tc_name = ''bash'', tc_input = JNull, tc_effect = EffDestructive,
     tc_threadId = ''t''\<rparr>"

definition bashEvidence :: "string \<Rightarrow> workspace_facts \<Rightarrow> call_evidence" where
  "bashEvidence command facts =
     (let reading = readCommand command None ''/w/p'' in
      \<lparr>ce_deeds = deedsOf bashCall Undeclared (Some reading) ''/w/p'', ce_toolName = ''bash'',
       ce_effect = EffDestructive, ce_threadId = ''t'', ce_reading = Some reading, ce_facts = facts,
       ce_recent = [], ce_said = [], ce_grants = []\<rparr>)"

section \<open>Properties that span components\<close>


definition readEvidence :: call_evidence where
  "readEvidence =
     \<lparr>ce_deeds = [\<lparr>d_action = ReadOnly, d_toolName = ''read'', d_targets = [target RPath ''/etc/hosts''],
        d_cwd = None, d_summary = ''read reads without changing anything''\<rparr>],
      ce_toolName = ''read'', ce_effect = EffRead, ce_threadId = ''t'', ce_reading = None,
      ce_facts = NO_FACTS, ce_recent = [], ce_said = [], ce_grants = []\<rparr>"


text \<open>C3: a credential never leaves unseen. A call with an outbound deed whose command carries a credential
  literal is refused when no judge can be reached, whatever was granted before, as long as the policy
  nudges, exposure is not muted and the thread has interruptions left.\<close>

theorem literal_credential_refused:
  assumes "sink \<in> set (ce_deeds evidence)" and "d_action sink \<in> set SINKS"
    and "literalInTheCommand evidence"
    and "Exposure \<notin> set (cp_muted policy)" and "asks < cp_asksPerThread policy"
    and "cp_mode policy = Nudge"
  shows "decisionOf (adjudicate call (triageOf evidence (signalsFor evidence None) policy asks)
      (Some (Unreachable fault)) policy elapsedMs) = BT_Deny"
proof -
  obtain first others where "sinkDeeds evidence = first # others"
    using assms(1,2) by (cases "sinkDeeds evidence") (auto simp: sinkDeeds_def filter_empty_conv)
  then have "\<exists>s \<in> set (exposureProbe evidence).
      rs_id s = ''exposure:literal-credential'' \<and> rs_dimension s = Exposure"
    using assms(3) by (simp add: exposureProbe_def intoSink_def)
  then obtain s where s: "s \<in> set (exposureProbe evidence)" "rs_id s = ''exposure:literal-credential''"
    "rs_dimension s = Exposure" by blast
  have "rs_id s \<in> set ALWAYS_GRAVE" "rs_id s \<notin> set NEVER_VERIFIED" "rs_id s \<in> set NEVER_GRANTABLE"
    unfolding s(2) by code_simp+
  then show ?thesis
    using probe_raised(5) [OF s(1)] s(3) assms(4-6) by (intro refused_unreached) auto
qed

lemma literal_credential_refused_witness:
  "decisionOf (adjudicate bashCall (triageOf literalEvidence
      (signalsFor literalEvidence None) nudging 7) (Some (Unreachable ''timeout'')) nudging 5) = BT_Deny"
proof -
  have hyps: "hd (ce_deeds literalEvidence) \<in> set (ce_deeds literalEvidence)"
    "d_action (hd (ce_deeds literalEvidence)) \<in> set SINKS"
    "literalInTheCommand literalEvidence"
    "Exposure \<notin> set (cp_muted nudging)" "7 < cp_asksPerThread nudging" "cp_mode nudging = Nudge"
    by code_simp+
  show ?thesis by (rule literal_credential_refused [OF hyps])
qed


definition pushFacts :: workspace_facts where
  "pushFacts = NO_FACTS\<lparr>f_projectDirectory := ''/w/p'',
     f_refs := [\<lparr>rf_ref = ''main'', rf_onRemote = True, rf_checkedOutAt = []\<rparr>],
     f_gatheredFor := [RGitRef]\<rparr>"

definition pushEvidence :: call_evidence where
  "pushEvidence =
     bashEvidence (join '' '' (map quoteWord [''git'', ''push'', ''--force'', ''origin'', ''main''])) pushFacts"



definition rootEvidence :: call_evidence where
  "rootEvidence =
     bashEvidence (join '' '' (map quoteWord (''rm'' # ''-rf'' # [''/w/p/sub/..''])))
       (NO_FACTS\<lparr>f_projectDirectory := ''/w/p''\<rparr>)"



definition dirtyTree :: worktree_fact where
  "dirtyTree = \<lparr>wt_path = ''/w/q'', wt_branch = None, wt_isMain = False, wt_occupancy = UnknownOccupancy,
     wt_heldBy = None, wt_changedCount = Some 3, wt_unpushedCommits = None\<rparr>"

definition dirtyDeed :: deed where
  "dirtyDeed = \<lparr>d_action = DiscardWorkingTree, d_toolName = ''bash'',
     d_targets = [target RGitWorktree ''/w/q''], d_cwd = Some ''/w/q'',
     d_summary = ''discards every uncommitted change in the working tree''\<rparr>"

definition dirtyEvidence :: call_evidence where
  "dirtyEvidence =
     \<lparr>ce_deeds = [dirtyDeed], ce_toolName = ''bash'', ce_effect = EffDestructive, ce_threadId = ''t'',
      ce_reading = None, ce_facts = NO_FACTS\<lparr>f_projectDirectory := ''/w/p'',
        f_worktrees := [dirtyTree], f_gatheredFor := [RGitWorktree]\<rparr>,
      ce_recent = [], ce_said = [], ce_grants = []\<rparr>"


end
